(* ===== verification/Prelude.thy ===== *)
theory Prelude
  imports Main "HOL-Library.Word"
begin

text \<open>
  Vocabulary shared by the whole development: machine integers and bytes, the outcome of
  a C++ member function, and the generic lemmas on words, lists and division that the
  components have in common.
\<close>

section \<open>Machine integers\<close>

unbundle bit_operations_syntax

type_synonym byte = "8 word"
type_synonym u32 = "32 word"
type_synonym u64 = "64 word"

named_theorems nowrap \<open>readings of 64-bit arithmetic that does not wrap around\<close>

lemma unat_add_nowrap [nowrap]:
  "unat (a :: u64) + unat b < 2 ^ 64 \<Longrightarrow> unat (a + b) = unat a + unat b"
  by (simp add: unat_word_ariths)

lemma unat_sub_nowrap [nowrap]:
  "b \<le> (a :: u64) \<Longrightarrow> unat (a - b) = unat a - unat b"
  by (simp add: unat_sub)

lemma unat_of_nat_u64 [nowrap]: "n < 2 ^ 64 \<Longrightarrow> unat (of_nat n :: u64) = n"
  by (simp add: unat_of_nat)

lemma unat_u64_less: "unat (a :: u64) < 2 ^ 64"
  by (rule order_less_le_trans [OF unsigned_less]) simp

lemma unat_u64_less': "unat (a :: u64) < 18446744073709551616"
  using unat_u64_less [of a] by simp

lemma less_u64_iff: "(a :: u64) < b \<longleftrightarrow> unat a < unat b"
  by (simp add: word_less_nat_alt)

lemma le_u64_iff: "(a :: u64) \<le> b \<longleftrightarrow> unat a \<le> unat b"
  by (simp add: word_le_nat_alt)

lemma eq_u64_iff: "(a :: u64) = b \<longleftrightarrow> unat a = unat b"
  by (simp add: word_unat_eq_iff)

section \<open>Outcome of a C++ call\<close>

text \<open>
  A call returns a value, stops the process in a failed \<^verbatim>\<open>assert\<close>, or has no defined
  behaviour: an access outside a buffer, a null pointer, a read of a member that no one
  has initialised, a division by zero, or running off the end of a function that must
  return a value.
\<close>

datatype 'a outcome = Ret 'a | Abort | Undef

primrec obind :: "'a outcome \<Rightarrow> ('a \<Rightarrow> 'b outcome) \<Rightarrow> 'b outcome" where
  "obind (Ret x) f = f x"
| "obind Abort f = Abort"
| "obind Undef f = Undef"

definition oassert :: "bool \<Rightarrow> 'a outcome \<Rightarrow> 'a outcome" where
  "oassert b k = (if b then k else Abort)"

lemma oassert_True [simp]: "oassert True k = k"
  by (simp add: oassert_def)

lemma obind_assoc: "obind (obind m f) g = obind m (\<lambda>x. obind (f x) g)"
  by (cases m) simp_all

lemma obind_eq_Ret: "obind m f = Ret y \<longleftrightarrow> (\<exists>x. m = Ret x \<and> f x = Ret y)"
  by (cases m) simp_all

section \<open>Lists\<close>

text \<open>Overwrite a stretch of a list, as a write at an offset of a buffer does.\<close>

definition overlay :: "nat \<Rightarrow> 'a list \<Rightarrow> 'a list \<Rightarrow> 'a list" where
  "overlay off bs xs = take off xs @ bs @ drop (off + length bs) xs"

lemma length_overlay [simp]:
  "off + length bs \<le> length xs \<Longrightarrow> length (overlay off bs xs) = length xs"
  by (simp add: overlay_def)

lemma nth_overlay:
  "off + length bs \<le> length xs \<Longrightarrow> i < length xs \<Longrightarrow>
     overlay off bs xs ! i =
       (if off \<le> i \<and> i < off + length bs then bs ! (i - off) else xs ! i)"
  by (auto simp: overlay_def nth_append not_less min_def)

lemma take_overlay_before:
  "n \<le> off \<Longrightarrow> off \<le> length xs \<Longrightarrow> take n (overlay off bs xs) = take n xs"
  by (simp add: overlay_def min_def)

lemma drop_overlay_after:
  "off + length bs \<le> n \<Longrightarrow> off \<le> length xs \<Longrightarrow> drop n (overlay off bs xs) = drop n xs"
  by (simp add: overlay_def min_def)

lemma slice_overlay_same:
  "off \<le> length xs \<Longrightarrow> take (length bs) (drop off (overlay off bs xs)) = bs"
  by (simp add: overlay_def)

section \<open>Modular arithmetic\<close>

lemma mod_add_if:
  "(a :: nat) < m \<Longrightarrow> b \<le> m \<Longrightarrow> (a + b) mod m = (if a + b < m then a + b else a + b - m)"
  by (auto simp: mod_if)

end
