(* ===== verification/Storage.thy ===== *)
theory Storage
  imports Prelude
begin

text \<open>
  What the ring file keeps on disk: the file as a list of bytes, read and written at a
  file position as POSIX \<^verbatim>\<open>lseek\<close>, \<^verbatim>\<open>read\<close> and \<^verbatim>\<open>write\<close> do, the little-endian header fields of
  \<^verbatim>\<open>struct Header\<close> (\<^verbatim>\<open>src/ringfile_internal.h\<close>), and the data area after the header as a
  circular buffer: \<open>circ_read\<close> and \<open>circ_write\<close> are what the wrapping transfers of
  \<^verbatim>\<open>ringfile.cc\<close> are meant to do.
\<close>

section \<open>Bytes of a file\<close>

text \<open>A read of up to \<open>n\<close> bytes from a position stops at the end of the file.\<close>

definition file_read :: "nat \<Rightarrow> nat \<Rightarrow> byte list \<Rightarrow> byte list" where
  "file_read pos n xs = take n (drop pos xs)"

text \<open>A write past the end extends the file, with zeros in the gap.\<close>

definition file_write :: "nat \<Rightarrow> byte list \<Rightarrow> byte list \<Rightarrow> byte list" where
  "file_write pos bs xs = overlay pos bs (xs @ replicate (pos - length xs) 0)"

lemma file_write_inside:
  "pos \<le> length xs \<Longrightarrow> file_write pos bs xs = overlay pos bs xs"
  by (simp add: file_write_def)

section \<open>Little-endian fields\<close>

primrec le_bytes :: "nat \<Rightarrow> u64 \<Rightarrow> byte list" where
  "le_bytes 0 v = []"
| "le_bytes (Suc n) v = ucast v # le_bytes n (drop_bit 8 v)"

primrec le_word :: "byte list \<Rightarrow> u64" where
  "le_word [] = 0"
| "le_word (b # bs) = ucast b OR push_bit 8 (le_word bs)"

lemma length_le_bytes [simp]: "length (le_bytes n v) = n"
  by (induction n arbitrary: v) simp_all

lemma le_word_le_bytes: "le_word (le_bytes n v) = take_bit (8 * n) v"
proof (induction n arbitrary: v)
  case 0
  then show ?case by simp
next
  case (Suc n)
  have "ucast (ucast v :: byte) OR push_bit 8 (take_bit (8 * n) (drop_bit 8 v))
      = take_bit (8 * Suc n) v"
    by (rule bit_word_eqI) (simp only: bit_simps, auto)
  with Suc show ?case by simp
qed

lemma le_word_le_bytes_8 [simp]: "le_word (le_bytes 8 v) = v"
  by (simp add: le_word_le_bytes take_bit_word_eq_self)

text \<open>\<^verbatim>\<open>struct Header\<close>, packed: the magic number, the flags and two offsets.\<close>

definition sizeof_Header :: nat where
  "sizeof_Header = 24"

definition hdr_magic :: "byte list \<Rightarrow> u32" where
  "hdr_magic xs = ucast (le_word (take 4 xs))"

definition hdr_flags :: "byte list \<Rightarrow> u32" where
  "hdr_flags xs = ucast (le_word (take 4 (drop 4 xs)))"

definition hdr_start :: "byte list \<Rightarrow> u64" where
  "hdr_start xs = le_word (take 8 (drop 8 xs))"

definition hdr_end :: "byte list \<Rightarrow> u64" where
  "hdr_end xs = le_word (take 8 (drop 16 xs))"

definition set_magic :: "u32 \<Rightarrow> byte list \<Rightarrow> byte list" where
  "set_magic v xs = overlay 0 (le_bytes 4 (ucast v)) xs"

definition set_flags :: "u32 \<Rightarrow> byte list \<Rightarrow> byte list" where
  "set_flags v xs = overlay 4 (le_bytes 4 (ucast v)) xs"

definition set_start :: "u64 \<Rightarrow> byte list \<Rightarrow> byte list" where
  "set_start v xs = overlay 8 (le_bytes 8 v) xs"

definition set_end :: "u64 \<Rightarrow> byte list \<Rightarrow> byte list" where
  "set_end v xs = overlay 16 (le_bytes 8 v) xs"

definition data_area :: "byte list \<Rightarrow> byte list" where
  "data_area xs = drop sizeof_Header xs"

named_theorems header \<open>the header fields and the data area do not overlap\<close>

lemma length_setters [simp]:
  "24 \<le> length xs \<Longrightarrow> length (set_magic m xs) = length xs"
  "24 \<le> length xs \<Longrightarrow> length (set_flags m xs) = length xs"
  "24 \<le> length xs \<Longrightarrow> length (set_start v xs) = length xs"
  "24 \<le> length xs \<Longrightarrow> length (set_end v xs) = length xs"
  by (simp_all add: set_magic_def set_flags_def set_start_def set_end_def)

lemma take_drop_overlay_before:
  "i + n \<le> off \<Longrightarrow> off \<le> length xs \<Longrightarrow> take n (drop i (overlay off bs xs)) = take n (drop i xs)"
  by (simp add: take_drop take_overlay_before add.commute)

lemma take_drop_overlay_after:
  "off + length bs \<le> i \<Longrightarrow> off \<le> length xs \<Longrightarrow>
    take n (drop i (overlay off bs xs)) = take n (drop i xs)"
  by (simp add: drop_overlay_after)

lemma take_drop_overlay_same:
  "off \<le> length xs \<Longrightarrow> n = length bs \<Longrightarrow> take n (drop off (overlay off bs xs)) = bs"
  by (simp add: slice_overlay_same)

lemma set_start_fields [header]:
  "24 \<le> length xs \<Longrightarrow> hdr_start (set_start v xs) = v"
  "24 \<le> length xs \<Longrightarrow> hdr_end (set_start v xs) = hdr_end xs"
  "24 \<le> length xs \<Longrightarrow> hdr_magic (set_start v xs) = hdr_magic xs"
  "24 \<le> length xs \<Longrightarrow> hdr_flags (set_start v xs) = hdr_flags xs"
  "24 \<le> length xs \<Longrightarrow> data_area (set_start v xs) = data_area xs"
  by (simp_all add: set_start_def hdr_start_def hdr_end_def hdr_magic_def hdr_flags_def
      data_area_def sizeof_Header_def take_drop_overlay_same take_drop_overlay_after
      take_drop_overlay_before take_overlay_before drop_overlay_after)

lemma set_end_fields [header]:
  "24 \<le> length xs \<Longrightarrow> hdr_end (set_end v xs) = v"
  "24 \<le> length xs \<Longrightarrow> hdr_start (set_end v xs) = hdr_start xs"
  "24 \<le> length xs \<Longrightarrow> hdr_magic (set_end v xs) = hdr_magic xs"
  "24 \<le> length xs \<Longrightarrow> hdr_flags (set_end v xs) = hdr_flags xs"
  "24 \<le> length xs \<Longrightarrow> data_area (set_end v xs) = data_area xs"
  by (simp_all add: set_end_def hdr_start_def hdr_end_def hdr_magic_def hdr_flags_def
      data_area_def sizeof_Header_def take_drop_overlay_same take_drop_overlay_after
      take_drop_overlay_before take_overlay_before drop_overlay_after)

lemma set_magic_flags [header]:
  "24 \<le> length xs \<Longrightarrow> hdr_magic (set_magic m xs) = m"
  "24 \<le> length xs \<Longrightarrow> hdr_magic (set_flags m xs) = hdr_magic xs"
  "24 \<le> length xs \<Longrightarrow> hdr_flags (set_flags m xs) = m"
proof -
  have field: "ucast (le_word (le_bytes 4 (ucast v))) = v" for v :: u32
    by (rule bit_word_eqI) (auto simp: le_word_le_bytes bit_simps)
  show "24 \<le> length xs \<Longrightarrow> hdr_magic (set_magic m xs) = m"
    "24 \<le> length xs \<Longrightarrow> hdr_flags (set_flags m xs) = m"
    using take_drop_overlay_same [of 0 xs 4 "le_bytes 4 (ucast m)"]
    by (simp_all add: set_magic_def hdr_magic_def set_flags_def hdr_flags_def field
        take_drop_overlay_same)
  show "24 \<le> length xs \<Longrightarrow> hdr_magic (set_flags m xs) = hdr_magic xs"
    by (simp add: set_flags_def hdr_magic_def take_overlay_before)
qed

lemma overlay_data [header]:
  "24 \<le> off \<Longrightarrow> off \<le> length xs \<Longrightarrow> hdr_start (overlay off bs xs) = hdr_start xs"
  "24 \<le> off \<Longrightarrow> off \<le> length xs \<Longrightarrow> hdr_end (overlay off bs xs) = hdr_end xs"
  "24 \<le> off \<Longrightarrow> off \<le> length xs \<Longrightarrow> hdr_magic (overlay off bs xs) = hdr_magic xs"
  "24 \<le> off \<Longrightarrow> off \<le> length xs \<Longrightarrow> hdr_flags (overlay off bs xs) = hdr_flags xs"
  by (simp_all add: hdr_start_def hdr_end_def hdr_magic_def hdr_flags_def
      take_drop_overlay_before take_overlay_before)

lemma data_area_overlay [header]:
  "off \<le> length (data_area xs) \<Longrightarrow> 24 \<le> length xs \<Longrightarrow>
    data_area (overlay (24 + off) bs xs) = overlay off bs (data_area xs)"
  by (simp add: data_area_def sizeof_Header_def overlay_def drop_take ac_simps)

section \<open>The data area as a circular buffer\<close>

definition circ_read :: "'a list \<Rightarrow> nat \<Rightarrow> nat \<Rightarrow> 'a list" where
  "circ_read xs off n = take n (rotate off xs)"

definition circ_write :: "'a list \<Rightarrow> nat \<Rightarrow> 'a list \<Rightarrow> 'a list" where
  "circ_write xs off bs =
     rotate (length xs - off mod length xs) (overlay 0 bs (rotate off xs))"

lemma rotate_split: "off < length xs \<Longrightarrow> rotate off xs = drop off xs @ take off xs"
  by (simp add: rotate_drop_take)

lemma length_circ_write [simp]: "length bs \<le> length xs \<Longrightarrow> length (circ_write xs off bs) = length xs"
  by (simp add: circ_write_def)

lemma rotate_back: "off < length xs \<Longrightarrow> rotate (length xs - off) (rotate off xs) = xs"
  by (simp add: rotate_rotate)

lemma rotate_forth:
  "off < length xs \<Longrightarrow> rotate off (rotate (length xs - off) xs) = xs"
  by (simp add: rotate_rotate)

lemma rotate_circ_write:
  "off < length xs \<Longrightarrow> length bs \<le> length xs \<Longrightarrow>
    rotate off (circ_write xs off bs) = overlay 0 bs (rotate off xs)"
  using rotate_forth [of off "overlay 0 bs (rotate off xs)"]
  by (simp add: circ_write_def)

lemma rotate_add_split:
  "u \<le> length xs \<Longrightarrow> rotate (s + u) xs = drop u (rotate s xs) @ take u (rotate s xs)"
proof -
  assume u: "u \<le> length xs"
  have "rotate (s + u) xs = rotate u (rotate s xs)"
    by (simp add: rotate_rotate add.commute)
  also have "\<dots> = drop u (rotate s xs) @ take u (rotate s xs)"
  proof -
    have "rotate u ys = drop u ys @ take u ys" if "u \<le> length ys" for ys :: "'a list"
      using that by (cases "u = length ys") (simp_all add: rotate_drop_take)
    then show ?thesis using u by simp
  qed
  finally show ?thesis .
qed

lemma rotate_mod_length: "rotate (s mod length xs) xs = rotate s xs"
  by (metis rotate_conv_mod)

lemma rotate_overlay:
  assumes "u + length bs \<le> length ys"
  shows "rotate (length ys - u) (overlay 0 bs (drop u ys @ take u ys)) = overlay u bs ys"
proof (cases "u = 0")
  case True
  with assms show ?thesis by (simp add: rotate_id overlay_def)
next
  case False
  with assms show ?thesis
    by (cases "u = length ys") (simp_all add: overlay_def rotate_drop_take min_def ac_simps)
qed

text \<open>Seen from a start offset, a circular write \<open>u\<close> bytes on is an overlay at \<open>u\<close>.\<close>

lemma circ_write_view:
  assumes s: "s < length xs" and fits: "u + length bs \<le> length xs"
  shows "rotate s (circ_write xs ((s + u) mod length xs) bs) = overlay u bs (rotate s xs)"
proof -
  define n where "n = length xs"
  define off where "off = (s + u) mod n"
  have off: "off < n" using s unfolding off_def n_def by (intro mod_less_divisor) auto
  have around: "rotate (n - u) (rotate (s + u) ys) = rotate s ys" if "length ys = n" for ys :: "'a list"
  proof -
    have "rotate (n - u) (rotate (s + u) ys) = rotate (s + n) ys"
      using fits by (simp add: rotate_rotate n_def add.commute)
    also have "\<dots> = rotate s ys"
      using that by (metis mod_add_self2 rotate_conv_mod)
    finally show ?thesis .
  qed
  have "rotate off (circ_write xs off bs) = overlay 0 bs (rotate off xs)"
    using off fits by (intro rotate_circ_write) (simp_all add: n_def)
  then have "rotate (s + u) (circ_write xs off bs) = overlay 0 bs (rotate (s + u) xs)"
    using fits rotate_mod_length [of "s + u" xs] rotate_mod_length [of "s + u" "circ_write xs off bs"]
    by (simp add: off_def n_def)
  then have "rotate s (circ_write xs off bs)
      = rotate (n - u) (overlay 0 bs (drop u (rotate s xs) @ take u (rotate s xs)))"
    using around [of "circ_write xs off bs"] fits by (simp add: n_def rotate_add_split)
  also have "\<dots> = overlay u bs (rotate s xs)"
    using rotate_overlay [of u bs "rotate s xs"] fits by (simp add: n_def)
  finally show ?thesis by (simp add: off_def n_def)
qed

lemma circ_read_view:
  "u \<le> length xs \<Longrightarrow>
    circ_read xs ((s + u) mod length xs) n
      = take n (drop u (rotate s xs) @ take u (rotate s xs))"
  by (simp add: circ_read_def rotate_mod_length rotate_add_split)

text \<open>The two transfers of the code: up to the end of the data area, then from its start.\<close>

lemma circ_read_two:
  assumes "off < length xs" and "n \<le> length xs"
  shows "circ_read xs off n =
    (if off + n \<le> length xs then take n (drop off xs)
     else drop off xs @ take (n - (length xs - off)) xs)"
  using assms by (auto simp: circ_read_def rotate_split min_def)

lemma circ_write_two:
  assumes off: "off < length xs" and n: "length bs \<le> length xs"
  shows "circ_write xs off bs =
    (if off + length bs \<le> length xs then overlay off bs xs
     else overlay 0 (drop (length xs - off) bs) (overlay off (take (length xs - off) bs) xs))"
    (is "_ = ?w")
proof -
  have "rotate off ?w = overlay 0 bs (rotate off xs)"
  proof (cases "off + length bs \<le> length xs")
    case True
    then show ?thesis using off
      by (simp add: overlay_def rotate_drop_take min_def add.commute)
  next
    case False
    then have "length (overlay 0 (drop (length xs - off) bs)
        (overlay off (take (length xs - off) bs) xs)) = length xs"
      using off n by (simp add: min_def)
    with False show ?thesis using off n
      by (simp add: overlay_def rotate_drop_take min_def)
  qed
  then have "rotate off (circ_write xs off bs) = rotate off ?w"
    using off n by (simp add: rotate_circ_write)
  then have "rotate (length xs - off) (rotate off (circ_write xs off bs))
      = rotate (length xs - off) (rotate off ?w)" by simp
  moreover have "length ?w = length xs" using off n by (simp add: min_def)
  ultimately show ?thesis
    using off n rotate_back [of off "circ_write xs off bs"] rotate_back [of off ?w] by simp
qed

end
