(* ===== verification/Varint.thy ===== *)
theory Varint
  imports Prelude
begin

text \<open>
  \<^verbatim>\<open>src/varint.cc\<close>, \<^verbatim>\<open>src/varint.h\<close>: the variable-length encoding of record lengths.
  The class holds one 64-bit value; \<open>varint_Read\<close>, \<open>varint_ByteSize\<close> and \<open>varint_Write\<close>
  are its three operations. The size tests of the source compare the value with
  \<^verbatim>\<open>exp2\<close>, a double, so the value is rounded to 53 bits first: \<open>to_double\<close>.
\<close>

section \<open>Conversion of a 64-bit integer to a double\<close>

fun bitlen :: "nat \<Rightarrow> nat" where
  "bitlen n = (if n = 0 then 0 else Suc (bitlen (n div 2)))"

declare bitlen.simps [simp del]

text \<open>
  The double nearest to an integer, ties to the even mantissa; it is an integer again.
\<close>

definition to_double :: "nat \<Rightarrow> nat" where
  "to_double n =
     (let e = bitlen n - 53; q = n div 2 ^ e; r = n mod 2 ^ e
      in if e = 0 then n
         else if 2 ^ e < 2 * r \<or> (2 * r = 2 ^ e \<and> odd q) then (q + 1) * 2 ^ e
         else q * 2 ^ e)"

lemma bitlen_0 [simp]: "bitlen 0 = 0"
  by (simp add: bitlen.simps)

lemma bitlen_bounds: "0 < n \<Longrightarrow> 2 ^ (bitlen n - 1) \<le> n \<and> n < 2 ^ bitlen n"
proof (induction n rule: bitlen.induct)
  case (1 n)
  show ?case
  proof (cases "n = 1")
    case True
    then show ?thesis by (simp add: bitlen.simps)
  next
    case False
    with "1.prems" have pos: "0 < n div 2" by auto
    with "1.IH" "1.prems" have IH: "2 ^ (bitlen (n div 2) - 1) \<le> n div 2"
        "n div 2 < 2 ^ bitlen (n div 2)" by simp_all
    have b: "bitlen n = Suc (bitlen (n div 2))"
      using "1.prems" by (simp add: bitlen.simps [of n])
    from pos have b1: "bitlen (n div 2) = Suc (bitlen (n div 2) - 1)"
      by (simp add: bitlen.simps [of "n div 2"])
    have "(2 :: nat) ^ bitlen (n div 2) = 2 * 2 ^ (bitlen (n div 2) - 1)"
      by (subst b1) simp
    with IH show ?thesis unfolding b by simp arith
  qed
qed

lemma bitlen_le: "n < 2 ^ m \<Longrightarrow> bitlen n \<le> m"
proof (rule ccontr)
  assume n: "n < 2 ^ m" and "\<not> bitlen n \<le> m"
  then have "m \<le> bitlen n - 1" and "0 < n" by (cases "n = 0"; simp)+
  with bitlen_bounds have "2 ^ (bitlen n - 1) \<le> n" by blast
  moreover have "(2 :: nat) ^ m \<le> 2 ^ (bitlen n - 1)"
    using \<open>m \<le> bitlen n - 1\<close> by (rule power_increasing) simp
  ultimately show False using n by linarith
qed

lemma bitlen_gt: "2 ^ m \<le> n \<Longrightarrow> m < bitlen n"
proof (rule ccontr)
  assume n: "2 ^ m \<le> n" and "\<not> m < bitlen n"
  then have "(2 :: nat) ^ bitlen n \<le> 2 ^ m" by (intro power_increasing) auto
  moreover have "0 < n" using n by (metis gr0I le_zero_eq power_eq_0_iff zero_neq_numeral)
  ultimately show False using n bitlen_bounds [of n] by linarith
qed

lemma to_double_exact: "n < 2 ^ 53 \<Longrightarrow> to_double n = n"
  using bitlen_le [of n 53] by (simp add: to_double_def)

lemma to_double_le_power:
  assumes "n < 2 ^ m"
  shows "to_double n \<le> 2 ^ m"
proof (cases "bitlen n \<le> 53")
  case True
  with assms show ?thesis by (simp add: to_double_def)
next
  case False
  define e where "e = bitlen n - 53"
  have "bitlen n \<le> m" using assms by (rule bitlen_le)
  with False have e: "e \<le> m" by (simp add: e_def)
  then have split: "(2 :: nat) ^ m = 2 ^ (m - e) * 2 ^ e"
    by (simp flip: power_add)
  with assms have "n div 2 ^ e < 2 ^ (m - e)"
    by (simp add: div_less_iff_less_mult mult.commute)
  then have "(n div 2 ^ e + 1) * 2 ^ e \<le> 2 ^ m"
    using split by (simp only: split) (intro mult_le_mono1, linarith)
  moreover have "to_double n \<le> (n div 2 ^ e + 1) * 2 ^ e"
    by (simp add: to_double_def e_def Let_def)
  ultimately show ?thesis by linarith
qed

lemma to_double_ge_power:
  assumes "2 ^ m \<le> n"
  shows "2 ^ m \<le> to_double n"
proof (cases "bitlen n \<le> 53")
  case True
  with assms show ?thesis by (simp add: to_double_def)
next
  case False
  define e where "e = bitlen n - 53"
  have "0 < n" using assms by (metis gr0I le_zero_eq power_eq_0_iff zero_neq_numeral)
  have "2 ^ m \<le> n div 2 ^ e * 2 ^ e"
  proof (cases "e \<le> m")
    case True
    then have split: "(2 :: nat) ^ m = 2 ^ (m - e) * 2 ^ e"
      by (simp flip: power_add)
    with assms have "2 ^ (m - e) \<le> n div 2 ^ e"
      by (simp add: less_eq_div_iff_mult_less_eq)
    then show ?thesis using split by (simp only: split) (rule mult_le_mono1)
  next
    case False
    have "(2 :: nat) ^ e \<le> 2 ^ (bitlen n - 1)" by (rule power_increasing) (simp_all add: e_def)
    then have "2 ^ e \<le> n" using bitlen_bounds [OF \<open>0 < n\<close>] by linarith
    then have "1 \<le> n div 2 ^ e" by (simp add: less_eq_div_iff_mult_less_eq)
    then have "2 ^ e \<le> n div 2 ^ e * 2 ^ e" by simp
    moreover have "(2 :: nat) ^ m \<le> 2 ^ e" using False by (intro power_increasing) auto
    ultimately show ?thesis by linarith
  qed
  moreover have "n div 2 ^ e * 2 ^ e \<le> to_double n"
    by (simp add: to_double_def e_def Let_def)
  ultimately show ?thesis by linarith
qed

section \<open>The three operations\<close>

definition kMaxSize :: nat where
  "kMaxSize = 10"

text \<open>\<^verbatim>\<open>value_ < exp2((shift + 1) * 7)\<close>\<close>

definition below_exp2 :: "u64 \<Rightarrow> nat \<Rightarrow> bool" where
  "below_exp2 v shift \<longleftrightarrow> to_double (unat v) < 2 ^ ((shift + 1) * 7)"

function read_loop :: "byte list \<Rightarrow> nat \<Rightarrow> u64 \<Rightarrow> (nat \<times> u64) outcome" where
  "read_loop buf shift v =
     (if shift < 10 then
        if shift < length buf then
          (let b = buf ! shift;
               v' = v OR push_bit (shift * 7) (ucast (b AND 0x7f))
           in if b AND 0x80 = 0 then Ret (shift + 1, v') else read_loop buf (shift + 1) v')
        else Undef
      else Undef)"
  by pat_completeness auto
termination
  by (relation "measure (\<lambda>(buf, shift, v). 10 - shift)") auto

definition varint_Read :: "byte list \<Rightarrow> (nat \<times> u64) outcome" where
  "varint_Read buf = read_loop buf 0 0"

function byte_size_loop :: "u64 \<Rightarrow> nat \<Rightarrow> nat outcome" where
  "byte_size_loop v shift =
     (if shift < 10 then
        if below_exp2 v shift then Ret (shift + 1) else byte_size_loop v (shift + 1)
      else Undef)"
  by pat_completeness auto
termination
  by (relation "measure (\<lambda>(v, shift). 10 - shift)") auto

definition varint_ByteSize :: "u64 \<Rightarrow> nat outcome" where
  "varint_ByteSize v = byte_size_loop v 0"

function write_loop :: "u64 \<Rightarrow> nat \<Rightarrow> byte list" where
  "write_loop v shift =
     (if shift < 10 then
        (let marker = (if below_exp2 v shift then 0 else 0x80)
         in ucast ((drop_bit (shift * 7) v AND 0x7f) OR marker)
            # (if marker = 0 then [] else write_loop v (shift + 1)))
      else [])"
  by pat_completeness auto
termination
  by (relation "measure (\<lambda>(v, shift). 10 - shift)") auto

text \<open>
  The bytes that \<^verbatim>\<open>Write\<close> stores, and the buffer it leaves; a buffer that is too
  small is overrun.
\<close>

definition varint_bytes :: "u64 \<Rightarrow> byte list" where
  "varint_bytes v = write_loop v 0"

definition varint_Write :: "u64 \<Rightarrow> byte list \<Rightarrow> byte list outcome" where
  "varint_Write v buf =
     (if length (varint_bytes v) \<le> length buf then Ret (overlay 0 (varint_bytes v) buf)
      else Undef)"

declare read_loop.simps [simp del] byte_size_loop.simps [simp del] write_loop.simps [simp del]


section \<open>Lemmas\<close>

lemma below_exp2_less: "below_exp2 v s \<Longrightarrow> unat v < 2 ^ ((s + 1) * 7)"
  using to_double_ge_power [of "(s + 1) * 7" "unat v"] by (auto simp: below_exp2_def not_le [symmetric])

lemma below_exp2_last: "9 \<le> s \<Longrightarrow> below_exp2 v s"
proof -
  assume "9 \<le> s"
  have "to_double (unat v) \<le> 2 ^ 64" by (rule to_double_le_power [OF unat_u64_less])
  also have "(2 :: nat) ^ 64 < 2 ^ ((s + 1) * 7)"
    by (rule power_strict_increasing) (use \<open>9 \<le> s\<close> in simp_all)
  finally show ?thesis by (simp add: below_exp2_def)
qed

lemma below_exp2_small: "unat v < 2 ^ 53 \<Longrightarrow> below_exp2 v s \<longleftrightarrow> unat v < 2 ^ ((s + 1) * 7)"
  by (simp add: below_exp2_def to_double_exact)

lemma write_loop_last: "s < 10 \<Longrightarrow> below_exp2 v s \<Longrightarrow>
    write_loop v s = [ucast (drop_bit (s * 7) v AND 0x7f)]"
  by (simp add: write_loop.simps [of v s])

lemma write_loop_more: "s < 10 \<Longrightarrow> \<not> below_exp2 v s \<Longrightarrow>
    write_loop v s = ucast ((drop_bit (s * 7) v AND 0x7f) OR 0x80) # write_loop v (s + 1)"
  by (simp add: write_loop.simps [of v s])

lemma write_loop_length: "s \<le> 9 \<Longrightarrow> 1 \<le> length (write_loop v s) \<and> length (write_loop v s) \<le> 10 - s"
proof (induction v s rule: write_loop.induct)
  case (1 v s)
  show ?case
  proof (cases "below_exp2 v s")
    case True
    with "1.prems" show ?thesis by (simp add: write_loop_last)
  next
    case False
    with below_exp2_last [of s v] "1.prems" have "s + 1 \<le> 9" by linarith
    with "1.IH" "1.prems" False show ?thesis by (auto simp: write_loop_more)
  qed
qed

lemma byte_size_loop_eq: "s \<le> 9 \<Longrightarrow> byte_size_loop v s = Ret (s + length (write_loop v s))"
proof (induction v s rule: byte_size_loop.induct)
  case (1 v s)
  show ?case
  proof (cases "below_exp2 v s")
    case True
    with "1.prems" show ?thesis by (simp add: write_loop_last byte_size_loop.simps [of v s])
  next
    case False
    with below_exp2_last [of s v] "1.prems" have "s + 1 \<le> 9" by linarith
    with "1" False show ?thesis
      by (simp add: write_loop_more byte_size_loop.simps [of v s])
  qed
qed

subsection \<open>The bits of an encoded byte\<close>

lemma marker_masks:
  "(0x80 :: byte) = push_bit 7 1" "(0x80 :: u64) = push_bit 7 1"
  "(0x7f :: byte) = mask 7" "(0x7f :: u64) = mask 7"
  by (simp_all add: mask_eq_exp_minus_1)

lemma marked_byte:
  "ucast ((x AND 0x7f) OR (0x80 :: u64)) AND (0x80 :: byte) \<noteq> 0"
proof -
  have "bit (ucast ((x AND 0x7f) OR (0x80 :: u64)) AND (0x80 :: byte)) 7"
    unfolding marker_masks by (simp only: bit_simps) simp
  then show ?thesis by auto
qed

lemma marked_payload:
  "ucast ((x AND 0x7f) OR (0x80 :: u64)) AND (0x7f :: byte) = ucast (x AND 0x7f)"
  unfolding marker_masks by (rule bit_word_eqI) (simp only: bit_simps, auto)

lemma unmarked_byte: "ucast (x AND (0x7f :: u64)) AND (0x80 :: byte) = 0"
  unfolding marker_masks by (rule bit_word_eqI) (simp only: bit_simps, auto)

lemma unmarked_payload: "ucast (x AND (0x7f :: u64)) AND (0x7f :: byte) = ucast (x AND 0x7f)"
  unfolding marker_masks by (rule bit_word_eqI) (simp only: bit_simps, auto)

lemma take_bit_step:
  "take_bit (s * 7) (v :: u64) OR push_bit (s * 7) (ucast (ucast (drop_bit (s * 7) v AND 0x7f) :: byte))
   = take_bit ((s + 1) * 7) v"
  unfolding marker_masks by (rule bit_word_eqI) (simp only: bit_simps, auto)

lemma take_bit_below: "unat (v :: u64) < 2 ^ n \<Longrightarrow> take_bit n v = v"
  by (simp add: word_unat_eq_iff unsigned_take_bit_eq take_bit_nat_eq_self)


subsection \<open>Decoding what was encoded\<close>

lemma read_loop_last:
  "s < 10 \<Longrightarrow> s < length buf \<Longrightarrow> buf ! s AND 0x80 = 0 \<Longrightarrow>
    read_loop buf s v = Ret (s + 1, v OR push_bit (s * 7) (ucast (buf ! s AND 0x7f)))"
  by (simp add: read_loop.simps [of buf s v])

lemma read_loop_more:
  "s < 10 \<Longrightarrow> s < length buf \<Longrightarrow> buf ! s AND 0x80 \<noteq> 0 \<Longrightarrow>
    read_loop buf s v =
      read_loop buf (s + 1) (v OR push_bit (s * 7) (ucast (buf ! s AND 0x7f)))"
  by (simp add: read_loop.simps [of buf s v])

lemma read_write_loop:
  "s \<le> 9 \<Longrightarrow> length pre = s \<Longrightarrow>
    read_loop (pre @ write_loop v s @ rest) s (take_bit (s * 7) v)
      = Ret (s + length (write_loop v s), v)"
proof (induction v s arbitrary: pre rule: write_loop.induct)
  case (1 v s)
  show ?case
  proof (cases "below_exp2 v s")
    case True
    have "take_bit ((s + 1) * 7) v = v"
      by (rule take_bit_below [OF below_exp2_less [OF True]])
    with True "1.prems" show ?thesis
      by (simp only: write_loop_last)
        (simp add: read_loop_last nth_append unmarked_byte unmarked_payload take_bit_step
          del: push_bit_of_1)
  next
    case False
    with below_exp2_last [of s v] "1.prems" have s9: "s + 1 \<le> 9" by linarith
    define b :: byte where "b = ucast ((drop_bit (s * 7) v AND 0x7f) OR 0x80)"
    have w: "write_loop v s = b # write_loop v (s + 1)"
      unfolding b_def using False s9 by (intro write_loop_more) auto
    have nth: "(pre @ (b # write_loop v (s + 1)) @ rest) ! s = b"
      using "1.prems" by (simp add: nth_append)
    have "b AND 0x80 \<noteq> 0" unfolding b_def by (rule marked_byte)
    moreover have "b AND 0x7f = ucast (drop_bit (s * 7) v AND 0x7f)"
      unfolding b_def by (rule marked_payload)
    ultimately have "read_loop (pre @ write_loop v s @ rest) s (take_bit (s * 7) v)
        = read_loop ((pre @ [b]) @ write_loop v (s + 1) @ rest) (s + 1)
            (take_bit ((s + 1) * 7) v)"
      unfolding w using s9 "1.prems" by (subst read_loop_more) (simp_all only: nth take_bit_step, simp_all)
    also have "\<dots> = Ret ((s + 1) + length (write_loop v (s + 1)), v)"
      using False s9 "1.prems" by (intro "1.IH" [of "0x80"]) auto
    finally show ?thesis unfolding w by simp
  qed
qed

lemma varint_bytes_length: "1 \<le> length (varint_bytes v) \<and> length (varint_bytes v) \<le> kMaxSize"
  using write_loop_length [of 0 v] by (simp add: varint_bytes_def kMaxSize_def)

lemma varint_bytes_neq_Nil [simp]: "varint_bytes v \<noteq> []"
  using varint_bytes_length [of v] by auto

lemma varint_Read_bytes: "varint_Read (varint_bytes v @ rest) = Ret (length (varint_bytes v), v)"
  using read_write_loop [of 0 "[]" v rest]
  by (simp add: varint_Read_def varint_bytes_def take_bit_0)

lemma varint_ByteSize_eq: "varint_ByteSize v = Ret (length (varint_bytes v))"
  using byte_size_loop_eq [of 0 v] by (simp add: varint_ByteSize_def varint_bytes_def)

lemma varint_Write_kMaxSize:
  "length buf = kMaxSize \<Longrightarrow> varint_Write v buf = Ret (overlay 0 (varint_bytes v) buf)"
  using varint_bytes_length [of v] by (simp add: varint_Write_def)

subsection \<open>The number of bytes\<close>

lemma write_loop_length_small:
  "s \<le> 9 \<Longrightarrow> unat v < 2 ^ 53 \<Longrightarrow> s \<le> k \<Longrightarrow>
    s + length (write_loop v s) \<le> k + 1 \<longleftrightarrow> unat v < 2 ^ ((k + 1) * 7) \<or> k + 1 \<ge> 10"
proof (induction v s rule: write_loop.induct)
  case (1 v s)
  show ?case
  proof (cases "below_exp2 v s")
    case True
    have "(2 :: nat) ^ ((s + 1) * 7) \<le> 2 ^ ((k + 1) * 7)"
      using "1.prems" by (intro power_increasing) auto
    with below_exp2_less [OF True] have "unat v < 2 ^ ((k + 1) * 7)" by linarith
    with True "1.prems" show ?thesis by (simp add: write_loop_last)
  next
    case False
    with below_exp2_last [of s v] "1.prems" have s9: "s + 1 \<le> 9" by linarith
    show ?thesis
    proof (cases "s = k")
      case True
      have "write_loop v (s + 1) \<noteq> []" using write_loop_length [of "s + 1" v] s9 by auto
      with False True s9 "1.prems" show ?thesis
        by (simp add: write_loop_more below_exp2_small)
    next
      case sk: False
      with "1.IH" [of "0x80"] False s9 "1.prems" show ?thesis
        by (simp add: write_loop_more)
    qed
  qed
qed

lemma varint_bytes_length_small:
  assumes "unat v < 2 ^ 53"
  shows "length (varint_bytes v) = (LEAST n. 1 \<le> n \<and> unat v < 2 ^ (n * 7))"
proof (rule sym, rule Least_equality)
  have iff: "length (varint_bytes v) \<le> k + 1 \<longleftrightarrow> unat v < 2 ^ ((k + 1) * 7) \<or> k + 1 \<ge> 10" for k
    using write_loop_length_small [of 0 v k] assms by (simp add: varint_bytes_def)
  have big: "unat v < 2 ^ ((k + 1) * 7)" if "k + 1 \<ge> 10" for k
  proof -
    have "(2 :: nat) ^ 53 \<le> 2 ^ ((k + 1) * 7)" by (rule power_increasing) (use that in simp_all)
    with assms show ?thesis by linarith
  qed
  show "1 \<le> length (varint_bytes v) \<and> unat v < 2 ^ (length (varint_bytes v) * 7)"
    using iff [of "length (varint_bytes v) - 1"] big [of "length (varint_bytes v) - 1"]
      varint_bytes_length [of v] by (cases "length (varint_bytes v)") auto
  show "length (varint_bytes v) \<le> n" if "1 \<le> n \<and> unat v < 2 ^ (n * 7)" for n
    using that iff [of "n - 1"] by (cases n) auto
qed

end
