(* ===== verification/Ringfile.thy ===== *)
theory Ringfile
  imports Storage Varint
begin

text \<open>
  The class \<^verbatim>\<open>Ringfile\<close> of \<^verbatim>\<open>src/ringfile.cc\<close>, operation by operation. An object carries
  the members of the C++ class and, as three members of the model, the file behind its
  descriptor: the bytes, the file position and whether the file was opened for writing.
  Offsets and sizes are 64-bit words and wrap around as \<^verbatim>\<open>uint64_t\<close> and \<^verbatim>\<open>size_t\<close> do.
  A failed \<^verbatim>\<open>assert\<close> is \<open>Abort\<close>; an access outside a caller's buffer, outside the mapped
  header or through a null or failed mapping, and a division by zero are \<open>Undef\<close>. So is any
  operation on a file that is shorter than its header, once it is open.
  The operating system is taken to carry out what it accepted: \<^verbatim>\<open>fstat\<close> of an open file succeeds,
  \<^verbatim>\<open>read\<close> fails only at the end of the file, and \<^verbatim>\<open>write\<close> is complete unless the file was opened for
  reading.
\<close>

section \<open>State\<close>

datatype mode = kRead | kAppend

text \<open>\<^verbatim>\<open>header_\<close>: not mapped, mapped, or the value \<^verbatim>\<open>MAP_FAILED\<close>, which is not null.\<close>

datatype mapping = Unmapped | Mapped | MapFailed

record ringfile =
  contents :: "byte list"
  file_pos :: nat
  writable :: bool
  file_path :: string
  fd_open :: bool
  fd_is_owned :: bool
  rf_error :: int
  rf_size :: u64
  rf_header :: mapping
  read_offset :: u64
  streaming_write_offset :: u64
  streaming_write_bytes_remaining :: u64
  streaming_read_offset :: u64
  streaming_read_bytes_remaining :: u64

text \<open>
  The constructor leaves five members uninitialised; what they hold is a parameter.
\<close>

record uninitialised =
  u_error :: int
  u_size :: u64
  u_read_offset :: u64
  u_write_remaining :: u64
  u_read_remaining :: u64

definition Ringfile_init :: "uninitialised \<Rightarrow> ringfile" where
  "Ringfile_init u =
     \<lparr>contents = [], file_pos = 0, writable = False, file_path = [],
      fd_open = False, fd_is_owned = False, rf_error = u_error u, rf_size = u_size u,
      rf_header = Unmapped, read_offset = u_read_offset u,
      streaming_write_offset = 0, streaming_write_bytes_remaining = u_write_remaining u,
      streaming_read_offset = 0, streaming_read_bytes_remaining = u_read_remaining u\<rparr>"

definition kMagic :: u32 where
  "kMagic = 0x474E4952"

definition EBADF :: int where "EBADF = 9"
definition EEXIST :: int where "EEXIST = 17"
definition ENOENT :: int where "ENOENT = 2"
definition EINVAL :: int where "EINVAL = 22"

section \<open>Sizes\<close>

definition bytes_max :: "ringfile \<Rightarrow> u64" where
  "bytes_max r = rf_size r - 24"

abbreviation start_offset :: "ringfile \<Rightarrow> u64" where
  "start_offset r \<equiv> hdr_start (contents r)"

abbreviation end_offset :: "ringfile \<Rightarrow> u64" where
  "end_offset r \<equiv> hdr_end (contents r)"

definition bytes_used :: "ringfile \<Rightarrow> u64" where
  "bytes_used r =
     (if start_offset r \<le> end_offset r then end_offset r - start_offset r
      else bytes_max r - (start_offset r - end_offset r))"

definition bytes_available :: "ringfile \<Rightarrow> u64" where
  "bytes_available r = bytes_max r - bytes_used r"

text \<open>Every access through \<^verbatim>\<open>header_\<close> needs the mapping and 24 bytes of file behind it.\<close>

definition header_ok :: "ringfile \<Rightarrow> bool" where
  "header_ok r \<longleftrightarrow> rf_header r = Mapped \<and> 24 \<le> length (contents r)"

text \<open>
  \<^verbatim>\<open>Open\<close> and \<^verbatim>\<open>Create\<close> need less: the header lies on the first page of the file, which is
  mapped as soon as the file is not empty; behind the end of the file it reads as zeros, and
  what is stored there is lost.
\<close>

definition with_page :: "ringfile \<Rightarrow> 'a outcome \<Rightarrow> 'a outcome" where
  "with_page r k = (if rf_header r = Mapped \<and> contents r \<noteq> [] then k else Undef)"

definition first_page :: "byte list \<Rightarrow> byte list" where
  "first_page xs = xs @ replicate (24 - length xs) 0"

lemma first_page_id [simp]: "24 \<le> length xs \<Longrightarrow> first_page xs = xs"
  by (simp add: first_page_def)

definition with_header :: "ringfile \<Rightarrow> 'a outcome \<Rightarrow> 'a outcome" where
  "with_header r k = (if header_ok r then k else Undef)"

definition with_header_rw :: "ringfile \<Rightarrow> 'a outcome \<Rightarrow> 'a outcome" where
  "with_header_rw r k = (if header_ok r \<and> writable r then k else Undef)"

section \<open>Opening and closing\<close>

text \<open>
  The operating system as far as the class asks it: the files that exist, the paths that
  \<^verbatim>\<open>open\<close> refuses whatever is there (a missing directory, no permission), the sizes that
  \<^verbatim>\<open>ftruncate\<close> refuses, and whether \<^verbatim>\<open>mmap\<close> succeeds.
\<close>

record fs =
  files :: "string \<Rightarrow> byte list option"
  refused :: "string \<Rightarrow> int option"
  no_space :: "nat \<Rightarrow> int option"
  mmap_works :: bool

definition Ringfile_Create ::
  "fs \<Rightarrow> ringfile \<Rightarrow> string \<Rightarrow> u64 \<Rightarrow> (bool \<times> ringfile \<times> fs) outcome" where
  "Ringfile_Create s r path sz =
     (case refused s path of
        Some e \<Rightarrow> Ret (False, r\<lparr>fd_open := False, rf_error := e\<rparr>, s)
      | None \<Rightarrow>
          (if files s path \<noteq> None then Ret (False, r\<lparr>fd_open := False, rf_error := EEXIST\<rparr>, s)
           else
             let r = r\<lparr>fd_open := True, file_path := path, contents := [], file_pos := 0,
                       writable := True, fd_is_owned := True\<rparr>;
                 s = s\<lparr>files := (files s)(path \<mapsto> [])\<rparr>
             in case (if 2 ^ 63 \<le> unat sz then Some EINVAL else no_space s (unat sz)) of
                  Some e \<Rightarrow> Ret (False, r\<lparr>rf_error := e\<rparr>, s)
                | None \<Rightarrow>
                    let r = r\<lparr>contents := replicate (unat sz) 0, rf_size := sz,
                              rf_header := (if mmap_works s then Mapped else MapFailed)\<rparr>
                    in with_page r
                         (let r = r\<lparr>contents := take (unat sz)
                                (set_end 0 (set_start 0 (set_flags 0 (set_magic kMagic
                                  (first_page (contents r))))))\<rparr>
                          in Ret (True, r, s\<lparr>files := (files s)(path \<mapsto> contents r)\<rparr>))))"

definition Ringfile_Close :: "fs \<Rightarrow> ringfile \<Rightarrow> bool \<times> ringfile \<times> fs" where
  "Ringfile_Close s r =
     (let s = (if fd_open r then s\<lparr>files := (files s)(file_path r \<mapsto> contents r)\<rparr> else s);
          r = r\<lparr>rf_header := Unmapped\<rparr>;
          r = (if fd_open r \<and> fd_is_owned r then r\<lparr>fd_open := False\<rparr> else r)
      in (True, r, s))"

definition Ringfile_Open ::
  "fs \<Rightarrow> ringfile \<Rightarrow> string \<Rightarrow> mode \<Rightarrow> (bool \<times> ringfile \<times> fs) outcome" where
  "Ringfile_Open s r path mode =
     (case (case refused s path of Some e \<Rightarrow> Inl e
            | None \<Rightarrow> (case files s path of None \<Rightarrow> Inl ENOENT | Some c \<Rightarrow> Inr c)) of
        Inl e \<Rightarrow> Ret (False, r\<lparr>fd_open := False, rf_error := e\<rparr>, s)
      | Inr c \<Rightarrow>
          let r = r\<lparr>fd_open := True, file_path := path, contents := c, file_pos := 0,
                    writable := (mode = kAppend), fd_is_owned := True,
                    rf_size := of_nat (length c),
                    rf_header := (if mmap_works s then Mapped else MapFailed)\<rparr>
          in with_page r
               (if hdr_magic (first_page (contents r)) \<noteq> kMagic then
                  (case Ringfile_Close s r of (_, r, s) \<Rightarrow> Ret (False, r\<lparr>rf_error := EINVAL\<rparr>, s))
                else Ret (True, r\<lparr>read_offset := hdr_start (first_page (contents r))\<rparr>, s)))"

section \<open>Transfers\<close>

definition SeekToOffset :: "ringfile \<Rightarrow> u64 \<Rightarrow> (bool \<times> ringfile) outcome" where
  "SeekToOffset r off =
     oassert (off < bytes_max r)
       (let off = off mod bytes_max r
        in if 2 ^ 63 \<le> unat (24 + off) then Ret (False, r\<lparr>rf_error := EINVAL\<rparr>)
           else Ret (True, r\<lparr>file_pos := unat (24 + off)\<rparr>))"

text \<open>
  \<^verbatim>\<open>read(fd_, ptr + at, n)\<close>: the number of bytes transferred, the buffer and the object.
  \<^verbatim>\<open>write(fd_, ptr + at, n)\<close> reads \<open>n\<close> bytes of the caller's buffer.
\<close>

definition fd_read :: "ringfile \<Rightarrow> byte list \<Rightarrow> nat \<Rightarrow> u64 \<Rightarrow> (u64 \<times> byte list \<times> ringfile) outcome" where
  "fd_read r buf at n =
     (let bs = file_read (file_pos r) (unat n) (contents r)
      in if at + length bs \<le> length buf
         then Ret (of_nat (length bs), overlay at bs buf, r\<lparr>file_pos := file_pos r + length bs\<rparr>)
         else Undef)"

definition fd_write :: "ringfile \<Rightarrow> byte list \<Rightarrow> nat \<Rightarrow> u64 \<Rightarrow> (u64 \<times> ringfile) outcome" where
  "fd_write r buf at n =
     (if \<not> writable r then Ret (- 1, r)
      else if at + unat n \<le> length buf
      then Ret (n, r\<lparr>contents := file_write (file_pos r) (take (unat n) (drop at buf)) (contents r),
                     file_pos := file_pos r + unat n\<rparr>)
      else Undef)"

text \<open>How a transfer of \<open>size\<close> bytes at \<open>off\<close> is split into the end and the start.\<close>

definition wrap_split :: "u64 \<Rightarrow> u64 \<Rightarrow> u64 \<Rightarrow> u64 \<times> u64" where
  "wrap_split m off sz =
     (let end_off = (off + sz) mod m
      in if off < end_off then (sz, 0) else (m - off, sz - (m - off)))"

text \<open>
  One contiguous transfer: seek, then move \<open>n\<close> bytes to or from \<^verbatim>\<open>ptr + at\<close>; a transfer
  of another number of bytes than asked for is a failure.
\<close>

definition read_segment ::
  "ringfile \<Rightarrow> u64 \<Rightarrow> byte list \<Rightarrow> nat \<Rightarrow> u64 \<Rightarrow> (bool \<times> byte list \<times> ringfile) outcome" where
  "read_segment r off buf at n =
     obind (SeekToOffset r off)
       (\<lambda>(ok, r). if \<not> ok then Ret (False, buf, r)
          else obind (fd_read r buf at n) (\<lambda>(k, buf, r). Ret (k = n, buf, r)))"

definition write_segment ::
  "ringfile \<Rightarrow> u64 \<Rightarrow> byte list \<Rightarrow> nat \<Rightarrow> u64 \<Rightarrow> (bool \<times> ringfile) outcome" where
  "write_segment r off buf at n =
     obind (SeekToOffset r off)
       (\<lambda>(ok, r). if \<not> ok then Ret (False, r)
          else obind (fd_write r buf at n) (\<lambda>(k, r). Ret (k = n, r)))"

definition WrappingRead ::
  "ringfile \<Rightarrow> u64 \<Rightarrow> byte list \<Rightarrow> u64 \<Rightarrow> (bool \<times> byte list \<times> ringfile) outcome" where
  "WrappingRead r off buf sz =
     (if bytes_max r = 0 then Undef
      else
        let off = off mod bytes_max r;
            (end_bytes, start_bytes) = wrap_split (bytes_max r) off sz
        in obind
             (if end_bytes = 0 then Ret (True, buf, r) else read_segment r off buf 0 end_bytes)
             (\<lambda>(ok, buf, r).
                if \<not> ok then Ret (False, buf, r)
                else if start_bytes = 0 then Ret (True, buf, r)
                else read_segment r 0 buf (unat end_bytes) start_bytes))"

definition WrappingWrite ::
  "ringfile \<Rightarrow> u64 \<Rightarrow> byte list \<Rightarrow> u64 \<Rightarrow> (bool \<times> ringfile) outcome" where
  "WrappingWrite r off buf sz =
     (if bytes_max r = 0 then Undef
      else
        let off = off mod bytes_max r;
            (end_bytes, start_bytes) = wrap_split (bytes_max r) off sz
        in obind
             (if end_bytes = 0 then Ret (True, r) else write_segment r off buf 0 end_bytes)
             (\<lambda>(ok, r).
                if \<not> ok then Ret (False, r)
                else if start_bytes = 0 then Ret (True, r)
                else write_segment r 0 buf (unat end_bytes) start_bytes))"

section \<open>Records\<close>

text \<open>
  The first lines of every reading operation: fill \<^verbatim>\<open>header_buffer\<close> at an offset and decode
  the length it starts with. The buffer is uninitialised; it is filled before it is used.
\<close>

definition read_length ::
  "ringfile \<Rightarrow> u64 \<Rightarrow> (bool \<times> nat \<times> u64 \<times> ringfile) outcome" where
  "read_length r off =
     obind (WrappingRead r off (replicate kMaxSize 0) (of_nat kMaxSize))
       (\<lambda>(ok, buf, r). if \<not> ok then Ret (False, 0, 0, r)
          else obind (varint_Read buf) (\<lambda>(n, v). Ret (True, n, v, r)))"

definition PopRecord :: "ringfile \<Rightarrow> (bool \<times> ringfile) outcome" where
  "PopRecord r =
     with_header r
       (if start_offset r = end_offset r then Ret (False, r)
        else obind (read_length r (start_offset r))
          (\<lambda>(ok, header_size, v, r). if \<not> ok then Ret (False, r)
             else with_header_rw r
               (let s = start_offset r + (of_nat header_size + v)
                in if bytes_max r = 0 then Undef
                   else Ret (True, r\<lparr>contents := set_start (s mod bytes_max r) (contents r)\<rparr>))))"

definition EndOfFile :: "ringfile \<Rightarrow> bool outcome" where
  "EndOfFile r = with_header r (Ret (read_offset r = end_offset r))"

definition NextRecordSize :: "ringfile \<Rightarrow> (u64 option \<times> ringfile) outcome" where
  "NextRecordSize r =
     (if rf_header r = Unmapped \<or> \<not> fd_open r then Ret (None, r)
      else with_header r
        (if read_offset r = end_offset r then Ret (None, r)
         else obind (read_length r (read_offset r))
           (\<lambda>(ok, _, v, r). Ret (if ok then Some v else None, r))))"

definition Ringfile_Read :: "ringfile \<Rightarrow> byte list \<Rightarrow> u64 \<Rightarrow> (bool \<times> byte list \<times> ringfile) outcome" where
  "Ringfile_Read r buf buffer_size =
     (if rf_header r = Unmapped \<or> \<not> fd_open r then Ret (False, buf, r)
      else obind (read_length r (read_offset r))
        (\<lambda>(ok, header_size, v, r).
           if \<not> ok then Ret (False, buf, r)
           else if buffer_size < v then Ret (False, buf, r)
           else obind (WrappingRead r (read_offset r + of_nat header_size) buf v)
             (\<lambda>(ok, buf, r).
                if \<not> ok then Ret (False, buf, r)
                else Ret (True, buf,
                  r\<lparr>read_offset := (read_offset r + (of_nat header_size + v)) mod bytes_max r\<rparr>))))"

text \<open>
  \<^verbatim>\<open>while (bytes_available() < need) { ... PopRecord() ... }\<close>. The assertion at the end of the
  loop body is what bounds the loop: the space available grows in every round.
\<close>

function make_room :: "ringfile \<Rightarrow> u64 \<Rightarrow> (bool \<times> ringfile) outcome" where
  "make_room r need =
     (if bytes_available r < need then
        (case PopRecord r of
           Ret (ok, r') \<Rightarrow>
             if \<not> ok then Ret (False, r')
             else if bytes_available r < bytes_available r' then make_room r' need
             else Abort
         | Abort \<Rightarrow> Abort
         | Undef \<Rightarrow> Undef)
      else Ret (True, r))"
  by pat_completeness auto
termination
proof (relation "measure (\<lambda>(r, need). 2 ^ 64 - unat (bytes_available r))", goal_cases)
  case 1
  show ?case by simp
next
  case (2 r need p ok r')
  then have "unat (bytes_available r) < unat (bytes_available r')"
    by (simp add: less_u64_iff)
  moreover have "unat (bytes_available r') < 2 ^ 64" by (rule unat_u64_less)
  ultimately show ?case by simp
qed

declare make_room.simps [simp del]

text \<open>
  Common to \<^verbatim>\<open>Write\<close> and \<^verbatim>\<open>StreamingWriteStart\<close>: encode the length, refuse a record that
  can never fit, make room, and store the encoded length at the end offset.
\<close>

definition begin_record ::
  "ringfile \<Rightarrow> u64 \<Rightarrow> (bool \<times> nat \<times> ringfile) outcome" where
  "begin_record r sz =
     obind (varint_ByteSize sz) (\<lambda>header_size.
     obind (varint_Write sz (replicate kMaxSize 0)) (\<lambda>header_buffer.
       if bytes_max r < of_nat header_size + sz + 1 then Ret (False, header_size, r)
       else with_header r
         (obind (make_room r (of_nat header_size + sz)) (\<lambda>(ok, r).
            if \<not> ok then Ret (False, header_size, r)
            else obind (WrappingWrite r (end_offset r) header_buffer (of_nat header_size))
              (\<lambda>(ok, r). Ret (ok, header_size, r))))))"

definition Ringfile_Write :: "ringfile \<Rightarrow> byte list \<Rightarrow> u64 \<Rightarrow> (bool \<times> ringfile) outcome" where
  "Ringfile_Write r buf sz =
     obind (begin_record r sz) (\<lambda>(ok, header_size, r).
       if \<not> ok then Ret (False, r)
       else obind (WrappingWrite r (end_offset r + of_nat header_size) buf sz)
         (\<lambda>(ok, r). if \<not> ok then Ret (False, r)
            else with_header_rw r
              (Ret (True, r\<lparr>contents :=
                 set_end ((end_offset r + (of_nat header_size + sz)) mod bytes_max r)
                   (contents r)\<rparr>))))"

section \<open>Streaming\<close>

definition StreamingWriteStart :: "ringfile \<Rightarrow> u64 \<Rightarrow> (bool \<times> ringfile) outcome" where
  "StreamingWriteStart r sz =
     oassert (streaming_write_offset r = 0)
       (obind (begin_record r sz) (\<lambda>(ok, header_size, r).
          if \<not> ok then Ret (False, r)
          else Ret (True, r\<lparr>streaming_write_offset := end_offset r + of_nat header_size,
                            streaming_write_bytes_remaining := sz\<rparr>)))"

definition StreamingWrite :: "ringfile \<Rightarrow> byte list \<Rightarrow> u64 \<Rightarrow> (bool \<times> ringfile) outcome" where
  "StreamingWrite r buf sz =
     oassert (sz \<le> streaming_write_bytes_remaining r)
       (obind (WrappingWrite r (streaming_write_offset r) buf sz) (\<lambda>(ok, r).
          if \<not> ok then Ret (False, r)
          else Ret (True, r\<lparr>streaming_write_offset := streaming_write_offset r + sz,
                            streaming_write_bytes_remaining :=
                              streaming_write_bytes_remaining r - sz\<rparr>)))"

definition StreamingWriteFinish :: "ringfile \<Rightarrow> (bool \<times> ringfile) outcome" where
  "StreamingWriteFinish r =
     oassert (streaming_write_bytes_remaining r = 0)
       (with_header_rw r
          (if bytes_max r = 0 then Undef
           else Ret (True, r\<lparr>contents :=
                    set_end (streaming_write_offset r mod bytes_max r) (contents r),
                  streaming_write_offset := 0\<rparr>)))"

text \<open>\<open>None\<close> is the return value \<^verbatim>\<open>-1\<close>.\<close>

definition StreamingReadStart :: "ringfile \<Rightarrow> (u64 option \<times> ringfile) outcome" where
  "StreamingReadStart r =
     oassert (rf_header r \<noteq> Unmapped) (oassert (fd_open r)
       (oassert (streaming_read_offset r = 0)
          (with_header r
             (if read_offset r = end_offset r then Ret (None, r)
              else obind (read_length r (read_offset r)) (\<lambda>(ok, header_size, v, r).
                if \<not> ok then Ret (None, r)
                else Ret (Some v,
                  r\<lparr>streaming_read_offset := read_offset r + of_nat header_size,
                    streaming_read_bytes_remaining := v,
                    read_offset :=
                      (read_offset r + (of_nat header_size + v)) mod bytes_max r\<rparr>))))))"

definition StreamingRead ::
  "ringfile \<Rightarrow> byte list \<Rightarrow> u64 \<Rightarrow> (u64 option \<times> byte list \<times> ringfile) outcome" where
  "StreamingRead r buf sz =
     (let sz = (if streaming_read_bytes_remaining r < sz
                  then streaming_read_bytes_remaining r else sz)
      in if sz = 0 then Ret (Some 0, buf, r)
         else obind (WrappingRead r (streaming_read_offset r) buf sz) (\<lambda>(ok, buf, r).
           if \<not> ok then Ret (None, buf, r)
           else Ret (Some sz, buf,
             r\<lparr>streaming_read_offset := streaming_read_offset r + sz,
               streaming_read_bytes_remaining := streaming_read_bytes_remaining r - sz\<rparr>)))"

definition StreamingReadFinish :: "ringfile \<Rightarrow> bool \<times> ringfile" where
  "StreamingReadFinish r = (True, r\<lparr>streaming_read_offset := 0\<rparr>)"

end
