(* ===== verification/Ring_Transfer.thy ===== *)
theory Ring_Transfer
  imports Ringfile
begin

text \<open>
  \<^verbatim>\<open>WrappingRead\<close> and \<^verbatim>\<open>WrappingWrite\<close> against the circular buffer they implement. The
  component's invariant is \<open>well_formed\<close>; on a well-formed file a transfer of between one
  byte and the whole data area reads (writes) exactly the circular slice at its offset,
  and touches nothing else.
\<close>

section \<open>Well-formed ring files\<close>

abbreviation ring_data :: "ringfile \<Rightarrow> byte list" where
  "ring_data r \<equiv> data_area (contents r)"

definition capacity :: "ringfile \<Rightarrow> nat" where
  "capacity r = length (ring_data r)"

text \<open>
  The data area holds at least a whole length buffer (\<open>kMaxSize\<close> bytes): the length of a
  record is always read in a transfer of that many bytes.
\<close>

definition well_formed :: "ringfile \<Rightarrow> bool" where
  "well_formed r \<longleftrightarrow>
     rf_header r = Mapped \<and> fd_open r \<and> unat (rf_size r) = length (contents r) \<and>
     hdr_magic (contents r) = kMagic \<and>
     24 + kMaxSize \<le> length (contents r) \<and> length (contents r) < 2 ^ 63 \<and>
     unat (start_offset r) < capacity r \<and> unat (end_offset r) < capacity r"

text \<open>\<open>r'\<close> is the object \<open>r\<close> with another file and file position.\<close>

definition same_object :: "ringfile \<Rightarrow> ringfile \<Rightarrow> bool" where
  "same_object r r' \<longleftrightarrow> (\<exists>c p. r' = r\<lparr>contents := c, file_pos := p\<rparr>)"

lemma same_object_update [simp]:
  "same_object r (r\<lparr>contents := c, file_pos := p\<rparr>)" "same_object r (r\<lparr>file_pos := p\<rparr>)"
  "same_object r (r\<lparr>contents := c\<rparr>)" "same_object r r"
  unfolding same_object_def by (cases r, auto)+

lemma same_object_trans: "same_object r s \<Longrightarrow> same_object s t \<Longrightarrow> same_object r t"
  unfolding same_object_def by clarsimp (metis (no_types))

lemma same_objectD:
  "same_object r r' \<Longrightarrow>
    writable r' = writable r \<and> rf_size r' = rf_size r \<and> rf_header r' = rf_header r \<and>
    fd_open r' = fd_open r \<and> read_offset r' = read_offset r \<and> bytes_max r' = bytes_max r \<and>
    streaming_write_offset r' = streaming_write_offset r \<and>
    streaming_write_bytes_remaining r' = streaming_write_bytes_remaining r \<and>
    streaming_read_offset r' = streaming_read_offset r \<and>
    streaming_read_bytes_remaining r' = streaming_read_bytes_remaining r"
  unfolding same_object_def bytes_max_def by auto

lemma well_formed_file_pos [simp]: "well_formed (r\<lparr>file_pos := p\<rparr>) = well_formed r"
  by (simp add: well_formed_def capacity_def)

lemma well_formed_header_ok: "well_formed r \<Longrightarrow> header_ok r"
  by (simp add: well_formed_def header_ok_def)

lemma capacity_eq: "well_formed r \<Longrightarrow> capacity r = length (contents r) - 24"
  by (simp add: capacity_def data_area_def sizeof_Header_def)

lemma length_contents: "well_formed r \<Longrightarrow> length (contents r) = 24 + capacity r"
  by (simp add: well_formed_def capacity_def data_area_def sizeof_Header_def)

lemma capacity_bounds: "well_formed r \<Longrightarrow> 10 \<le> capacity r \<and> 24 + capacity r < 2 ^ 63"
  by (auto simp: well_formed_def capacity_def data_area_def sizeof_Header_def kMaxSize_def)

lemma unat_bytes_max: "well_formed r \<Longrightarrow> unat (bytes_max r) = capacity r"
  using unat_sub_nowrap [of 24 "rf_size r"]
  by (simp add: well_formed_def bytes_max_def capacity_def data_area_def sizeof_Header_def le_u64_iff)

lemma bytes_max_neq_0: "well_formed r \<Longrightarrow> bytes_max r \<noteq> 0"
  using unat_bytes_max [of r] capacity_bounds [of r] by auto

lemma data_rest [simp]: "24 \<le> length xs \<Longrightarrow> take 24 xs @ data_area xs = xs"
  by (simp add: data_area_def sizeof_Header_def)

text \<open>Replacing the data area keeps the header.\<close>

lemma replace_data [header]:
  "24 \<le> length xs \<Longrightarrow> hdr_start (take 24 xs @ d) = hdr_start xs"
  "24 \<le> length xs \<Longrightarrow> hdr_end (take 24 xs @ d) = hdr_end xs"
  "24 \<le> length xs \<Longrightarrow> hdr_magic (take 24 xs @ d) = hdr_magic xs"
  "24 \<le> length xs \<Longrightarrow> hdr_flags (take 24 xs @ d) = hdr_flags xs"
  "24 \<le> length xs \<Longrightarrow> data_area (take 24 xs @ d) = d"
  by (simp_all add: hdr_start_def hdr_end_def hdr_magic_def hdr_flags_def data_area_def
      sizeof_Header_def drop_take min_def)

section \<open>Splitting a transfer\<close>

lemma wrap_split_eq:
  fixes m off n :: u64
  assumes "unat off < unat m" and "0 < unat n" and "unat n \<le> unat m" and "unat m < 2 ^ 63"
  shows "wrap_split m off n =
    (if unat off + unat n < unat m then (n, 0) else (m - off, n - (m - off)))"
proof -
  have "unat (off + n) = unat off + unat n"
    using assms by (intro unat_add_nowrap) simp
  then have "unat ((off + n) mod m) = (unat off + unat n) mod unat m"
    by (simp add: unat_mod_distrib)
  moreover have "\<not> unat off < unat off + unat n - unat m" using assms by linarith
  ultimately show ?thesis
    using assms by (simp add: wrap_split_def less_u64_iff mod_add_if)
qed

lemma unat_rest:
  fixes m off n :: u64
  assumes "unat off < unat m" and "unat n \<le> unat m" and "unat m \<le> unat off + unat n"
  shows "unat (m - off) = unat m - unat off"
    and "unat (n - (m - off)) = unat off + unat n - unat m"
proof -
  show e: "unat (m - off) = unat m - unat off"
    using assms by (intro unat_sub_nowrap) (simp add: le_u64_iff)
  show "unat (n - (m - off)) = unat off + unat n - unat m"
    using assms e by (subst unat_sub_nowrap) (auto simp: le_u64_iff)
qed

lemma SeekToOffset_ok:
  assumes "well_formed r" and "unat off < capacity r"
  shows "SeekToOffset r off = Ret (True, r\<lparr>file_pos := 24 + unat off\<rparr>)"
proof -
  note b = capacity_bounds [OF assms(1)] and m = unat_bytes_max [OF assms(1)]
  have o: "off < bytes_max r" using assms(2) m by (simp add: less_u64_iff)
  then have mod: "off mod bytes_max r = off"
    using assms(2) m by (simp add: word_unat_eq_iff unat_mod_distrib)
  have "unat (24 + off) = 24 + unat off"
    using assms(2) b by (subst unat_add_nowrap) auto
  with o mod b assms(2) show ?thesis by (simp add: SeekToOffset_def)
qed

lemma file_read_data:
  "24 \<le> length xs \<Longrightarrow> file_read (24 + off) n xs = take n (drop off (data_area xs))"
  by (simp add: file_read_def data_area_def sizeof_Header_def add.commute)

lemma file_write_data:
  assumes "24 \<le> length xs" and "off + length bs \<le> length (data_area xs)"
  shows "file_write (24 + off) bs xs = take 24 xs @ overlay off bs (data_area xs)"
proof -
  have "24 + off \<le> length xs" using assms by (simp add: data_area_def sizeof_Header_def)
  then have "file_write (24 + off) bs xs = overlay (24 + off) bs xs"
    by (rule file_write_inside)
  also have "\<dots> = take 24 xs @ data_area (overlay (24 + off) bs xs)"
    using \<open>24 + off \<le> length xs\<close>
    by (simp add: overlay_def data_area_def sizeof_Header_def take_add min_def)
  finally show ?thesis using assms by (simp add: header)
qed

lemma overlay_overlay:
  "length a + length b \<le> length xs \<Longrightarrow>
    overlay (length a) b (overlay 0 a xs) = overlay 0 (a @ b) xs"
  by (simp add: overlay_def add.commute)

lemma overlay_from_0 [simp]: "overlay 0 bs xs = bs @ drop (length bs) xs"
  by (simp add: overlay_def)

lemma of_nat_unat_u64 [simp]: "(of_nat (unat n) :: u64) = n"
  by simp

section \<open>One contiguous transfer\<close>

lemma read_segment_ok:
  assumes wf: "well_formed r" and off: "unat off + unat n \<le> capacity r" "unat off < capacity r"
    and buf: "at + unat n \<le> length buf"
  shows "read_segment r off buf at n =
    Ret (True, overlay at (take (unat n) (drop (unat off) (ring_data r))) buf,
         r\<lparr>file_pos := 24 + unat off + unat n\<rparr>)"
proof -
  have "24 \<le> length (contents r)" using length_contents [OF wf] by simp
  moreover have "length (ring_data r) = capacity r" by (simp add: capacity_def)
  ultimately show ?thesis
    using off buf
    by (simp add: read_segment_def SeekToOffset_ok [OF wf off(2)] fd_read_def Let_def file_read_data
        min_absorb2 del: overlay_from_0)
qed

lemma write_segment_ok:
  assumes wf: "well_formed r" and wr: "writable r"
    and off: "unat off + unat n \<le> capacity r" "unat off < capacity r"
    and buf: "at + unat n \<le> length buf"
  shows "write_segment r off buf at n =
    Ret (True, r\<lparr>contents := take 24 (contents r) @
                   overlay (unat off) (take (unat n) (drop at buf)) (ring_data r),
                 file_pos := 24 + unat off + unat n\<rparr>)"
proof -
  have len: "24 \<le> length (contents r)" using length_contents [OF wf] by simp
  have "length (take (unat n) (drop at buf)) = unat n" using buf by simp
  then have "unat off + length (take (unat n) (drop at buf)) \<le> length (ring_data r)"
    using off by (simp only: capacity_def)
  from file_write_data [OF len this] show ?thesis
    using wr buf
    by (simp add: write_segment_def SeekToOffset_ok [OF wf off(2)] fd_write_def del: overlay_from_0)
qed

lemma well_formed_replace_data:
  assumes "well_formed r" and "length d = capacity r"
  shows "well_formed (r\<lparr>contents := take 24 (contents r) @ d, file_pos := p\<rparr>)"
    and "capacity (r\<lparr>contents := take 24 (contents r) @ d, file_pos := p\<rparr>) = capacity r"
proof -
  have len: "24 \<le> length (contents r)" using length_contents [OF assms(1)] by simp
  then show c: "capacity (r\<lparr>contents := take 24 (contents r) @ d, file_pos := p\<rparr>) = capacity r"
    using assms(2) by (simp add: capacity_def header)
  show "well_formed (r\<lparr>contents := take 24 (contents r) @ d, file_pos := p\<rparr>)"
    using assms c len length_contents [OF assms(1)]
    by (simp add: well_formed_def header)
qed

section \<open>The wrapping transfers\<close>

lemma WrappingRead_ok:
  assumes wf: "well_formed r" and n: "0 < unat n" "unat n \<le> capacity r"
    and buf: "unat n \<le> length buf"
  shows "\<exists>p. WrappingRead r off buf n =
    Ret (True, overlay 0 (circ_read (ring_data r) (unat off mod capacity r) (unat n)) buf,
         r\<lparr>file_pos := p\<rparr>)"
proof -
  define m where "m = capacity r"
  define o' where "o' = off mod bytes_max r"
  define d where "d = ring_data r"
  note bm = unat_bytes_max [OF wf, folded m_def]
  have lm: "length d = m" by (simp add: m_def d_def capacity_def)
  have o: "unat o' = unat off mod m" by (simp add: o'_def unat_mod_distrib bm)
  moreover have "0 < m" using n m_def by simp
  ultimately have o_less: "unat o' < m" by simp
  have split: "wrap_split (bytes_max r) o' n =
      (if unat o' + unat n < m then (n, 0) else (bytes_max r - o', n - (bytes_max r - o')))"
    using wrap_split_eq [of o' "bytes_max r" n] o_less n capacity_bounds [OF wf] by (simp add: bm m_def)
  note seg = read_segment_ok [OF wf, folded m_def d_def]
  show ?thesis
  proof (cases "unat o' + unat n < m")
    case True
    then show ?thesis
      using split n buf o o_less lm seg [of o' n 0 buf] bytes_max_neq_0 [OF wf]
      by (auto simp: WrappingRead_def circ_read_two m_def simp flip: o'_def d_def simp del: overlay_from_0)
  next
    case False
    have e: "unat (bytes_max r - o') = m - unat o'"
      and s: "unat (n - (bytes_max r - o')) = unat o' + unat n - m"
      using unat_rest [of o' "bytes_max r" n] False o_less n by (simp_all add: bm m_def)
    have e0: "bytes_max r - o' \<noteq> 0" using e o_less by auto
    have circ: "circ_read d (unat o') (unat n) = drop (unat o') d @ take (unat o' + unat n - m) d"
      using o_less n lm False by (auto simp: circ_read_two m_def add.commute)
    define buf1 where "buf1 = overlay 0 (drop (unat o') d) buf"
    have buf1: "length buf1 = length buf"
      using False buf lm o_less unfolding buf1_def by (intro length_overlay) simp
    have first: "read_segment r o' buf 0 (bytes_max r - o') = Ret (True, buf1, r\<lparr>file_pos := 24 + m\<rparr>)"
      using seg [of o' "bytes_max r - o'" 0 buf] e o_less False buf lm
      by (simp add: buf1_def del: overlay_from_0)
    have second: "overlay (m - unat o') (take (unat o' + unat n - m) d) buf1
        = overlay 0 (circ_read d (unat o') (unat n)) buf"
      using overlay_overlay [of "drop (unat o') d" "take (unat o' + unat n - m) d" buf]
        False buf lm o_less n
      by (simp add: circ buf1_def m_def del: overlay_from_0)
    have seg2: "read_segment (r\<lparr>file_pos := 24 + m\<rparr>) 0 buf1 (m - unat o') (n - (bytes_max r - o'))
        = Ret (True, overlay 0 (circ_read d (unat o') (unat n)) buf,
               r\<lparr>file_pos := 24 + (unat o' + unat n - m)\<rparr>)"
      using read_segment_ok [of "r\<lparr>file_pos := 24 + m\<rparr>" 0 "n - (bytes_max r - o')" "m - unat o'" buf1]
        wf s buf buf1 o_less n False second \<open>0 < m\<close> lm
      by (simp add: m_def d_def capacity_def le_diff_conv del: overlay_from_0)
    have zero: "buf1 = overlay 0 (circ_read d (unat o') (unat n)) buf"
      if "n - (bytes_max r - o') = 0"
    proof -
      have "unat o' + unat n - m = 0" using that s by (metis unsigned_0)
      then show ?thesis by (simp add: circ buf1_def)
    qed
    have "WrappingRead r off buf n =
        Ret (True, overlay 0 (circ_read d (unat o') (unat n)) buf,
          r\<lparr>file_pos := 24 + (if n - (bytes_max r - o') = 0 then m else unat o' + unat n - m)\<rparr>)"
      using split False e e0 first seg2 bytes_max_neq_0 [OF wf] zero
      by (cases "n - (bytes_max r - o') = 0")
        (simp_all add: WrappingRead_def flip: o'_def del: overlay_from_0)
    then show ?thesis using o by (auto simp: m_def d_def)
  qed
qed

lemma WrappingWrite_ok:
  assumes wf: "well_formed r" and wr: "writable r" and n: "0 < unat n" "unat n \<le> capacity r"
    and buf: "unat n \<le> length buf"
  shows "\<exists>p. WrappingWrite r off buf n =
    Ret (True, r\<lparr>contents := take 24 (contents r) @
        circ_write (ring_data r) (unat off mod capacity r) (take (unat n) buf), file_pos := p\<rparr>)"
proof -
  define m where "m = capacity r"
  define o' where "o' = off mod bytes_max r"
  define d where "d = ring_data r"
  define bs where "bs = take (unat n) buf"
  note bm = unat_bytes_max [OF wf, folded m_def]
  have lm: "length d = m" by (simp add: m_def d_def capacity_def)
  have lb: "length bs = unat n" using buf by (simp add: bs_def)
  have o: "unat o' = unat off mod m" by (simp add: o'_def unat_mod_distrib bm)
  moreover have "0 < m" using n m_def by simp
  ultimately have o_less: "unat o' < m" by simp
  have len: "24 \<le> length (contents r)" using length_contents [OF wf] by simp
  have split: "wrap_split (bytes_max r) o' n =
      (if unat o' + unat n < m then (n, 0) else (bytes_max r - o', n - (bytes_max r - o')))"
    using wrap_split_eq [of o' "bytes_max r" n] o_less n capacity_bounds [OF wf] by (simp add: bm m_def)
  show ?thesis
  proof (cases "unat o' + unat n < m")
    case True
    then show ?thesis
      using split n buf o o_less lm lb write_segment_ok [OF wf wr, of o' n 0 buf] bytes_max_neq_0 [OF wf]
      by (auto simp: WrappingWrite_def circ_write_two m_def d_def bs_def
          simp flip: o'_def simp del: overlay_from_0)
  next
    case False
    have e: "unat (bytes_max r - o') = m - unat o'"
      and s: "unat (n - (bytes_max r - o')) = unat o' + unat n - m"
      using unat_rest [of o' "bytes_max r" n] False o_less n by (simp_all add: bm m_def)
    have e0: "bytes_max r - o' \<noteq> 0" using e o_less by auto
    define d1 where "d1 = overlay (unat o') (take (m - unat o') bs) d"
    define r1 where "r1 = r\<lparr>contents := take 24 (contents r) @ d1, file_pos := 24 + m\<rparr>"
    have d1: "length d1 = m"
      using False lb o_less lm n unfolding d1_def by (subst length_overlay) (auto simp: m_def)
    have r1: "well_formed r1" "capacity r1 = m" "writable r1" "ring_data r1 = d1"
      using well_formed_replace_data [OF wf, of d1 "24 + m"] d1 wr len
      by (simp_all add: r1_def m_def header)
    have first: "write_segment r o' buf 0 (bytes_max r - o') = Ret (True, r1)"
      using write_segment_ok [OF wf wr, of o' "bytes_max r - o'" 0 buf] e o_less False buf n
      by (simp add: r1_def d1_def bs_def d_def m_def min_def del: overlay_from_0)
    have rest: "take (unat o' + unat n - m) (drop (m - unat o') buf) = drop (m - unat o') bs"
      using False o_less by (simp add: bs_def drop_take add.commute)
    have second: "write_segment r1 0 buf (m - unat o') (n - (bytes_max r - o'))
        = Ret (True, r1\<lparr>contents := take 24 (contents r1) @ overlay 0 (drop (m - unat o') bs) d1,
                        file_pos := 24 + (unat o' + unat n - m)\<rparr>)"
      using write_segment_ok [OF r1(1,3), of 0 "n - (bytes_max r - o')" "m - unat o'" buf]
        r1 s buf o_less n False rest
      by (simp add: m_def del: overlay_from_0)
    have circ: "circ_write d (unat o') bs = overlay 0 (drop (m - unat o') bs) d1"
      if "m \<le> unat o' + unat n"
      using that o_less n lm lb circ_write_two [of "unat o'" d bs]
      by (cases "unat o' + unat n = m") (simp_all add: d1_def m_def)
    have take24: "take 24 (contents r1) = take 24 (contents r)"
      using len by (simp add: r1_def)
    show ?thesis
      using split False e e0 first second s o circ take24 bytes_max_neq_0 [OF wf] lb d1 o_less
      by (cases "n - (bytes_max r - o') = 0")
        (auto simp: WrappingWrite_def r1_def m_def bs_def d_def simp flip: o'_def)
  qed
qed

end
