(* ===== verification/Ring_Log.thy ===== *)
theory Ring_Log
  imports Ring_Transfer
begin

text \<open>
  The abstract view of a ring file: a bounded log of records, oldest first. \<open>holds r recs\<close>
  relates a well-formed file to the records between its start and end offsets; the lemmas
  say what each operation of the class does to that list.
\<close>

section \<open>Encoded records\<close>

definition encode_record :: "byte list \<Rightarrow> byte list" where
  "encode_record x = varint_bytes (of_nat (length x)) @ x"

definition encode_records :: "byte list list \<Rightarrow> byte list" where
  "encode_records recs = concat (map encode_record recs)"

text \<open>The bytes a record takes in the file, and a list of records.\<close>

definition record_cost :: "byte list \<Rightarrow> nat" where
  "record_cost x = length (encode_record x)"

definition log_cost :: "byte list list \<Rightarrow> nat" where
  "log_cost recs = length (encode_records recs)"

lemma encode_records_simps [simp]:
  "encode_records [] = []"
  "encode_records (x # xs) = encode_record x @ encode_records xs"
  "encode_records (xs @ ys) = encode_records xs @ encode_records ys"
  by (simp_all add: encode_records_def)

lemma log_cost_simps [simp]:
  "log_cost [] = 0"
  "log_cost (x # xs) = record_cost x + log_cost xs"
  "log_cost (xs @ ys) = log_cost xs + log_cost ys"
  by (simp_all add: log_cost_def record_cost_def)

lemma record_cost_eq: "record_cost x = length (varint_bytes (of_nat (length x))) + length x"
  by (simp add: record_cost_def encode_record_def)

lemma record_cost_pos: "0 < record_cost x"
  by (simp add: record_cost_eq)

section \<open>The abstract bounded log\<close>

text \<open>
  Appending drops the oldest records, one after the other, until the new one fits next to
  the rest.
\<close>

fun evict :: "nat \<Rightarrow> nat \<Rightarrow> byte list list \<Rightarrow> byte list list" where
  "evict cap need [] = []"
| "evict cap need (x # xs) =
     (if need + log_cost (x # xs) \<le> cap then x # xs else evict cap need xs)"

definition log_append :: "nat \<Rightarrow> byte list list \<Rightarrow> byte list \<Rightarrow> byte list list" where
  "log_append cap recs x = evict cap (record_cost x) recs @ [x]"

text \<open>
  What the code does. The room it makes may be filled to the last byte, and then the end
  offset meets the start offset, which is how an empty file looks: the new record is lost
  with all the others.
\<close>

definition exact_fill :: "nat \<Rightarrow> byte list list \<Rightarrow> byte list \<Rightarrow> bool" where
  "exact_fill cap recs x \<longleftrightarrow>
     log_cost (evict cap (record_cost x) recs) + record_cost x = cap"

definition ring_append :: "nat \<Rightarrow> byte list list \<Rightarrow> byte list \<Rightarrow> byte list list" where
  "ring_append cap recs x = (if exact_fill cap recs x then [] else log_append cap recs x)"

lemma evict_suffix: "\<exists>old. recs = old @ evict cap need recs"
proof (induction recs)
  case Nil
  show ?case by simp
next
  case (Cons x xs)
  then obtain old where "xs = old @ evict cap need xs" by blast
  then have "x # xs = (x # old) @ evict cap need xs" by simp
  then have "\<exists>old. x # xs = old @ evict cap need xs" by blast
  then show ?case by (cases "need + log_cost (x # xs) \<le> cap") auto
qed

lemma evict_fits: "need \<le> cap \<Longrightarrow> need + log_cost (evict cap need recs) \<le> cap"
  by (induction recs) auto

lemma evict_keeps: "need + log_cost recs \<le> cap \<Longrightarrow> evict cap need recs = recs"
  by (cases recs) auto

text \<open>No more is dropped than must be.\<close>

lemma evict_least:
  "need + log_cost ys \<le> cap \<Longrightarrow> recs = old @ ys \<Longrightarrow> \<exists>zs. evict cap need recs = zs @ ys"
proof (induction recs arbitrary: old)
  case Nil
  then show ?case by simp
next
  case (Cons x xs)
  show ?case
  proof (cases "need + log_cost (x # xs) \<le> cap")
    case True
    then have "evict cap need (x # xs) = x # xs" by simp
    then show ?thesis using Cons.prems(2) by metis
  next
    case False
    with Cons.prems have "old \<noteq> []" by auto
    with Cons.prems(2) have "xs = tl old @ ys" by (cases old) auto
    with Cons.IH Cons.prems(1) False show ?thesis by auto
  qed
qed

text \<open>
  What a sequence of appends should leave: the longest run of the newest records that fits.
  A log that was filled to the last byte on the way counts as empty from there on, so the
  records that matter are those \<open>since_full\<close>; if the newest records never filled the
  capacity exactly these are all.
\<close>

definition longest_suffix :: "nat \<Rightarrow> byte list list \<Rightarrow> byte list list \<Rightarrow> bool" where
  "longest_suffix cap recs kept \<longleftrightarrow>
     (\<exists>old. recs = old @ kept) \<and> log_cost kept \<le> cap \<and>
     (\<forall>older newer. recs = older @ newer \<longrightarrow> log_cost newer \<le> cap \<longrightarrow> length newer \<le> length kept)"

definition newest :: "nat \<Rightarrow> byte list list \<Rightarrow> byte list list" where
  "newest cap recs = evict cap 0 recs"

fun since_full :: "nat \<Rightarrow> byte list list \<Rightarrow> byte list list \<Rightarrow> byte list list" where
  "since_full cap acc [] = acc"
| "since_full cap acc (x # xs) =
     since_full cap (if log_cost (newest cap (acc @ [x])) = cap then [] else acc @ [x]) xs"

definition never_full :: "nat \<Rightarrow> byte list list \<Rightarrow> byte list list \<Rightarrow> bool" where
  "never_full cap recs xs \<longleftrightarrow>
     (\<forall>n < length xs. log_cost (newest cap (recs @ take (Suc n) xs)) \<noteq> cap)"

lemma longest_suffix_unique:
  assumes "longest_suffix cap recs kept" and "longest_suffix cap recs kept'"
  shows "kept = kept'"
proof -
  obtain old old' where recs: "recs = old @ kept" "recs = old' @ kept'"
    using assms unfolding longest_suffix_def by blast
  then have "length kept = length kept'"
    using assms unfolding longest_suffix_def by (metis le_antisym)
  with recs show ?thesis by simp
qed

lemma newest_longest: "longest_suffix cap recs (newest cap recs)"
proof -
  have "length newer \<le> length (newest cap recs)"
    if "recs = older @ newer" "log_cost newer \<le> cap" for older newer
    using evict_least [of 0 newer cap recs older] that by (auto simp: newest_def)
  then show ?thesis
    using evict_suffix [of recs cap 0] evict_fits [of 0 cap recs]
    by (auto simp: longest_suffix_def newest_def)
qed

lemma evict_newest: "evict cap n (newest cap xs) = evict cap n xs"
  unfolding newest_def by (induction xs) auto

lemma newest_snoc:
  "record_cost x \<le> cap \<Longrightarrow> newest cap (xs @ [x]) = evict cap (record_cost x) xs @ [x]"
  by (induction xs) (auto simp: newest_def ac_simps)

lemma newest_keeps: "log_cost xs \<le> cap \<Longrightarrow> newest cap xs = xs"
  using evict_keeps [of 0 xs cap] by (simp add: newest_def)

lemma ring_append_newest:
  "record_cost x \<le> cap \<Longrightarrow> ring_append cap (newest cap xs) x =
     newest cap (if log_cost (newest cap (xs @ [x])) = cap then [] else xs @ [x])"
  by (simp add: ring_append_def exact_fill_def log_append_def evict_newest newest_snoc newest_keeps)

lemma foldl_ring_append_newest:
  "\<forall>x \<in> set xs. record_cost x \<le> cap \<Longrightarrow>
     foldl (ring_append cap) (newest cap acc) xs = newest cap (since_full cap acc xs)"
  by (induction xs arbitrary: acc) (simp_all add: ring_append_newest)

lemma never_full_Cons:
  "never_full cap recs (x # xs) \<longleftrightarrow>
     log_cost (newest cap (recs @ [x])) \<noteq> cap \<and> never_full cap (recs @ [x]) xs"
  by (auto simp: never_full_def less_Suc_eq_0_disj All_less_Suc2)

lemma since_full_never: "never_full cap recs xs \<Longrightarrow> since_full cap recs xs = recs @ xs"
  by (induction xs arbitrary: recs) (simp_all add: never_full_Cons)

lemma foldl_ring_append_latest:
  assumes "log_cost recs \<le> cap" and "\<forall>x \<in> set xs. record_cost x \<le> cap"
  shows "longest_suffix cap (since_full cap recs xs) (foldl (ring_append cap) recs xs)"
    and "never_full cap recs xs \<longrightarrow> longest_suffix cap (recs @ xs) (foldl (ring_append cap) recs xs)"
proof -
  show "longest_suffix cap (since_full cap recs xs) (foldl (ring_append cap) recs xs)"
    using foldl_ring_append_newest [OF assms(2), of recs] newest_keeps [OF assms(1)] newest_longest
    by metis
  then show "never_full cap recs xs \<longrightarrow> longest_suffix cap (recs @ xs) (foldl (ring_append cap) recs xs)"
    by (auto simp: since_full_never)
qed

section \<open>Which records a file holds\<close>

definition ring_view :: "ringfile \<Rightarrow> byte list" where
  "ring_view r = rotate (unat (start_offset r)) (ring_data r)"

definition holds :: "ringfile \<Rightarrow> byte list list \<Rightarrow> bool" where
  "holds r recs \<longleftrightarrow>
     well_formed r \<and> log_cost recs < capacity r \<and>
     unat (end_offset r) = (unat (start_offset r) + log_cost recs) mod capacity r \<and>
     take (log_cost recs) (ring_view r) = encode_records recs"

lemma holds_wf: "holds r recs \<Longrightarrow> well_formed r"
  by (simp add: holds_def)

lemma length_ring_view [simp]: "length (ring_view r) = capacity r"
  by (simp add: ring_view_def capacity_def)

lemma holds_file_pos [simp]: "holds (r\<lparr>file_pos := p\<rparr>) recs = holds r recs"
  by (simp add: holds_def ring_view_def capacity_def)

lemma start_less: "holds r recs \<Longrightarrow> unat (start_offset r) < capacity r"
  by (simp add: holds_def well_formed_def)

lemma bytes_used_eq:
  assumes "holds r recs"
  shows "unat (bytes_used r) = log_cost recs"
proof -
  let ?s = "unat (start_offset r)" and ?e = "unat (end_offset r)"
  have wf: "well_formed r" using assms by (rule holds_wf)
  have b: "?s < capacity r" "log_cost recs < capacity r"
      "?e = (?s + log_cost recs) mod capacity r"
    using assms by (auto simp: holds_def well_formed_def)
  then have e: "?e = (if ?s + log_cost recs < capacity r then ?s + log_cost recs
                      else ?s + log_cost recs - capacity r)"
    by (simp add: mod_add_if)
  show ?thesis
  proof (cases "?s + log_cost recs < capacity r")
    case True
    with e show ?thesis by (simp add: bytes_used_def le_u64_iff unat_sub_nowrap)
  next
    case False
    with e b have "\<not> ?s \<le> ?e" "unat (start_offset r - end_offset r) = capacity r - log_cost recs"
      by (auto simp: le_u64_iff unat_sub_nowrap)
    then show ?thesis using unat_bytes_max [OF wf] b
      by (simp add: bytes_used_def le_u64_iff unat_sub_nowrap)
  qed
qed

lemma bytes_available_eq:
  assumes "holds r recs"
  shows "unat (bytes_available r) = capacity r - log_cost recs"
  using bytes_used_eq [OF assms] unat_bytes_max [OF holds_wf [OF assms]] assms
  by (simp add: bytes_available_def unat_sub_nowrap le_u64_iff holds_def)

lemma same_offsets:
  assumes "holds r recs"
  shows "start_offset r = end_offset r \<longleftrightarrow> recs = []"
proof -
  have b: "unat (start_offset r) < capacity r" "log_cost recs < capacity r"
      "unat (end_offset r) = (unat (start_offset r) + log_cost recs) mod capacity r"
    using assms by (auto simp: holds_def well_formed_def)
  have "start_offset r = end_offset r \<longleftrightarrow> log_cost recs = 0"
    using b by (auto simp: eq_u64_iff mod_add_if)
  also have "\<dots> \<longleftrightarrow> recs = []"
    using record_cost_pos by (cases recs) (auto simp: gr0_conv_Suc)
  finally show ?thesis .
qed

lemma length_record_less:
  assumes "holds r recs" and "x \<in> set recs"
  shows "length x < 2 ^ 63"
proof -
  obtain a b where "recs = a @ x # b" using assms(2) by (meson split_list)
  then have "length x \<le> log_cost recs" by (simp add: record_cost_eq)
  then show ?thesis using assms(1) capacity_bounds [OF holds_wf [OF assms(1)]]
    by (simp add: holds_def)
qed

text \<open>Decoding a length at \<open>u\<close> bytes after the start.\<close>

lemma read_length_ok:
  assumes wf: "well_formed r" and u: "u \<le> capacity r"
    and off: "unat off mod capacity r = (unat (start_offset r) + u) mod capacity r"
    and view: "drop u (ring_view r) = varint_bytes v @ rest"
  shows "\<exists>p. read_length r off = Ret (True, length (varint_bytes v), v, r\<lparr>file_pos := p\<rparr>)"
proof -
  define buf where "buf = circ_read (ring_data r) (unat off mod capacity r) kMaxSize"
  have k: "unat (of_nat kMaxSize :: u64) = kMaxSize" "0 < kMaxSize"
    by (simp_all add: kMaxSize_def)
  have cap: "kMaxSize \<le> capacity r" using capacity_bounds [OF wf] by (simp add: kMaxSize_def)
  obtain p where p: "WrappingRead r off (replicate kMaxSize 0) (of_nat kMaxSize)
      = Ret (True, overlay 0 buf (replicate kMaxSize 0), r\<lparr>file_pos := p\<rparr>)"
    using WrappingRead_ok [OF wf, of "of_nat kMaxSize" "replicate kMaxSize 0" off] k cap
    by (auto simp: buf_def simp del: overlay_from_0)
  have lb: "length buf = kMaxSize"
    using cap by (simp add: buf_def circ_read_def capacity_def)
  then have ov: "overlay 0 buf (replicate kMaxSize 0) = buf" by simp
  have "buf = take kMaxSize (drop u (ring_view r) @ take u (ring_view r))"
    using circ_read_view [of u "ring_data r" "unat (start_offset r)" kMaxSize] u off
    by (simp add: buf_def ring_view_def capacity_def)
  also have "\<dots> = varint_bytes v @ take (kMaxSize - length (varint_bytes v)) (rest @ take u (ring_view r))"
    using view varint_bytes_length [of v] by simp
  finally show ?thesis
    unfolding read_length_def p ov by (simp add: varint_Read_bytes) blast
qed

lemma drop_view:
  assumes "holds r (a @ x # b)"
  shows "drop (log_cost a) (ring_view r)
    = varint_bytes (of_nat (length x)) @ x @ encode_records b @ drop (log_cost (a @ x # b)) (ring_view r)"
proof -
  have "ring_view r = encode_records (a @ x # b) @ drop (log_cost (a @ x # b)) (ring_view r)"
    using assms by (metis append_take_drop_id holds_def)
  then have "drop (log_cost a) (ring_view r)
      = drop (log_cost a) (encode_records (a @ x # b) @ drop (log_cost (a @ x # b)) (ring_view r))"
    by simp
  then show ?thesis
    by (simp add: encode_record_def log_cost_def)
qed

section \<open>Dropping the oldest record\<close>

text \<open>Advancing the start offset over the first record leaves the rest.\<close>

lemma holds_advance:
  assumes h: "holds r (x # xs)"
    and s': "unat s' = (unat (start_offset r) + record_cost x) mod capacity r"
  shows "holds (r\<lparr>contents := set_start s' (contents r), file_pos := p\<rparr>) xs"
proof -
  let ?r = "r\<lparr>contents := set_start s' (contents r), file_pos := p\<rparr>"
  have wf: "well_formed r" using h by (rule holds_wf)
  have len: "24 \<le> length (contents r)" using length_contents [OF wf] by simp
  have cap: "capacity ?r = capacity r" using len by (simp add: capacity_def header)
  have pos: "0 < capacity r" using capacity_bounds [OF wf] by simp
  have cost: "record_cost x + log_cost xs < capacity r" using h by (simp add: holds_def)
  have view: "ring_view ?r = drop (record_cost x) (ring_view r) @ take (record_cost x) (ring_view r)"
    using len s' cost rotate_add_split [of "record_cost x" "ring_data r" "unat (start_offset r)"]
      rotate_mod_length [of "unat (start_offset r) + record_cost x" "ring_data r"]
    by (simp add: ring_view_def header capacity_def)
  have "well_formed ?r"
    using wf cap len s' pos by (simp add: well_formed_def header)
  moreover have "unat (end_offset ?r) = (unat (start_offset ?r) + log_cost xs) mod capacity ?r"
    using h len cap s' by (simp add: header holds_def mod_simps add.assoc)
  moreover have "take (log_cost xs) (ring_view ?r) = encode_records xs"
  proof -
    have "take (log_cost xs) (ring_view ?r) = take (log_cost xs) (drop (record_cost x) (ring_view r))"
      using view cost by simp
    also have "\<dots> = drop (record_cost x) (take (record_cost x + log_cost xs) (ring_view r))"
      by (simp add: take_drop add.commute)
    also have "\<dots> = encode_records xs"
      using h by (simp add: holds_def record_cost_def)
    finally show ?thesis .
  qed
  ultimately show ?thesis using cost cap by (simp add: holds_def)
qed


lemma capacity_same_object:
  "same_object r r' \<Longrightarrow> well_formed r \<Longrightarrow> well_formed r' \<Longrightarrow> capacity r' = capacity r"
  using unat_bytes_max [of r] unat_bytes_max [of r'] same_objectD [of r r'] by metis

lemma unat_add_mod:
  fixes a b m :: u64
  assumes "unat a + unat b < 2 ^ 64"
  shows "unat ((a + b) mod m) = (unat a + unat b) mod unat m"
  using assms by (simp add: unat_mod_distrib unat_add_nowrap)

text \<open>The length of a record as the code adds it up: encoded length and bytes.\<close>

lemma unat_cost:
  assumes "length x < 2 ^ 63"
  shows "unat (of_nat (length (varint_bytes (of_nat (length x)))) + of_nat (length x) :: u64)
    = record_cost x"
proof -
  have "length (varint_bytes (of_nat (length x))) \<le> 10"
    using varint_bytes_length [of "of_nat (length x)"] by (simp add: kMaxSize_def)
  with assms show ?thesis
    by (subst unat_add_nowrap) (simp_all add: unat_of_nat_u64 record_cost_eq)
qed

lemma PopRecord_empty: "holds r [] \<Longrightarrow> PopRecord r = Ret (False, r)"
  using same_offsets [of r "[]"]
  by (simp add: PopRecord_def with_header_def well_formed_header_ok holds_wf)

lemma PopRecord_ok:
  assumes h: "holds r (x # xs)" and w: "writable r"
  shows "\<exists>r'. PopRecord r = Ret (True, r') \<and> holds r' xs \<and> same_object r r'"
proof -
  have wf: "well_formed r" using h by (rule holds_wf)
  have lx: "length x < 2 ^ 63" using length_record_less [OF h, of x] by simp
  define s' where "s' = (start_offset r + (of_nat (length (varint_bytes (of_nat (length x))))
      + of_nat (length x))) mod bytes_max r"
  have s: "unat s' = (unat (start_offset r) + record_cost x) mod capacity r"
  proof -
    have "record_cost x < capacity r" using h by (simp add: holds_def)
    then have "unat (start_offset r) + record_cost x < 2 ^ 64"
      using start_less [OF h] capacity_bounds [OF wf] by simp
    then show ?thesis
      unfolding s'_def using unat_cost [OF lx] unat_bytes_max [OF wf]
      by (subst unat_add_mod) simp_all
  qed
  obtain p where p: "read_length r (start_offset r)
      = Ret (True, length (varint_bytes (of_nat (length x))), of_nat (length x), r\<lparr>file_pos := p\<rparr>)"
    using read_length_ok [OF wf, of 0 "start_offset r" "of_nat (length x)"] drop_view [of r "[]" x xs] h
    by auto
  have "PopRecord r = Ret (True, r\<lparr>contents := set_start s' (contents r), file_pos := p\<rparr>)"
    using same_offsets [OF h] w well_formed_header_ok [OF wf] bytes_max_neq_0 [OF wf]
    by (simp add: PopRecord_def with_header_def with_header_rw_def p header_ok_def bytes_max_def s'_def)
  then show ?thesis
    using holds_advance [OF h s] same_object_update by blast
qed

lemma make_room_ok:
  "holds r recs \<Longrightarrow> writable r \<Longrightarrow> unat need \<le> capacity r \<Longrightarrow>
    \<exists>r'. make_room r need = Ret (True, r') \<and>
         holds r' (evict (capacity r) (unat need) recs) \<and> same_object r r'"
proof (induction recs arbitrary: r)
  case Nil
  then show ?case
    using bytes_available_eq [of r "[]"]
    by (simp add: make_room.simps [of r need] less_u64_iff)
next
  case (Cons x xs)
  note h = Cons.prems(1)
  have lc: "log_cost (x # xs) < capacity r" using h by (simp add: holds_def)
  note av = bytes_available_eq [OF h]
  show ?case
  proof (cases "unat need + log_cost (x # xs) \<le> capacity r")
    case True
    then have "\<not> bytes_available r < need" using av lc by (simp add: less_u64_iff)
    with True h show ?thesis by (simp add: make_room.simps [of r need])
  next
    case False
    then have less: "bytes_available r < need" using av lc by (simp add: less_u64_iff)
    obtain r1 where r1: "PopRecord r = Ret (True, r1)" "holds r1 xs" "same_object r r1"
      using PopRecord_ok [OF h Cons.prems(2)] by blast
    have cap: "capacity r1 = capacity r"
      using capacity_same_object r1 h holds_wf by blast
    have "bytes_available r < bytes_available r1"
      using av bytes_available_eq [OF r1(2)] cap lc record_cost_pos [of x]
      by (simp add: less_u64_iff)
    then have "make_room r need = make_room r1 need"
      using less r1(1) by (simp add: make_room.simps [of r need])
    moreover obtain r' where "make_room r1 need = Ret (True, r')"
        "holds r' (evict (capacity r1) (unat need) xs)" "same_object r1 r'"
      using Cons.IH [OF r1(2)] same_objectD [OF r1(3)] Cons.prems(2,3) cap by auto
    ultimately show ?thesis using False cap same_object_trans [OF r1(3)] by auto
  qed
qed

section \<open>Writing past the last record\<close>

lemma holds_write_free:
  fixes p :: nat
  assumes h: "holds r recs" and u: "log_cost recs \<le> u" "u + length bs \<le> capacity r"
  defines "r' \<equiv> r\<lparr>contents := take 24 (contents r) @
      circ_write (ring_data r) ((unat (start_offset r) + u) mod capacity r) bs, file_pos := p\<rparr>"
  shows "holds r' recs" and "ring_view r' = overlay u bs (ring_view r)"
    and "start_offset r' = start_offset r" and "end_offset r' = end_offset r"
    and "capacity r' = capacity r"
proof -
  have wf: "well_formed r" using h by (rule holds_wf)
  have len: "24 \<le> length (contents r)" using length_contents [OF wf] by simp
  have ld: "length (circ_write (ring_data r) ((unat (start_offset r) + u) mod capacity r) bs)
      = capacity r" using u by (simp add: capacity_def)
  note wf' = well_formed_replace_data [OF wf ld, of p, folded r'_def]
  show offs: "start_offset r' = start_offset r" "end_offset r' = end_offset r"
    using len by (simp_all add: r'_def header)
  show "capacity r' = capacity r" by (rule wf'(2))
  show view: "ring_view r' = overlay u bs (ring_view r)"
    using circ_write_view [of "unat (start_offset r)" "ring_data r" u bs] start_less [OF h] u len
    by (simp add: ring_view_def r'_def header capacity_def)
  have "take (log_cost recs) (ring_view r') = take (log_cost recs) (ring_view r)"
    unfolding view using u by (intro take_overlay_before) simp_all
  then show "holds r' recs"
    using h wf' offs by (simp add: holds_def)
qed

text \<open>Moving the end offset over a record that lies behind the last one adds it to the log.\<close>

lemma holds_commit:
  assumes h: "holds r recs" and fits: "log_cost recs + record_cost x < capacity r"
    and x: "take (record_cost x) (drop (log_cost recs) (ring_view r)) = encode_record x"
    and e: "unat e = (unat (end_offset r) + record_cost x) mod capacity r"
  shows "holds (r\<lparr>contents := set_end e (contents r)\<rparr>) (recs @ [x])"
proof -
  let ?r = "r\<lparr>contents := set_end e (contents r)\<rparr>"
  have wf: "well_formed r" using h by (rule holds_wf)
  have len: "24 \<le> length (contents r)" using length_contents [OF wf] by simp
  have cap: "capacity ?r = capacity r" and view: "ring_view ?r = ring_view r"
    using len by (simp_all add: capacity_def ring_view_def header)
  have "unat e < capacity r" using e capacity_bounds [OF wf] by simp
  then have "well_formed ?r" using wf cap len by (simp add: well_formed_def header)
  moreover have "unat (end_offset ?r)
      = (unat (start_offset ?r) + log_cost (recs @ [x])) mod capacity ?r"
    using e h len cap by (simp add: header holds_def mod_simps add.assoc)
  moreover have "take (log_cost (recs @ [x])) (ring_view ?r) = encode_records (recs @ [x])"
    using x h view by (simp add: take_add holds_def)
  ultimately show ?thesis using fits cap by (simp add: holds_def)
qed

lemma holds_commit_full:
  assumes h: "holds r recs" and full: "log_cost recs + record_cost x = capacity r"
    and e: "unat e = (unat (end_offset r) + record_cost x) mod capacity r"
  shows "holds (r\<lparr>contents := set_end e (contents r)\<rparr>) []"
proof -
  let ?r = "r\<lparr>contents := set_end e (contents r)\<rparr>"
  have wf: "well_formed r" using h by (rule holds_wf)
  have len: "24 \<le> length (contents r)" using length_contents [OF wf] by simp
  have cap: "capacity ?r = capacity r" using len by (simp add: capacity_def header)
  have "unat e = (unat (start_offset r) + (log_cost recs + record_cost x)) mod capacity r"
    using e h by (simp add: holds_def mod_simps add.assoc)
  then have es: "unat e = unat (start_offset r)"
    using full start_less [OF h] by simp
  then have "well_formed ?r" using wf cap len by (simp add: well_formed_def header)
  with es len cap start_less [OF h] show ?thesis
    by (simp add: holds_def header)
qed

end
