(* ===== verification/Ring_Records.thy ===== *)
theory Ring_Records
  imports Ring_Log
begin

text \<open>
  Writing and reading whole records, and the streaming operations, against the abstract
  log of \<^verbatim>\<open>Ring_Log\<close>.
\<close>

section \<open>Starting a record\<close>

text \<open>A record fits the file when it leaves at least one byte of the data area free.\<close>

definition fits :: "ringfile \<Rightarrow> byte list \<Rightarrow> bool" where
  "fits r x \<longleftrightarrow> record_cost x + 1 \<le> capacity r"

lemma fits_length: "well_formed r \<Longrightarrow> fits r x \<Longrightarrow> length x < 2 ^ 63"
  using capacity_bounds [of r] by (simp add: fits_def record_cost_eq)

lemma refuse_iff:
  assumes wf: "well_formed r" and lx: "length x < 2 ^ 63"
  shows "bytes_max r < of_nat (length (varint_bytes (of_nat (length x)))) + of_nat (length x) + 1
    \<longleftrightarrow> \<not> fits r x"
proof -
  have k: "length (varint_bytes (of_nat (length x))) \<le> 10"
    using varint_bytes_length [of "of_nat (length x)"] by (simp add: kMaxSize_def)
  have "unat (of_nat (length (varint_bytes (of_nat (length x)))) + of_nat (length x) + 1 :: u64)
      = record_cost x + 1"
    using unat_cost [OF lx] k lx
    by (subst unat_add_nowrap) (simp_all add: record_cost_eq)
  then show ?thesis
    using unat_bytes_max [OF wf] by (simp add: less_u64_iff fits_def not_le)
qed

lemma begin_record_refused:
  assumes "well_formed r" and "length x < 2 ^ 63" and "\<not> fits r x"
  shows "\<exists>k. begin_record r (of_nat (length x)) = Ret (False, k, r)"
  using refuse_iff [OF assms(1,2)] assms(3)
  by (simp add: begin_record_def varint_ByteSize_eq varint_Write_kMaxSize)

text \<open>
  The space is made, and the encoded length stands right behind the last record that is
  left; the end offset has not moved yet.
\<close>

lemma begin_record_ok:
  assumes h: "holds r recs" and w: "writable r" and f: "fits r x"
  defines "kept \<equiv> evict (capacity r) (record_cost x) recs"
    and "hs \<equiv> length (varint_bytes (of_nat (length x)))"
  shows "\<exists>r'. begin_record r (of_nat (length x)) = Ret (True, hs, r') \<and> holds r' kept \<and>
    same_object r r' \<and> capacity r' = capacity r \<and>
    take hs (drop (log_cost kept) (ring_view r')) = varint_bytes (of_nat (length x))"
proof -
  have wf: "well_formed r" using h by (rule holds_wf)
  have lx: "length x < 2 ^ 63" using fits_length [OF wf f] .
  define v where "v = (of_nat (length x) :: u64)"
  have cost: "unat (of_nat hs + v) = record_cost x"
    using unat_cost [OF lx] by (simp add: hs_def v_def)
  have hs: "1 \<le> hs" "hs \<le> 10" "hs = length (varint_bytes v)"
    using varint_bytes_length [of v] by (simp_all add: hs_def v_def kMaxSize_def)
  have uhs: "unat (of_nat hs :: u64) = hs" using hs by (simp add: unat_of_nat_u64)
  obtain r1 where r1: "make_room r (of_nat hs + v) = Ret (True, r1)" "holds r1 kept"
      "same_object r r1"
    using make_room_ok [OF h w, of "of_nat hs + v"] f
    by (auto simp: cost kept_def fits_def)
  have cap1: "capacity r1 = capacity r" using capacity_same_object r1 wf holds_wf by blast
  have w1: "writable r1" using w same_objectD [OF r1(3)] by simp
  have room: "record_cost x + log_cost kept \<le> capacity r"
    unfolding kept_def using f by (intro evict_fits) (simp add: fits_def)
  then have room': "log_cost kept + hs \<le> capacity r1"
    using cap1 by (simp add: record_cost_eq hs_def)
  define buf where "buf = overlay 0 (varint_bytes v) (replicate kMaxSize (0 :: byte))"
  have buf: "take hs buf = varint_bytes v" "hs \<le> length buf"
    using hs by (simp_all add: buf_def kMaxSize_def)
  have e1: "unat (end_offset r1) mod capacity r1
      = (unat (start_offset r1) + log_cost kept) mod capacity r1"
    using r1(2) by (simp add: holds_def)
  obtain p where p: "WrappingWrite r1 (end_offset r1) buf (of_nat hs) =
      Ret (True, r1\<lparr>contents := take 24 (contents r1) @ circ_write (ring_data r1)
        ((unat (start_offset r1) + log_cost kept) mod capacity r1) (varint_bytes v), file_pos := p\<rparr>)"
    using WrappingWrite_ok [OF holds_wf [OF r1(2)] w1, of "of_nat hs" buf "end_offset r1"]
      uhs hs buf room' e1 by auto
  define r2 where "r2 = r1\<lparr>contents := take 24 (contents r1) @ circ_write (ring_data r1)
        ((unat (start_offset r1) + log_cost kept) mod capacity r1) (varint_bytes v), file_pos := p\<rparr>"
  have len: "log_cost kept + length (varint_bytes v) \<le> capacity r1" using room' hs by simp
  note free = holds_write_free [OF r1(2) le_refl len, of p, folded r2_def]
  have "begin_record r v = Ret (True, hs, r2)"
    using refuse_iff [OF wf lx] f r1(1) p hs well_formed_header_ok [OF wf]
    by (simp add: begin_record_def varint_ByteSize_eq varint_Write_kMaxSize with_header_def
        v_def hs_def buf_def r2_def del: overlay_from_0)
  moreover have "take hs (drop (log_cost kept) (ring_view r2)) = varint_bytes v"
    using free(2) len hs by (simp add: slice_overlay_same)
  moreover have "same_object r r2"
    using r1(3) same_object_trans same_object_update unfolding r2_def by blast
  ultimately show ?thesis using free(1,5) cap1 by (auto simp: v_def)
qed

section \<open>Writing a record\<close>

lemma Ringfile_Write_refused:
  assumes "well_formed r" and "length x < 2 ^ 63" and "\<not> fits r x"
  shows "Ringfile_Write r x (of_nat (length x)) = Ret (False, r)"
  using begin_record_refused [OF assms] by (auto simp: Ringfile_Write_def)

lemma Ringfile_Write_ok:
  assumes h: "holds r recs" and w: "writable r" and f: "fits r x" and ne: "x \<noteq> []"
  shows "\<exists>r'. Ringfile_Write r x (of_nat (length x)) = Ret (True, r') \<and>
    holds r' (ring_append (capacity r) recs x) \<and> same_object r r'"
proof -
  define kept where "kept = evict (capacity r) (record_cost x) recs"
  define hs where "hs = length (varint_bytes (of_nat (length x)))"
  have wf: "well_formed r" using h by (rule holds_wf)
  have lx: "length x < 2 ^ 63" using fits_length [OF wf f] .
  have ulx: "unat (of_nat (length x) :: u64) = length x" using lx by (simp add: unat_of_nat_u64)
  have hs: "hs \<le> 10" using varint_bytes_length [of "of_nat (length x)"]
    by (simp add: hs_def kMaxSize_def)
  have cost: "record_cost x = hs + length x" by (simp add: hs_def record_cost_eq)
  obtain r1 where r1: "begin_record r (of_nat (length x)) = Ret (True, hs, r1)" "holds r1 kept"
      "same_object r r1" "capacity r1 = capacity r"
      "take hs (drop (log_cost kept) (ring_view r1)) = varint_bytes (of_nat (length x))"
    using begin_record_ok [OF h w f] unfolding kept_def hs_def by blast
  have wf1: "well_formed r1" using r1(2) by (rule holds_wf)
  have w1: "writable r1" using w same_objectD [OF r1(3)] by simp
  have room: "record_cost x + log_cost kept \<le> capacity r"
    unfolding kept_def using f by (intro evict_fits) (simp add: fits_def)
  have e1: "unat (end_offset r1) = (unat (start_offset r1) + log_cost kept) mod capacity r1"
    using r1(2) by (simp add: holds_def)
  have elt: "unat (end_offset r1) < capacity r1" using wf1 by (simp add: well_formed_def)
  have b63: "24 + capacity r1 < 2 ^ 63" using capacity_bounds [OF wf1] by simp
  have "unat (end_offset r1 + of_nat hs) = unat (end_offset r1) + hs"
    using elt b63 hs by (subst unat_add_nowrap) (simp_all add: unat_of_nat_u64)
  then have at: "unat (end_offset r1 + of_nat hs) mod capacity r1
      = (unat (start_offset r1) + (log_cost kept + hs)) mod capacity r1"
    using e1 by (simp add: mod_simps add.assoc)
  obtain p where p: "WrappingWrite r1 (end_offset r1 + of_nat hs) x (of_nat (length x)) =
      Ret (True, r1\<lparr>contents := take 24 (contents r1) @ circ_write (ring_data r1)
        ((unat (start_offset r1) + (log_cost kept + hs)) mod capacity r1) x, file_pos := p\<rparr>)"
    using WrappingWrite_ok [OF wf1 w1, of "of_nat (length x)" x "end_offset r1 + of_nat hs"]
      ulx ne room cost r1(4) at by auto
  define r2 where "r2 = r1\<lparr>contents := take 24 (contents r1) @ circ_write (ring_data r1)
        ((unat (start_offset r1) + (log_cost kept + hs)) mod capacity r1) x, file_pos := p\<rparr>"
  have len: "log_cost kept \<le> log_cost kept + hs" "(log_cost kept + hs) + length x \<le> capacity r1"
    using room cost r1(4) by simp_all
  note free = holds_write_free [OF r1(2) len, of p, folded r2_def]
  have view: "take (record_cost x) (drop (log_cost kept) (ring_view r2)) = encode_record x"
  proof -
    have "take hs (drop (log_cost kept) (ring_view r2)) = varint_bytes (of_nat (length x))"
      using free(2) r1(5) len by (simp add: take_drop_overlay_before)
    moreover have "take (length x) (drop (log_cost kept + hs) (ring_view r2)) = x"
      using free(2) len by (simp add: slice_overlay_same)
    ultimately show ?thesis
      by (simp add: cost take_add encode_record_def add.commute)
  qed
  define e where "e = (end_offset r2 + (of_nat hs + of_nat (length x))) mod bytes_max r2"
  have same2: "same_object r r2"
    using r1(3) same_object_trans same_object_update unfolding r2_def by blast
  have e: "unat e = (unat (end_offset r2) + record_cost x) mod capacity r2"
    unfolding e_def using unat_cost [OF lx] unat_bytes_max [OF holds_wf [OF free(1)]] elt b63 room
      r1(4) free(4)
    by (subst unat_add_mod) (simp_all add: hs_def)
  define r3 where "r3 = r2\<lparr>contents := set_end e (contents r2)\<rparr>"
  have cap2: "capacity r2 = capacity r" using free(5) r1(4) by simp
  have "holds r3 (ring_append (capacity r) recs x)"
  proof (cases "exact_fill (capacity r) recs x")
    case True
    then have "log_cost kept + record_cost x = capacity r2"
      using cap2 by (simp add: exact_fill_def kept_def)
    with holds_commit_full [OF free(1) _ e] True show ?thesis by (simp add: ring_append_def r3_def)
  next
    case False
    then have "log_cost kept + record_cost x < capacity r2"
      using cap2 room by (simp add: exact_fill_def kept_def)
    from holds_commit [OF free(1) this view e] False show ?thesis
      by (simp add: ring_append_def log_append_def kept_def r3_def)
  qed
  moreover have "Ringfile_Write r x (of_nat (length x)) = Ret (True, r3)"
    using r1(1) p [folded r2_def] well_formed_header_ok [OF holds_wf [OF free(1)]]
      same_objectD [OF same2] w
    by (simp add: Ringfile_Write_def with_header_rw_def r3_def e_def)
  moreover have "same_object r r3"
    using same2 same_object_trans same_object_update unfolding r3_def by blast
  ultimately show ?thesis by blast
qed


section \<open>Reading records\<close>

text \<open>The read offset stands between the records read so far and the rest.\<close>

definition reading :: "ringfile \<Rightarrow> byte list list \<Rightarrow> byte list list \<Rightarrow> bool" where
  "reading r seen todo \<longleftrightarrow>
     holds r (seen @ todo) \<and>
     unat (read_offset r) = (unat (start_offset r) + log_cost seen) mod capacity r"

lemma readingD:
  assumes "reading r seen todo"
  shows "well_formed r" and "log_cost seen + log_cost todo < capacity r"
    and "rf_header r = Mapped" and "fd_open r"
  using assms by (simp_all add: reading_def holds_def well_formed_def)

lemma reading_file_pos [simp]: "reading (r\<lparr>file_pos := p\<rparr>) seen todo = reading r seen todo"
  by (simp add: reading_def capacity_def)

lemma mod_add_same:
  "(b :: nat) < m \<Longrightarrow> (a + b) mod m = a mod m \<longleftrightarrow> b = 0"
proof
  assume b: "b < m" and eq: "(a + b) mod m = a mod m"
  have "(a mod m + b) mod m = a mod m" using eq by (simp add: mod_simps)
  then show "b = 0" using b mod_add_if [of "a mod m" m b] by (auto split: if_splits)
qed simp

lemma at_end_iff:
  assumes "reading r seen todo"
  shows "read_offset r = end_offset r \<longleftrightarrow> todo = []"
proof -
  have e: "unat (end_offset r) = (unat (start_offset r) + log_cost seen + log_cost todo) mod capacity r"
    using assms by (simp add: reading_def holds_def add.assoc)
  have lt: "log_cost todo < capacity r" using readingD(2) [OF assms] by simp
  have "read_offset r = end_offset r \<longleftrightarrow> log_cost todo = 0"
    using assms e mod_add_same [OF lt, of "unat (start_offset r) + log_cost seen"]
    by (auto simp: eq_u64_iff reading_def)
  then show ?thesis using record_cost_pos by (cases todo) (auto simp: gr0_conv_Suc)
qed

lemma EndOfFile_ok: "reading r seen todo \<Longrightarrow> EndOfFile r = Ret (todo = [])"
  by (simp add: EndOfFile_def with_header_def well_formed_header_ok readingD at_end_iff)

lemma read_length_next:
  assumes rd: "reading r seen (x # todo)"
  shows "\<exists>p. read_length r (read_offset r) =
    Ret (True, length (varint_bytes (of_nat (length x))), of_nat (length x), r\<lparr>file_pos := p\<rparr>)"
proof (rule read_length_ok)
  show "well_formed r" using readingD [OF rd] by blast
  show "log_cost seen \<le> capacity r" using readingD(2) [OF rd] by simp
  show "unat (read_offset r) mod capacity r = (unat (start_offset r) + log_cost seen) mod capacity r"
    using rd by (simp add: reading_def)
  show "drop (log_cost seen) (ring_view r) = varint_bytes (of_nat (length x)) @
      x @ encode_records todo @ drop (log_cost (seen @ x # todo)) (ring_view r)"
    using rd by (intro drop_view) (simp add: reading_def)
qed

lemma NextRecordSize_end: "reading r seen [] \<Longrightarrow> NextRecordSize r = Ret (None, r)"
  using at_end_iff [of r seen "[]"]
  by (simp add: NextRecordSize_def with_header_def well_formed_header_ok readingD)

lemma NextRecordSize_ok:
  assumes rd: "reading r seen (x # todo)"
  shows "\<exists>p. NextRecordSize r = Ret (Some (of_nat (length x)), r\<lparr>file_pos := p\<rparr>)"
  using read_length_next [OF rd] at_end_iff [OF rd]
  by (auto simp: NextRecordSize_def with_header_def well_formed_header_ok readingD [OF rd])

lemma record_bytes_at:
  assumes rd: "reading r seen (x # todo)" and n: "n \<le> length x" "k + n \<le> length x"
  shows "circ_read (ring_data r)
      ((unat (start_offset r) + (log_cost seen + length (varint_bytes (of_nat (length x))) + k))
        mod capacity r) n = take n (drop k x)"
proof -
  define u where "u = log_cost seen + length (varint_bytes (of_nat (length x))) + k"
  have h: "holds r (seen @ x # todo)" using rd by (simp add: reading_def)
  have ule: "u + n \<le> capacity r"
    using readingD(2) [OF rd] n by (simp add: u_def record_cost_eq)
  have "circ_read (ring_data r) ((unat (start_offset r) + u) mod capacity r) n
      = take n (drop u (ring_view r) @ take u (ring_view r))"
    using circ_read_view [of u "ring_data r" "unat (start_offset r)" n] ule
    by (simp add: capacity_def ring_view_def)
  also have "\<dots> = take n (drop u (ring_view r))" using ule by simp
  also have "\<dots> = take n (drop (length (varint_bytes (of_nat (length x))) + k)
      (drop (log_cost seen) (ring_view r)))"
    by (simp add: u_def ac_simps)
  also have "\<dots> = take n (drop k x)"
    unfolding drop_view [OF h] using n by simp
  finally show ?thesis by (simp add: u_def)
qed

text \<open>The position after the length of the next record, plus some bytes of it.\<close>

lemma next_offset:
  assumes rd: "reading r seen (x # todo)" and k: "k \<le> length x"
  shows "unat (read_offset r + (of_nat (length (varint_bytes (of_nat (length x)))) + of_nat k))
      = unat (read_offset r) + length (varint_bytes (of_nat (length x))) + k"
    and "(unat (read_offset r) + length (varint_bytes (of_nat (length x))) + k) mod capacity r
      = (unat (start_offset r) + (log_cost seen + length (varint_bytes (of_nat (length x))) + k))
          mod capacity r"
proof -
  have b: "24 + capacity r < 2 ^ 63" using capacity_bounds [OF readingD(1) [OF rd]] by simp
  have "unat (read_offset r) < capacity r" using rd b
    by (simp add: reading_def) (metis capacity_bounds mod_less_divisor order_less_le_trans
        rd readingD(1) zero_less_numeral)
  moreover have c: "length (varint_bytes (of_nat (length x))) + k < capacity r"
    using readingD(2) [OF rd] k by (simp add: record_cost_eq)
  ultimately show "unat (read_offset r + (of_nat (length (varint_bytes (of_nat (length x)))) + of_nat k))
      = unat (read_offset r) + length (varint_bytes (of_nat (length x))) + k"
    using b by (simp add: unat_add_nowrap unat_of_nat_u64)
  show "(unat (read_offset r) + length (varint_bytes (of_nat (length x))) + k) mod capacity r
      = (unat (start_offset r) + (log_cost seen + length (varint_bytes (of_nat (length x))) + k))
          mod capacity r"
    using rd mod_add_left_eq [of "unat (start_offset r) + log_cost seen" "capacity r"
        "length (varint_bytes (of_nat (length x))) + k"]
    by (simp add: reading_def add.assoc)
qed

lemma reading_advance:
  assumes rd: "reading r seen (x # todo)"
    and r': "r' = r\<lparr>file_pos := p, read_offset := (read_offset r +
      (of_nat (length (varint_bytes (of_nat (length x)))) + of_nat (length x))) mod bytes_max r\<rparr>"
  shows "reading r' (seen @ [x]) todo"
proof -
  note wf = readingD(1) [OF rd]
  have same: "holds r' recs = holds r recs" "start_offset r' = start_offset r"
      "capacity r' = capacity r" for recs
    by (simp_all add: r' holds_def well_formed_def capacity_def ring_view_def)
  have "unat (read_offset r') = (unat (start_offset r) + (log_cost seen + record_cost x)) mod capacity r"
    using next_offset [OF rd le_refl] unat_bytes_max [OF wf]
    by (simp add: r' unat_mod_distrib record_cost_eq ac_simps)
  with same show ?thesis using rd by (simp add: reading_def)
qed

lemma Ringfile_Read_ok:
  assumes rd: "reading r seen (x # todo)" and ne: "x \<noteq> []"
    and buf: "length x \<le> unat n" "unat n \<le> length buf"
  shows "\<exists>r'. Ringfile_Read r buf n = Ret (True, x @ drop (length x) buf, r') \<and>
    reading r' (seen @ [x]) todo \<and> contents r' = contents r \<and> file_path r' = file_path r"
proof -
  note wf = readingD(1) [OF rd]
  have lx: "length x < 2 ^ 63" "length x \<le> capacity r"
    using readingD(2) [OF rd] capacity_bounds [OF wf] by (simp_all add: record_cost_eq)
  then have ux: "unat (of_nat (length x) :: u64) = length x" by (simp add: unat_of_nat_u64)
  obtain p where p: "read_length r (read_offset r) =
      Ret (True, length (varint_bytes (of_nat (length x))), of_nat (length x), r\<lparr>file_pos := p\<rparr>)"
    using read_length_next [OF rd] by blast
  define off where "off = read_offset r + of_nat (length (varint_bytes (of_nat (length x))))"
  have off: "unat off mod capacity r = (unat (start_offset r) +
      (log_cost seen + length (varint_bytes (of_nat (length x))) + 0)) mod capacity r"
    using next_offset [OF rd, of 0] by (simp add: off_def)
  have "circ_read (ring_data r) (unat off mod capacity r) (length x) = x"
    unfolding off using record_bytes_at [OF rd, of "length x" 0] by simp
  then obtain q where q: "WrappingRead (r\<lparr>file_pos := p\<rparr>) off buf (of_nat (length x))
      = Ret (True, x @ drop (length x) buf, r\<lparr>file_pos := q\<rparr>)"
    using WrappingRead_ok [of "r\<lparr>file_pos := p\<rparr>" "of_nat (length x)" buf off] wf ux ne lx buf
    by (auto simp: capacity_def)
  define r' where "r' = r\<lparr>file_pos := q, read_offset := (read_offset r +
      (of_nat (length (varint_bytes (of_nat (length x)))) + of_nat (length x))) mod bytes_max r\<rparr>"
  have "\<not> n < of_nat (length x)" using buf ux by (simp add: less_u64_iff)
  then have "Ringfile_Read r buf n = Ret (True, x @ drop (length x) buf, r')"
    using readingD(3,4) [OF rd] p q by (simp add: Ringfile_Read_def off_def r'_def bytes_max_def)
  moreover have "reading r' (seen @ [x]) todo" by (rule reading_advance [OF rd r'_def])
  ultimately show ?thesis by (auto simp: r'_def)
qed

lemma Ringfile_Read_small:
  assumes rd: "reading r seen (x # todo)" and n: "unat n < length x"
  shows "\<exists>p. Ringfile_Read r buf n = Ret (False, buf, r\<lparr>file_pos := p\<rparr>)"
proof -
  note wf = readingD(1) [OF rd]
  have "length x < 2 ^ 63"
    using readingD(2) [OF rd] capacity_bounds [OF wf] by (simp add: record_cost_eq)
  then have "n < of_nat (length x)" using n by (simp add: less_u64_iff unat_of_nat_u64)
  then show ?thesis
    using readingD(3,4) [OF rd] read_length_next [OF rd] by (auto simp: Ringfile_Read_def)
qed

end
