(* ===== verification/Ring_Streaming.thy ===== *)
theory Ring_Streaming
  imports Ring_Records
begin

text \<open>
  Piecewise writing and reading: \<^verbatim>\<open>StreamingWriteStart\<close>, \<^verbatim>\<open>StreamingWrite\<close>,
  \<^verbatim>\<open>StreamingWriteFinish\<close> and their reading counterparts. Between start and finish the
  header still describes the log without the new record, so an interrupted write leaves
  a readable file (\<open>streaming\<close> includes \<open>holds\<close>).
\<close>

section \<open>Streaming writes\<close>

definition size_bytes :: "nat \<Rightarrow> nat" where
  "size_bytes n = length (varint_bytes (of_nat n))"

lemma size_bytes_bounds: "1 \<le> size_bytes n \<and> size_bytes n \<le> 10"
  using varint_bytes_length [of "of_nat n"] by (simp add: size_bytes_def kMaxSize_def)

lemma record_cost_size: "record_cost x = size_bytes (length x) + length x"
  by (simp add: record_cost_eq size_bytes_def)

text \<open>In the middle of a record of \<open>n\<close> bytes, of which \<open>sent\<close> have been written.\<close>

definition streaming :: "ringfile \<Rightarrow> byte list list \<Rightarrow> nat \<Rightarrow> byte list \<Rightarrow> bool" where
  "streaming r recs n sent \<longleftrightarrow>
     holds r recs \<and> writable r \<and> log_cost recs + size_bytes n + n \<le> capacity r \<and>
     length sent \<le> n \<and>
     take (size_bytes n + length sent) (drop (log_cost recs) (ring_view r))
       = varint_bytes (of_nat n) @ sent \<and>
     unat (streaming_write_bytes_remaining r) = n - length sent \<and>
     unat (streaming_write_offset r) = unat (end_offset r) + size_bytes n + length sent"

lemma holds_update [simp]:
  "holds (r\<lparr>streaming_write_offset := a, streaming_write_bytes_remaining := b\<rparr>) recs = holds r recs"
  "holds (r\<lparr>streaming_write_offset := a\<rparr>) recs = holds r recs"
  by (simp_all add: holds_def well_formed_def ring_view_def capacity_def)

lemma StreamingWriteStart_ok:
  assumes h: "holds r recs" and w: "writable r" and idle: "streaming_write_offset r = 0"
    and f: "size_bytes n + n + 1 \<le> capacity r"
  shows "\<exists>r'. StreamingWriteStart r (of_nat n) = Ret (True, r') \<and>
    streaming r' (evict (capacity r) (size_bytes n + n) recs) n [] \<and> capacity r' = capacity r"
proof -
  define x where "x = replicate n (0 :: byte)"
  have x: "length x = n" "record_cost x = size_bytes n + n"
    by (simp_all add: x_def record_cost_size)
  define kept where "kept = evict (capacity r) (size_bytes n + n) recs"
  have "fits r x" using f by (simp add: fits_def x)
  from begin_record_ok [OF h w this] obtain r1 where r1:
      "begin_record r (of_nat n) = Ret (True, size_bytes n, r1)" "holds r1 kept"
      "same_object r r1" "capacity r1 = capacity r"
      "take (size_bytes n) (drop (log_cost kept) (ring_view r1)) = varint_bytes (of_nat n)"
    by (auto simp: x kept_def simp flip: size_bytes_def)
  define r2 where "r2 = r1\<lparr>streaming_write_offset := end_offset r1 + of_nat (size_bytes n),
      streaming_write_bytes_remaining := of_nat n\<rparr>"
  have wf: "well_formed r1" using r1(2) by (rule holds_wf)
  have b: "24 + capacity r1 < 2 ^ 63" "unat (end_offset r1) < capacity r1"
    using capacity_bounds [OF wf] wf by (simp_all add: well_formed_def)
  have "n < 2 ^ 63" using f b r1(4) by simp
  then have "unat (of_nat n :: u64) = n" by (simp add: unat_of_nat_u64)
  moreover have "unat (end_offset r1 + of_nat (size_bytes n)) = unat (end_offset r1) + size_bytes n"
    using b size_bytes_bounds [of n] by (simp add: unat_add_nowrap unat_of_nat_u64)
  moreover have "log_cost kept + size_bytes n + n \<le> capacity r1"
    using evict_fits [of "size_bytes n + n" "capacity r" recs] f r1(4) by (simp add: kept_def)
  moreover have "writable r1" using w same_objectD [OF r1(3)] by simp
  ultimately have "streaming r2 kept n []"
    using r1 by (simp add: streaming_def r2_def capacity_def ring_view_def)
  moreover have "StreamingWriteStart r (of_nat n) = Ret (True, r2)"
    using idle r1(1) by (simp add: StreamingWriteStart_def r2_def)
  moreover have "capacity r2 = capacity r" using r1(4) by (simp add: r2_def capacity_def)
  ultimately show ?thesis by (auto simp: kept_def)
qed

lemma StreamingWrite_ok:
  assumes s: "streaming r recs n sent" and c: "c \<noteq> []" "length sent + length c \<le> n"
  shows "\<exists>r'. StreamingWrite r c (of_nat (length c)) = Ret (True, r') \<and>
    streaming r' recs n (sent @ c) \<and> capacity r' = capacity r"
proof -
  note s' = s [unfolded streaming_def]
  have h: "holds r recs" and w: "writable r" using s' by auto
  have wf: "well_formed r" using h by (rule holds_wf)
  have b: "24 + capacity r < 2 ^ 63" "unat (end_offset r) < capacity r"
    using capacity_bounds [OF wf] wf by (simp_all add: well_formed_def)
  have e: "unat (end_offset r) = (unat (start_offset r) + log_cost recs) mod capacity r"
    using h by (simp add: holds_def)
  define u where "u = log_cost recs + (size_bytes n + length sent)"
  have lc: "length c < 2 ^ 63" "length c \<le> capacity r" using c s' b by linarith+
  then have uc: "unat (of_nat (length c) :: u64) = length c" by (simp add: unat_of_nat_u64)
  have at: "unat (streaming_write_offset r) mod capacity r
      = (unat (start_offset r) + u) mod capacity r"
    using s' e mod_add_left_eq [of "unat (start_offset r) + log_cost recs" "capacity r"
        "size_bytes n + length sent"]
    by (simp add: u_def add.assoc)
  obtain p where p: "WrappingWrite r (streaming_write_offset r) c (of_nat (length c)) =
      Ret (True, r\<lparr>contents := take 24 (contents r) @ circ_write (ring_data r)
        ((unat (start_offset r) + u) mod capacity r) c, file_pos := p\<rparr>)"
    using WrappingWrite_ok [OF wf w, of "of_nat (length c)" c "streaming_write_offset r"]
      uc lc c at by auto
  define r1 where "r1 = r\<lparr>contents := take 24 (contents r) @ circ_write (ring_data r)
        ((unat (start_offset r) + u) mod capacity r) c, file_pos := p\<rparr>"
  have len: "log_cost recs \<le> u" "u + length c \<le> capacity r" using s' c by (auto simp: u_def)
  note free = holds_write_free [OF h len, of p, folded r1_def]
  define r2 where "r2 = r1\<lparr>streaming_write_offset := streaming_write_offset r1 + of_nat (length c),
      streaming_write_bytes_remaining := streaming_write_bytes_remaining r1 - of_nat (length c)\<rparr>"
  have le: "of_nat (length c) \<le> streaming_write_bytes_remaining r"
    using s' c uc by (simp add: le_u64_iff)
  have "StreamingWrite r c (of_nat (length c)) = Ret (True, r2)"
    using le p [folded r1_def] by (simp add: StreamingWrite_def r2_def)
  moreover have "take (size_bytes n + length (sent @ c)) (drop (log_cost recs) (ring_view r1))
      = varint_bytes (of_nat n) @ sent @ c"
  proof -
    have "take (size_bytes n + length sent) (drop (log_cost recs) (ring_view r1))
        = varint_bytes (of_nat n) @ sent"
      using free(2) s' len by (simp add: take_drop_overlay_before u_def)
    moreover have "take (length c) (drop u (ring_view r1)) = c"
      using free(2) len by (simp add: slice_overlay_same)
    moreover have "drop u (ring_view r1)
        = drop (size_bytes n + length sent) (drop (log_cost recs) (ring_view r1))"
      by (simp add: u_def add.commute)
    ultimately show ?thesis
      using take_add [of "size_bytes n + length sent" "length c" "drop (log_cost recs) (ring_view r1)"]
      by (simp add: add.assoc)
  qed
  moreover have "unat (streaming_write_offset r + of_nat (length c))
      = unat (streaming_write_offset r) + length c"
    using s' c b lc uc size_bytes_bounds [of n] by (subst unat_add_nowrap) auto
  moreover have "unat (streaming_write_bytes_remaining r - of_nat (length c))
      = n - length (sent @ c)"
    using le uc s' by (simp add: unat_sub_nowrap)
  ultimately have "StreamingWrite r c (of_nat (length c)) = Ret (True, r2)"
      "streaming r2 recs n (sent @ c)" "capacity r2 = capacity r"
    using free s' c by (simp_all add: streaming_def r2_def r1_def capacity_def ring_view_def)
  then show ?thesis by blast
qed

lemma StreamingWrite_too_long:
  assumes "streaming r recs n sent" and "length c < 2 ^ 64" and "n < length sent + length c"
  shows "StreamingWrite r c (of_nat (length c)) = Abort"
  using assms by (auto simp: StreamingWrite_def oassert_def streaming_def le_u64_iff unat_of_nat_u64)

lemma StreamingWriteFinish_early:
  "streaming r recs n sent \<Longrightarrow> length sent < n \<Longrightarrow> StreamingWriteFinish r = Abort"
  by (auto simp: StreamingWriteFinish_def oassert_def streaming_def)

lemma StreamingWriteFinish_ok:
  assumes s: "streaming r recs n sent" and n: "length sent = n"
  shows "\<exists>r'. StreamingWriteFinish r = Ret (True, r') \<and>
    holds r' (if log_cost recs + record_cost sent = capacity r then [] else recs @ [sent]) \<and>
    writable r' \<and> streaming_write_offset r' = 0 \<and> capacity r' = capacity r"
proof -
  note s' = s [unfolded streaming_def]
  have h: "holds r recs" using s' by auto
  have wf: "well_formed r" using h by (rule holds_wf)
  have len: "24 \<le> length (contents r)" using length_contents [OF wf] by simp
  define e where "e = streaming_write_offset r mod bytes_max r"
  have e: "unat e = (unat (end_offset r) + record_cost sent) mod capacity r"
    using s' n by (simp add: e_def unat_mod_distrib unat_bytes_max [OF wf] record_cost_size add.assoc)
  have x: "take (record_cost sent) (drop (log_cost recs) (ring_view r)) = encode_record sent"
    using s' n by (simp add: record_cost_size encode_record_def)
  define r1 where "r1 = r\<lparr>contents := set_end e (contents r)\<rparr>"
  have "holds r1 (if log_cost recs + record_cost sent = capacity r then [] else recs @ [sent])"
  proof (cases "log_cost recs + record_cost sent = capacity r")
    case True
    then show ?thesis using holds_commit_full [OF h True e] by (simp add: r1_def)
  next
    case False
    then have "log_cost recs + record_cost sent < capacity r"
      using s' n by (simp add: record_cost_size)
    from holds_commit [OF h this x e] False show ?thesis by (simp add: r1_def)
  qed
  moreover have "StreamingWriteFinish r = Ret (True, r1\<lparr>streaming_write_offset := 0\<rparr>)"
    using s' n well_formed_header_ok [OF wf] bytes_max_neq_0 [OF wf]
    by (simp add: StreamingWriteFinish_def with_header_rw_def r1_def e_def unat_eq_0 [symmetric]
        del: unsigned_eq_0_iff)
  moreover have "capacity r1 = capacity r" using len by (simp add: r1_def capacity_def header)
  ultimately show ?thesis using s' by (auto simp: r1_def capacity_def)
qed

section \<open>A whole record in chunks\<close>

fun StreamingWrite_all :: "ringfile \<Rightarrow> byte list list \<Rightarrow> (bool \<times> ringfile) outcome" where
  "StreamingWrite_all r [] = Ret (True, r)"
| "StreamingWrite_all r (c # cs) =
     obind (StreamingWrite r c (of_nat (length c))) (\<lambda>(ok, r).
       if \<not> ok then Ret (False, r) else StreamingWrite_all r cs)"

definition write_chunks :: "ringfile \<Rightarrow> byte list list \<Rightarrow> (bool \<times> ringfile) outcome" where
  "write_chunks r cs =
     obind (StreamingWriteStart r (of_nat (length (concat cs)))) (\<lambda>(ok, r).
       if \<not> ok then Ret (False, r)
       else obind (StreamingWrite_all r cs) (\<lambda>(ok, r).
         if \<not> ok then Ret (False, r) else StreamingWriteFinish r))"

lemma StreamingWrite_all_ok:
  "streaming r recs n sent \<Longrightarrow> [] \<notin> set cs \<Longrightarrow> length sent + length (concat cs) \<le> n \<Longrightarrow>
    \<exists>r'. StreamingWrite_all r cs = Ret (True, r') \<and> streaming r' recs n (sent @ concat cs) \<and>
         capacity r' = capacity r"
proof (induction cs arbitrary: r sent)
  case Nil
  then show ?case by simp
next
  case (Cons c cs)
  then obtain r1 where r1: "StreamingWrite r c (of_nat (length c)) = Ret (True, r1)"
      "streaming r1 recs n (sent @ c)" "capacity r1 = capacity r"
    using StreamingWrite_ok [of r recs n sent c] by auto
  moreover from Cons.IH [OF r1(2)] Cons.prems obtain r' where
      "StreamingWrite_all r1 cs = Ret (True, r')" "streaming r' recs n ((sent @ c) @ concat cs)"
      "capacity r' = capacity r1" by auto
  ultimately show ?case by simp
qed

lemma write_chunks_ok:
  assumes h: "holds r recs" and w: "writable r" and idle: "streaming_write_offset r = 0"
    and f: "fits r (concat cs)" and ne: "[] \<notin> set cs"
  shows "\<exists>r'. write_chunks r cs = Ret (True, r') \<and>
    holds r' (ring_append (capacity r) recs (concat cs)) \<and>
    writable r' \<and> streaming_write_offset r' = 0 \<and> capacity r' = capacity r"
proof -
  define x where "x = concat cs"
  have f': "size_bytes (length x) + length x + 1 \<le> capacity r"
    using f by (simp add: fits_def record_cost_size x_def)
  define kept where "kept = evict (capacity r) (record_cost x) recs"
  obtain r1 where r1: "StreamingWriteStart r (of_nat (length x)) = Ret (True, r1)"
      "streaming r1 kept (length x) []" "capacity r1 = capacity r"
    using StreamingWriteStart_ok [OF h w idle f'] by (auto simp: kept_def record_cost_size)
  obtain r2 where r2: "StreamingWrite_all r1 cs = Ret (True, r2)"
      "streaming r2 kept (length x) x" "capacity r2 = capacity r"
    using StreamingWrite_all_ok [OF r1(2) ne] r1(3) by (auto simp: x_def)
  obtain r3 where "StreamingWriteFinish r2 = Ret (True, r3)"
      "holds r3 (if log_cost kept + record_cost x = capacity r then [] else kept @ [x])"
      "writable r3" "streaming_write_offset r3 = 0" "capacity r3 = capacity r"
    using StreamingWriteFinish_ok [OF r2(2)] r2(3) by auto
  then show ?thesis using r1 r2
    by (auto simp: write_chunks_def x_def [symmetric] ring_append_def exact_fill_def log_append_def
        kept_def split: if_splits)
qed


section \<open>Streaming reads\<close>

text \<open>In the middle of reading \<open>x\<close>, of which the first \<open>k\<close> bytes have been delivered.\<close>

definition sreading ::
  "ringfile \<Rightarrow> byte list list \<Rightarrow> byte list \<Rightarrow> byte list list \<Rightarrow> nat \<Rightarrow> bool" where
  "sreading r seen x todo k \<longleftrightarrow>
     reading r (seen @ [x]) todo \<and> k \<le> length x \<and>
     unat (streaming_read_bytes_remaining r) = length x - k \<and>
     unat (streaming_read_offset r) mod capacity r
       = (unat (start_offset r) + (log_cost seen + size_bytes (length x) + k)) mod capacity r \<and>
     unat (streaming_read_offset r) \<le> capacity r + size_bytes (length x) + k"

lemma holds_stream_fields [simp]:
  "holds (r\<lparr>streaming_read_offset := a, streaming_read_bytes_remaining := b, read_offset := c\<rparr>) recs
    = holds r recs"
  "holds (r\<lparr>streaming_read_offset := a, streaming_read_bytes_remaining := b\<rparr>) recs = holds r recs"
  "holds (r\<lparr>streaming_read_offset := a\<rparr>) recs = holds r recs"
  by (simp_all add: holds_def well_formed_def ring_view_def capacity_def)

lemma reading_stream_fields [simp]:
  "reading (r\<lparr>streaming_read_offset := a, streaming_read_bytes_remaining := b\<rparr>) seen todo
    = reading r seen todo"
  "reading (r\<lparr>streaming_read_offset := a\<rparr>) seen todo = reading r seen todo"
  by (simp_all add: reading_def capacity_def)

lemma StreamingReadStart_end:
  "reading r seen [] \<Longrightarrow> streaming_read_offset r = 0 \<Longrightarrow> StreamingReadStart r = Ret (None, r)"
  using at_end_iff [of r seen "[]"]
  by (simp add: StreamingReadStart_def with_header_def well_formed_header_ok readingD)

lemma StreamingReadStart_ok:
  assumes rd: "reading r seen (x # todo)" and idle: "streaming_read_offset r = 0"
  shows "\<exists>r'. StreamingReadStart r = Ret (Some (of_nat (length x)), r') \<and>
    sreading r' seen x todo 0 \<and> contents r' = contents r"
proof -
  note wf = readingD(1) [OF rd]
  have b: "24 + capacity r < 2 ^ 63" "10 \<le> capacity r" using capacity_bounds [OF wf] by simp_all
  obtain p where p: "read_length r (read_offset r) =
      Ret (True, size_bytes (length x), of_nat (length x), r\<lparr>file_pos := p\<rparr>)"
    using read_length_next [OF rd] by (auto simp: size_bytes_def)
  define r1 where "r1 = r\<lparr>file_pos := p, read_offset := (read_offset r +
      (of_nat (length (varint_bytes (of_nat (length x)))) + of_nat (length x))) mod bytes_max r\<rparr>"
  define r2 where "r2 = r1\<lparr>streaming_read_offset := read_offset r + of_nat (size_bytes (length x)),
      streaming_read_bytes_remaining := of_nat (length x)\<rparr>"
  have rd1: "reading r1 (seen @ [x]) todo" by (rule reading_advance [OF rd r1_def])
  have lx: "length x < 2 ^ 63" using readingD(2) [OF rd] b by (simp add: record_cost_eq)
  have off: "unat (read_offset r + of_nat (size_bytes (length x)))
      = unat (read_offset r) + size_bytes (length x)"
    using next_offset(1) [OF rd, of 0] by (simp add: size_bytes_def)
  have "unat (read_offset r) < capacity r"
    using rd b by (simp add: reading_def)
  moreover have "(unat (read_offset r) + size_bytes (length x)) mod capacity r
      = (unat (start_offset r) + (log_cost seen + size_bytes (length x))) mod capacity r"
    using next_offset(2) [OF rd, of 0] by (simp add: size_bytes_def)
  ultimately have "sreading r2 seen x todo 0"
    using rd1 off lx
    by (simp add: sreading_def r2_def r1_def capacity_def unat_of_nat_u64)
  moreover have "StreamingReadStart r = Ret (Some (of_nat (length x)), r2)"
    using idle p readingD(3,4) [OF rd] well_formed_header_ok [OF wf] at_end_iff [OF rd]
    by (simp add: StreamingReadStart_def with_header_def r2_def r1_def size_bytes_def bytes_max_def)
  ultimately show ?thesis by (auto simp: r2_def r1_def)
qed

lemma StreamingRead_ok:
  assumes s: "sreading r seen x todo k" and buf: "min (unat n) (length x - k) \<le> length buf"
  defines "m \<equiv> min (unat n) (length x - k)"
  shows "\<exists>r'. StreamingRead r buf n =
      Ret (Some (of_nat m), take m (drop k x) @ drop m buf, r') \<and>
    sreading r' seen x todo (k + m) \<and> contents r' = contents r"
proof -
  note s' = s [unfolded sreading_def]
  have rd: "reading r (seen @ [x]) todo" and k: "k \<le> length x" using s' by auto
  note wf = readingD(1) [OF rd]
  have b: "24 + capacity r < 2 ^ 63" "10 \<le> capacity r" using capacity_bounds [OF wf] by simp_all
  have cost: "log_cost seen + size_bytes (length x) + length x \<le> capacity r"
    using readingD(2) [OF rd] by (simp add: record_cost_size)
  define q where "q = (if streaming_read_bytes_remaining r < n then streaming_read_bytes_remaining r else n)"
  have uq: "unat q = m" using s' by (auto simp: q_def m_def less_u64_iff min_def)
  then have q: "q = of_nat m" by (metis of_nat_unat_u64)
  have m: "m \<le> length x - k" "m \<le> length buf" using buf by (simp_all add: m_def)
  show ?thesis
  proof (cases "q = 0")
    case True
    then have "m = 0" using uq by simp
    with True show ?thesis using s by (simp add: StreamingRead_def Let_def flip: q_def)
  next
    case False
    then have "0 < m" using uq by (metis gr0I unat_eq_0)
    have km: "m \<le> length x" "k + m \<le> length x" using m(1) k by linarith+
    then have mc: "unat q \<le> capacity r" using cost uq by linarith
    have "holds r (seen @ x # todo)" using rd by (simp add: reading_def)
    then have rd0: "reading (r\<lparr>read_offset := of_nat ((unat (start_offset r) + log_cost seen) mod capacity r)\<rparr>)
        seen (x # todo)"
    proof -
      have "(unat (start_offset r) + log_cost seen) mod capacity r < 2 ^ 64"
        using b by (intro order_less_trans [OF mod_less_divisor]) auto
      with \<open>holds r (seen @ x # todo)\<close> show ?thesis
        by (simp add: reading_def unat_of_nat_u64 holds_def well_formed_def capacity_def ring_view_def)
    qed
    have at: "circ_read (ring_data r) (unat (streaming_read_offset r) mod capacity r) m
        = take m (drop k x)"
      using record_bytes_at [OF rd0, of m k] km s'
      by (simp add: capacity_def size_bytes_def)
    obtain p where p: "WrappingRead r (streaming_read_offset r) buf q
        = Ret (True, take m (drop k x) @ drop m buf, r\<lparr>file_pos := p\<rparr>)"
      using WrappingRead_ok [OF wf, of q buf "streaming_read_offset r"] mc uq \<open>0 < m\<close> m cost at k
      by (auto simp: min_absorb2)
    define r1 where "r1 = r\<lparr>file_pos := p, streaming_read_offset := streaming_read_offset r + q,
        streaming_read_bytes_remaining := streaming_read_bytes_remaining r - q\<rparr>"
    have "unat (streaming_read_offset r + q) = unat (streaming_read_offset r) + m"
      using s' b cost m uq size_bytes_bounds [of "length x"] by (subst unat_add_nowrap) auto
    moreover have "(unat (streaming_read_offset r) + m) mod capacity r
        = (unat (start_offset r) + (log_cost seen + size_bytes (length x) + (k + m))) mod capacity r"
      using s' by (metis (no_types, lifting) add.assoc mod_add_left_eq)
    moreover have "unat (streaming_read_bytes_remaining r - q) = length x - (k + m)"
      using s' uq m by (simp add: unat_sub_nowrap le_u64_iff)
    ultimately have "sreading r1 seen x todo (k + m)"
      using s' km by (simp add: sreading_def r1_def capacity_def reading_def holds_def well_formed_def
          ring_view_def)
    moreover have "StreamingRead r buf n = Ret (Some q, take m (drop k x) @ drop m buf, r1)"
      using False p by (simp add: StreamingRead_def Let_def r1_def flip: q_def)
    ultimately show ?thesis using q by (auto simp: r1_def)
  qed
qed

lemma StreamingReadFinish_ok:
  "sreading r seen x todo k \<Longrightarrow>
    \<exists>r'. StreamingReadFinish r = (True, r') \<and> reading r' (seen @ [x]) todo \<and>
         streaming_read_offset r' = 0 \<and> contents r' = contents r"
  by (simp add: StreamingReadFinish_def sreading_def)

text \<open>A record read in pieces of the given sizes, each into a buffer of that size.\<close>

fun StreamingRead_all :: "ringfile \<Rightarrow> nat list \<Rightarrow> (byte list \<times> ringfile) option" where
  "StreamingRead_all r [] = Some ([], r)"
| "StreamingRead_all r (n # ns) =
     (case StreamingRead r (replicate n 0) (of_nat n) of
        Ret (Some k, buf, r) \<Rightarrow>
          map_option (\<lambda>(bs, r). (take (unat k) buf @ bs, r)) (StreamingRead_all r ns)
      | _ \<Rightarrow> None)"

lemma StreamingRead_all_ok:
  "sreading r seen x todo k \<Longrightarrow> \<forall>n \<in> set ns. n < 2 ^ 64 \<Longrightarrow>
    \<exists>r'. StreamingRead_all r ns = Some (take (sum_list ns) (drop k x), r') \<and>
         sreading r' seen x todo (min (length x) (k + sum_list ns)) \<and> contents r' = contents r"
proof (induction ns arbitrary: r k)
  case Nil
  then have "k \<le> length x" by (simp add: sreading_def)
  with Nil show ?case by (simp add: min_absorb2)
next
  case (Cons n ns)
  define m where "m = min n (length x - k)"
  have un: "unat (of_nat n :: u64) = n" using Cons.prems by (simp add: unat_of_nat_u64)
  have "m \<le> n" by (simp add: m_def)
  then have "m < 2 ^ 64" using Cons.prems by simp
  then have um: "unat (of_nat m :: u64) = m" by (simp add: unat_of_nat_u64)
  obtain r1 where r1: "StreamingRead r (replicate n 0) (of_nat n) =
      Ret (Some (of_nat m), take m (drop k x) @ drop m (replicate n 0), r1)"
      "sreading r1 seen x todo (k + m)" "contents r1 = contents r"
    using StreamingRead_ok [OF Cons.prems(1), of "of_nat n" "replicate n 0"] un
    by (auto simp: m_def)
  obtain r2 where r2: "StreamingRead_all r1 ns = Some (take (sum_list ns) (drop (k + m) x), r2)"
      "sreading r2 seen x todo (min (length x) (k + m + sum_list ns))" "contents r2 = contents r1"
    using Cons.IH [OF r1(2)] Cons.prems(2) by auto
  have k: "k \<le> length x" using Cons.prems(1) by (simp add: sreading_def)
  have "take m (take m (drop k x) @ drop m (replicate n 0)) = take m (drop k x)"
    by (simp add: m_def)
  moreover have "take m (drop k x) @ take (sum_list ns) (drop (k + m) x)
      = take (n + sum_list ns) (drop k x)"
    using k by (simp add: m_def take_add min_def add.commute)
  moreover have "min (length x) (k + m + sum_list ns) = min (length x) (k + (n + sum_list ns))"
    using k by (auto simp: m_def min_def)
  ultimately show ?case using r1 r2 um by simp
qed

end
