(* ===== verification/Ring_API.thy ===== *)
theory Ring_API
  imports Ring_Streaming
begin

text \<open>
  The interfaces on top of the class: the C functions of \<^verbatim>\<open>src/public_interface.cc\<close> and the
  Python type of \<^verbatim>\<open>python/module.cc\<close>, and the contract a client of either relies on, as two
  locales: a bounded log records are appended to, and a reader that goes through them.
\<close>

section \<open>Interfaces\<close>

text \<open>
  \<open>append\<close> stores one record and returns whether it did. \<open>stores h recs\<close> says that the
  handle holds these records, \<open>adds\<close> what they become and \<open>accepts\<close> which records may be
  appended.
\<close>

locale bounded_log =
  fixes append :: "'h \<Rightarrow> byte list \<Rightarrow> (bool \<times> 'h) outcome"
    and stores :: "'h \<Rightarrow> nat \<Rightarrow> byte list list \<Rightarrow> bool"
    and accepts :: "nat \<Rightarrow> byte list \<Rightarrow> bool"
    and adds :: "nat \<Rightarrow> byte list list \<Rightarrow> byte list \<Rightarrow> byte list list"
  assumes append_ok: "stores h cap recs \<Longrightarrow> accepts cap x \<Longrightarrow>
      \<exists>h'. append h x = Ret (True, h') \<and> stores h' cap (adds cap recs x)"
    and adds_recent: "\<exists>old. recs @ [x] = old @ adds cap recs x"
begin

fun append_all :: "'h \<Rightarrow> byte list list \<Rightarrow> (bool \<times> 'h) outcome" where
  "append_all h [] = Ret (True, h)"
| "append_all h (x # xs) =
     obind (append h x) (\<lambda>(ok, h). if ok then append_all h xs else Ret (False, h))"

lemma append_all_ok:
  "stores h cap recs \<Longrightarrow> \<forall>x \<in> set xs. accepts cap x \<Longrightarrow>
     \<exists>h'. append_all h xs = Ret (True, h') \<and> stores h' cap (foldl (adds cap) recs xs)"
proof (induction xs arbitrary: h recs)
  case Nil
  then show ?case by simp
next
  case (Cons x xs)
  then obtain h1 where "append h x = Ret (True, h1)" "stores h1 cap (adds cap recs x)"
    using append_ok [of h cap recs x] by auto
  with Cons.IH [of h1 "adds cap recs x"] Cons.prems(2) show ?case by auto
qed

lemma foldl_recent: "\<exists>old. recs @ xs = old @ foldl (adds cap) recs xs"
proof (induction xs arbitrary: recs)
  case Nil
  have "recs @ [] = [] @ foldl (adds cap) recs []" by simp
  then show ?case by blast
next
  case (Cons x xs)
  obtain old where old: "recs @ [x] = old @ adds cap recs x" using adds_recent by blast
  obtain older where "adds cap recs x @ xs = older @ foldl (adds cap) (adds cap recs x) xs"
    using Cons.IH by blast
  with old have "recs @ x # xs = (old @ older) @ foldl (adds cap) recs (x # xs)"
    by (metis append.assoc append_Cons append_Nil foldl_Cons)
  then show ?case by blast
qed

end

text \<open>
  \<open>next\<close> delivers the next record, or nothing at the end.
\<close>

locale record_reader =
  fixes "next" :: "'h \<Rightarrow> (byte list option \<times> 'h) outcome"
    and at :: "'h \<Rightarrow> byte list list \<Rightarrow> byte list list \<Rightarrow> bool"
  assumes next_end: "at h seen [] \<Longrightarrow> \<exists>h'. next h = Ret (None, h') \<and> at h' seen []"
    and next_record: "at h seen (x # todo) \<Longrightarrow> x \<noteq> [] \<Longrightarrow>
      \<exists>h'. next h = Ret (Some x, h') \<and> at h' (seen @ [x]) todo"
begin

text \<open>The first \<open>n\<close> results.\<close>

fun take_records :: "nat \<Rightarrow> 'h \<Rightarrow> (byte list option list \<times> 'h) outcome" where
  "take_records 0 h = Ret ([], h)"
| "take_records (Suc n) h =
     obind (next h) (\<lambda>(x, h). obind (take_records n h) (\<lambda>(xs, h). Ret (x # xs, h)))"

lemma take_records_ok:
  "at h seen todo \<Longrightarrow> [] \<notin> set todo \<Longrightarrow>
     \<exists>h'. take_records n h = Ret (map Some (take n todo) @ replicate (n - length todo) None, h') \<and>
          at h' (seen @ take n todo) (drop n todo)"
proof (induction n arbitrary: h seen todo)
  case 0
  then show ?case by simp
next
  case (Suc n)
  show ?case
  proof (cases todo)
    case Nil
    with Suc.prems obtain h1 where "next h = Ret (None, h1)" "at h1 seen []" using next_end by blast
    with Suc.IH [of h1 seen "[]"] Nil show ?thesis by auto
  next
    case (Cons x rest)
    with Suc.prems obtain h1 where "next h = Ret (Some x, h1)" "at h1 (seen @ [x]) rest"
      using next_record by (metis list.set_intros(1))
    with Suc.IH [of h1 "seen @ [x]" rest] Suc.prems Cons show ?thesis by auto
  qed
qed

end

section \<open>The C interface\<close>

text \<open>
  A \<^verbatim>\<open>RINGFILE *\<close> is an object of the class; \<^verbatim>\<open>errno\<close> is the last component, and \<open>None\<close> in the
  place of a handle is \<^verbatim>\<open>NULL\<close>. The status \<^verbatim>\<open>0\<close> or \<^verbatim>\<open>-1\<close> comes first.
\<close>

definition ringfile_close :: "fs \<Rightarrow> ringfile \<Rightarrow> fs" where
  "ringfile_close s self = (case Ringfile_Close s self of (_, _, s) \<Rightarrow> s)"

definition ringfile_create ::
  "uninitialised \<Rightarrow> fs \<Rightarrow> int \<Rightarrow> string \<Rightarrow> u64 \<Rightarrow> (ringfile option \<times> fs \<times> int) outcome" where
  "ringfile_create u s errno path sz =
     obind (Ringfile_Create s (Ringfile_init u) path sz) (\<lambda>(ok, self, s).
       if \<not> ok then Ret (None, ringfile_close s self, rf_error self)
       else Ret (Some self, s, errno))"

definition ringfile_open ::
  "uninitialised \<Rightarrow> fs \<Rightarrow> int \<Rightarrow> string \<Rightarrow> string \<Rightarrow> (ringfile option \<times> fs \<times> int) outcome" where
  "ringfile_open u s errno path mode_str =
     (case (if mode_str = ''r'' then Some kRead
            else if mode_str = ''a'' then Some kAppend else None) of
        None \<Rightarrow> Ret (None, s, errno)
      | Some mode \<Rightarrow>
          obind (Ringfile_Open s (Ringfile_init u) path mode) (\<lambda>(ok, self, s).
            if \<not> ok then Ret (None, ringfile_close s self, rf_error self)
            else Ret (Some self, s, errno)))"

definition ringfile_write :: "int \<Rightarrow> byte list \<Rightarrow> u64 \<Rightarrow> ringfile \<Rightarrow> (int \<times> ringfile \<times> int) outcome" where
  "ringfile_write errno ptr sz self =
     obind (Ringfile_Write self ptr sz) (\<lambda>(ok, self).
       if \<not> ok then Ret (- 1, self, rf_error self) else Ret (0, self, errno))"

definition ringfile_read ::
  "int \<Rightarrow> byte list \<Rightarrow> u64 \<Rightarrow> ringfile \<Rightarrow> (int \<times> byte list \<times> ringfile \<times> int) outcome" where
  "ringfile_read errno ptr sz self =
     obind (Ringfile_Read self ptr sz) (\<lambda>(ok, ptr, self).
       if \<not> ok then Ret (- 1, ptr, self, rf_error self) else Ret (0, ptr, self, errno))"

text \<open>The size is only stored when there is one.\<close>

definition ringfile_next_record_size ::
  "int \<Rightarrow> u64 \<Rightarrow> ringfile \<Rightarrow> (int \<times> u64 \<times> ringfile \<times> int) outcome" where
  "ringfile_next_record_size errno sz self =
     obind (NextRecordSize self) (\<lambda>(n, self).
       case n of
         None \<Rightarrow> Ret (- 1, sz, self, rf_error self)
       | Some n \<Rightarrow> Ret (0, n, self, errno))"

section \<open>The Python type\<close>

text \<open>
  What a method returns: a Python object, or an exception. The object's \<^verbatim>\<open>impl\<close> may be null.
\<close>

datatype py_result = PyNone | PyBytes "byte list" | IOError int | StopIteration

type_synonym py_ringfile = "ringfile option"

text \<open>\<^verbatim>\<open>Ringfile.__init__\<close>; an object whose \<^verbatim>\<open>Open\<close> failed stays behind.\<close>

definition py_init ::
  "uninitialised \<Rightarrow> fs \<Rightarrow> string \<Rightarrow> mode \<Rightarrow> (py_result \<times> py_ringfile \<times> fs) outcome" where
  "py_init u s path mode =
     obind (Ringfile_Open s (Ringfile_init u) path mode) (\<lambda>(ok, impl, s).
       Ret (if \<not> ok then IOError (rf_error impl) else PyNone, Some impl, s))"

text \<open>\<^verbatim>\<open>Ringfile.create\<close>: the size is a C \<^verbatim>\<open>int\<close>, which becomes a \<^verbatim>\<open>size_t\<close>.\<close>

definition py_create ::
  "uninitialised \<Rightarrow> fs \<Rightarrow> string \<Rightarrow> int \<Rightarrow> (py_result \<times> py_ringfile \<times> fs) outcome" where
  "py_create u s path sz =
     obind (Ringfile_Create s (Ringfile_init u) path (of_int sz)) (\<lambda>(ok, impl, s).
       if \<not> ok then Ret (IOError (rf_error impl), None, ringfile_close s impl)
       else Ret (PyNone, Some impl, s))"

definition on_impl :: "py_ringfile \<Rightarrow> (ringfile \<Rightarrow> 'a outcome) \<Rightarrow> 'a outcome" where
  "on_impl self f = (case self of None \<Rightarrow> Undef | Some impl \<Rightarrow> f impl)"

definition py_write :: "py_ringfile \<Rightarrow> byte list \<Rightarrow> (py_result \<times> py_ringfile) outcome" where
  "py_write self buffer =
     on_impl self (\<lambda>impl.
       obind (Ringfile_Write impl buffer (of_nat (length buffer))) (\<lambda>(ok, impl).
         Ret (if \<not> ok then IOError (rf_error impl) else PyNone, Some impl)))"

text \<open>The string is allocated with the size of the record; its bytes are not initialised.\<close>

definition py_read :: "py_ringfile \<Rightarrow> (py_result \<times> py_ringfile) outcome" where
  "py_read self =
     on_impl self (\<lambda>impl.
       obind (EndOfFile impl) (\<lambda>eof.
         if eof then Ret (PyNone, Some impl)
         else obind (NextRecordSize impl) (\<lambda>(n, impl).
           case n of
             None \<Rightarrow> Ret (IOError (rf_error impl), Some impl)
           | Some record_size \<Rightarrow>
               obind (Ringfile_Read impl (replicate (unat record_size) 0) record_size)
                 (\<lambda>(ok, buffer, impl).
                   Ret (if \<not> ok then IOError (rf_error impl) else PyBytes buffer, Some impl)))))"

definition py_iternext :: "py_ringfile \<Rightarrow> (py_result \<times> py_ringfile) outcome" where
  "py_iternext self =
     obind (py_read self) (\<lambda>(rv, self). Ret (if rv = PyNone then StopIteration else rv, self))"

definition py_close :: "fs \<Rightarrow> py_ringfile \<Rightarrow> (py_result \<times> py_ringfile \<times> fs) outcome" where
  "py_close s self =
     on_impl self (\<lambda>impl. case Ringfile_Close s impl of (_, impl, s) \<Rightarrow> Ret (PyNone, Some impl, s))"

definition py_dealloc :: "fs \<Rightarrow> py_ringfile \<Rightarrow> fs" where
  "py_dealloc s self = (case self of None \<Rightarrow> s | Some impl \<Rightarrow> ringfile_close s impl)"

section \<open>The class provides the interfaces\<close>

definition acceptable :: "nat \<Rightarrow> byte list \<Rightarrow> bool" where
  "acceptable cap x \<longleftrightarrow> x \<noteq> [] \<and> record_cost x + 1 \<le> cap"

definition writable_log :: "ringfile \<Rightarrow> nat \<Rightarrow> byte list list \<Rightarrow> bool" where
  "writable_log r cap recs \<longleftrightarrow> holds r recs \<and> writable r \<and> capacity r = cap"

lemma ring_append_recent: "\<exists>old. recs @ [x] = old @ ring_append cap recs x"
proof (cases "exact_fill cap recs x")
  case False
  from evict_suffix obtain old where "recs = old @ evict cap (record_cost x) recs" by blast
  then have "recs @ [x] = old @ evict cap (record_cost x) recs @ [x]" by simp
  then show ?thesis using False by (auto simp: ring_append_def log_append_def)
qed (simp add: ring_append_def)

text \<open>What acceptable records leave behind, for any of the interfaces below.\<close>

lemma appended_latest:
  assumes "log_cost recs \<le> cap" and "\<forall>x \<in> set xs. acceptable cap x"
  shows "longest_suffix cap (since_full cap recs xs) (foldl (ring_append cap) recs xs) \<and>
    (never_full cap recs xs \<longrightarrow> longest_suffix cap (recs @ xs) (foldl (ring_append cap) recs xs))"
proof -
  have "\<forall>x \<in> set xs. record_cost x \<le> cap" using assms(2) by (auto simp: acceptable_def)
  from foldl_ring_append_latest [OF assms(1) this] show ?thesis by blast
qed

lemma writable_log_step:
  "holds r recs \<Longrightarrow> writable r \<Longrightarrow> holds r' recs' \<Longrightarrow> same_object r r' \<Longrightarrow>
     writable_log r' (capacity r) recs'"
  using capacity_same_object [of r r'] same_objectD [of r r'] holds_wf
  by (auto simp: writable_log_def)

interpretation class_log: bounded_log "\<lambda>r x. Ringfile_Write r x (of_nat (length x))"
  writable_log acceptable ring_append
proof
  fix r cap recs x
  assume "writable_log r cap recs" and "acceptable cap x"
  then show "\<exists>r'. Ringfile_Write r x (of_nat (length x)) = Ret (True, r') \<and>
      writable_log r' cap (ring_append cap recs x)"
    using Ringfile_Write_ok [of r recs x] writable_log_step [of r recs]
    by (fastforce simp: writable_log_def acceptable_def fits_def)
next
  fix recs x cap
  show "\<exists>old. recs @ [x] = old @ ring_append cap recs x" by (rule ring_append_recent)
qed

text \<open>Writing a record byte by byte through the streaming operations keeps the same contract.\<close>

definition stream_log :: "ringfile \<Rightarrow> nat \<Rightarrow> byte list list \<Rightarrow> bool" where
  "stream_log r cap recs \<longleftrightarrow> writable_log r cap recs \<and> streaming_write_offset r = 0"

interpretation streaming_log: bounded_log "\<lambda>r x. write_chunks r (map (\<lambda>b. [b]) x)"
  stream_log acceptable ring_append
proof
  fix r cap recs x
  assume "stream_log r cap recs" and "acceptable cap x"
  then show "\<exists>r'. write_chunks r (map (\<lambda>b. [b]) x) = Ret (True, r') \<and>
      stream_log r' cap (ring_append cap recs x)"
    using write_chunks_ok [of r recs "map (\<lambda>b. [b]) x"]
    by (auto simp: stream_log_def writable_log_def acceptable_def fits_def concat_map_singleton)
next
  fix recs x cap
  show "\<exists>old. recs @ [x] = old @ ring_append cap recs x" by (rule ring_append_recent)
qed

definition c_write :: "ringfile \<Rightarrow> byte list \<Rightarrow> (bool \<times> ringfile) outcome" where
  "c_write self x =
     obind (ringfile_write 0 x (of_nat (length x)) self) (\<lambda>(rc, self, _). Ret (rc = 0, self))"

interpretation c_log: bounded_log c_write writable_log acceptable ring_append
proof
  fix r cap recs x
  assume "writable_log r cap recs" and "acceptable cap x"
  from class_log.append_ok [OF this] show "\<exists>r'. c_write r x = Ret (True, r') \<and>
      writable_log r' cap (ring_append cap recs x)"
    by (auto simp: c_write_def ringfile_write_def)
next
  fix recs x cap
  show "\<exists>old. recs @ [x] = old @ ring_append cap recs x" by (rule ring_append_recent)
qed

definition py_log :: "py_ringfile \<Rightarrow> nat \<Rightarrow> byte list list \<Rightarrow> bool" where
  "py_log self cap recs \<longleftrightarrow> (\<exists>r. self = Some r \<and> writable_log r cap recs)"

interpretation python_log: bounded_log
  "\<lambda>self x. obind (py_write self x) (\<lambda>(rv, self). Ret (rv = PyNone, self))"
  py_log acceptable ring_append
proof
  fix self cap recs x
  assume s: "py_log self cap recs" and "acceptable cap x"
  then obtain r where "self = Some r" "writable_log r cap recs" by (auto simp: py_log_def)
  with class_log.append_ok [of r cap recs x] \<open>acceptable cap x\<close> show
    "\<exists>self'. obind (py_write self x) (\<lambda>(rv, self). Ret (rv = PyNone, self)) = Ret (True, self') \<and>
      py_log self' cap (ring_append cap recs x)"
    by (auto simp: py_write_def on_impl_def py_log_def)
next
  fix recs x cap
  show "\<exists>old. recs @ [x] = old @ ring_append cap recs x" by (rule ring_append_recent)
qed

text \<open>
  The way every client reads: the size of the next record, then the record into a buffer of
  that size.
\<close>

definition read_record :: "ringfile \<Rightarrow> (byte list option \<times> ringfile) outcome" where
  "read_record r =
     obind (NextRecordSize r) (\<lambda>(n, r).
       case n of
         None \<Rightarrow> Ret (None, r)
       | Some n \<Rightarrow>
           obind (Ringfile_Read r (replicate (unat n) 0) n) (\<lambda>(ok, buf, r).
             Ret (if ok then Some buf else None, r)))"

lemma reading_length:
  assumes "reading r seen (x # todo)"
  shows "unat (of_nat (length x) :: u64) = length x"
proof -
  note rd = readingD [OF assms]
  have "length x < 2 ^ 64"
    using rd capacity_bounds [OF rd(1)] by (simp add: record_cost_eq)
  then show ?thesis by (rule unat_of_nat_u64)
qed

lemma read_record_ok:
  assumes rd: "reading r seen (x # todo)" and ne: "x \<noteq> []"
  shows "\<exists>r'. read_record r = Ret (Some x, r') \<and> reading r' (seen @ [x]) todo"
proof -
  obtain p where p: "NextRecordSize r = Ret (Some (of_nat (length x)), r\<lparr>file_pos := p\<rparr>)"
    using NextRecordSize_ok [OF rd] by blast
  have rd': "reading (r\<lparr>file_pos := p\<rparr>) seen (x # todo)" using rd by simp
  note n = reading_length [OF rd]
  obtain r' where "Ringfile_Read (r\<lparr>file_pos := p\<rparr>) (replicate (length x) 0) (of_nat (length x))
      = Ret (True, x, r')" "reading r' (seen @ [x]) todo"
    using Ringfile_Read_ok [OF rd' ne, of "of_nat (length x)" "replicate (length x) 0"] n by auto
  with p n show ?thesis by (simp add: read_record_def)
qed

interpretation class_reader: record_reader read_record reading
proof
  fix r seen
  assume "reading r seen []"
  then show "\<exists>r'. read_record r = Ret (None, r') \<and> reading r' seen []"
    using NextRecordSize_end by (simp add: read_record_def)
next
  fix r seen x todo
  assume "reading r seen (x # todo)" "x \<noteq> []"
  then show "\<exists>r'. read_record r = Ret (Some x, r') \<and> reading r' (seen @ [x]) todo"
    by (rule read_record_ok)
qed

definition py_next :: "py_ringfile \<Rightarrow> (byte list option \<times> py_ringfile) outcome" where
  "py_next self =
     obind (py_read self) (\<lambda>(rv, self).
       Ret (case rv of PyBytes x \<Rightarrow> Some x | _ \<Rightarrow> None, self))"

definition py_reading :: "py_ringfile \<Rightarrow> byte list list \<Rightarrow> byte list list \<Rightarrow> bool" where
  "py_reading self seen todo \<longleftrightarrow> (\<exists>r. self = Some r \<and> reading r seen todo)"

lemma py_read_ok:
  assumes rd: "reading r seen (x # todo)" and ne: "x \<noteq> []"
  shows "\<exists>r'. py_read (Some r) = Ret (PyBytes x, Some r') \<and> reading r' (seen @ [x]) todo"
proof -
  obtain r' where r': "read_record r = Ret (Some x, r')" "reading r' (seen @ [x]) todo"
    using read_record_ok [OF rd ne] by blast
  obtain p where "NextRecordSize r = Ret (Some (of_nat (length x)), r\<lparr>file_pos := p\<rparr>)"
    using NextRecordSize_ok [OF rd] by blast
  with r' EndOfFile_ok [OF rd] show ?thesis
    by (auto simp: py_read_def on_impl_def read_record_def obind_eq_Ret split: if_splits)
qed

lemma py_read_end: "reading r seen [] \<Longrightarrow> py_read (Some r) = Ret (PyNone, Some r)"
  using EndOfFile_ok [of r seen "[]"] by (simp add: py_read_def on_impl_def)

interpretation python_reader: record_reader py_next py_reading
proof
  fix self seen
  assume "py_reading self seen []"
  then show "\<exists>self'. py_next self = Ret (None, self') \<and> py_reading self' seen []"
    using py_read_end by (auto simp: py_reading_def py_next_def)
next
  fix self seen x todo
  assume "py_reading self seen (x # todo)" "x \<noteq> []"
  then show "\<exists>self'. py_next self = Ret (Some x, self') \<and> py_reading self' (seen @ [x]) todo"
    using py_read_ok by (fastforce simp: py_reading_def py_next_def)
qed

end
