(* ===== verification/Ring_Files.thy ===== *)
theory Ring_Files
  imports Ring_API
begin

text \<open>
  From one object to the next: what a closed file holds, and that opening, creating and
  closing lead from files to objects and back. \<open>file_log\<close> is \<open>holds\<close> without an object.
  The last section shows what a record of no bytes does to the code.
\<close>

section \<open>Closed files\<close>

definition file_log :: "byte list \<Rightarrow> byte list list \<Rightarrow> bool" where
  "file_log xs recs \<longleftrightarrow>
     24 + kMaxSize \<le> length xs \<and> length xs < 2 ^ 63 \<and> hdr_magic xs = kMagic \<and>
     unat (hdr_start xs) < length xs - 24 \<and> log_cost recs < length xs - 24 \<and>
     unat (hdr_end xs) = (unat (hdr_start xs) + log_cost recs) mod (length xs - 24) \<and>
     take (log_cost recs) (rotate (unat (hdr_start xs)) (data_area xs)) = encode_records recs"

text \<open>An object whose members are those of an open file.\<close>

definition opened :: "ringfile \<Rightarrow> bool" where
  "opened r \<longleftrightarrow>
     rf_header r = Mapped \<and> fd_open r \<and> fd_is_owned r \<and> unat (rf_size r) = length (contents r)"

lemma capacity_contents: "24 \<le> length (contents r) \<Longrightarrow> capacity r = length (contents r) - 24"
  by (simp add: capacity_def data_area_def sizeof_Header_def)

lemma holds_iff_file_log: "opened r \<Longrightarrow> holds r recs \<longleftrightarrow> file_log (contents r) recs"
  by (auto simp: opened_def holds_def file_log_def well_formed_def capacity_contents ring_view_def
      simp del: take_append)

lemma holds_file_log: "holds r recs \<Longrightarrow> file_log (contents r) recs"
  by (auto simp: holds_def file_log_def well_formed_def capacity_contents ring_view_def
      simp del: take_append)

lemma same_object_opened:
  "same_object r r' \<Longrightarrow> holds r' recs \<Longrightarrow> opened r \<Longrightarrow> opened r' \<and> file_path r' = file_path r"
  by (auto simp: same_object_def opened_def holds_def well_formed_def)

section \<open>Opening, creating and closing\<close>

lemma Ringfile_Open_ok:
  assumes log: "file_log c recs" and there: "files s path = Some c"
    and os: "refused s path = None" "mmap_works s"
  shows "\<exists>r. Ringfile_Open s r0 path mode = Ret (True, r, s) \<and> reading r [] recs \<and> opened r \<and>
    writable r = (mode = kAppend) \<and> contents r = c \<and> file_path r = path \<and> rf_error r = rf_error r0"
proof -
  define r where "r = r0\<lparr>fd_open := True, file_path := path, contents := c, file_pos := 0,
    writable := (mode = kAppend), fd_is_owned := True, rf_size := of_nat (length c),
    rf_header := Mapped, read_offset := hdr_start c\<rparr>"
  have len: "length c < 2 ^ 63" "24 \<le> length c" using log by (simp_all add: file_log_def)
  then have ne: "c \<noteq> []" by auto
  have "opened r" using len by (simp add: opened_def r_def unat_of_nat_u64)
  moreover have "contents r = c" by (simp add: r_def)
  ultimately have h: "holds r recs" using log by (simp add: holds_iff_file_log)
  then have "unat (hdr_start c) < capacity r"
    using start_less [OF h] by (simp add: r_def)
  with h have "reading r [] recs" by (simp add: reading_def r_def)
  moreover have "Ringfile_Open s r0 path mode = Ret (True, r, s)"
    using there os log len ne
    by (simp add: Ringfile_Open_def with_page_def file_log_def r_def Let_def)
  ultimately show ?thesis using \<open>opened r\<close> by (auto simp: r_def)
qed

text \<open>
  A mapping that failed is used all the same, and so is that of an empty file. Any other file
  that does not begin with the magic number is refused, however short it is.
\<close>

lemma Ringfile_Open_unmapped:
  "files s path = Some c \<Longrightarrow> refused s path = None \<Longrightarrow> c = [] \<or> \<not> mmap_works s \<Longrightarrow>
    Ringfile_Open s r0 path mode = Undef"
  by (auto simp: Ringfile_Open_def with_page_def)

lemma Ringfile_Open_other:
  "files s path = Some c \<Longrightarrow> refused s path = None \<Longrightarrow> mmap_works s \<Longrightarrow> c \<noteq> [] \<Longrightarrow>
    hdr_magic (first_page c) \<noteq> kMagic \<Longrightarrow>
    \<exists>r. Ringfile_Open s r0 path mode = Ret (False, r, s) \<and> rf_error r = EINVAL \<and> \<not> fd_open r"
  by (auto simp: Ringfile_Open_def with_page_def Ringfile_Close_def map_upd_triv)

lemma Ringfile_Create_ok:
  assumes os: "files s path = None" "refused s path = None" "no_space s (unat sz) = None" "mmap_works s"
    and sz: "24 + kMaxSize \<le> unat sz" "unat sz < 2 ^ 63"
  shows "\<exists>r s'. Ringfile_Create s r0 path sz = Ret (True, r, s') \<and> holds r [] \<and> opened r \<and>
    writable r \<and> capacity r = unat sz - 24 \<and> file_path r = path \<and> rf_error r = rf_error r0 \<and>
    s' = s\<lparr>files := (files s)(path \<mapsto> contents r)\<rparr>"
proof -
  define c :: "byte list" where "c = set_end 0 (set_start 0 (set_flags 0 (set_magic kMagic (replicate (unat sz) 0))))"
  define r where "r = r0\<lparr>fd_open := True, file_path := path, contents := c, file_pos := 0,
    writable := True, fd_is_owned := True, rf_size := sz, rf_header := Mapped\<rparr>"
  have n: "24 \<le> unat sz" using sz by simp
  have len: "length c = unat sz" using n by (simp add: c_def)
  have fields: "hdr_start c = 0" "hdr_end c = 0" "hdr_magic c = kMagic"
    using n by (simp_all add: c_def header)
  have op: "opened r" using len by (simp add: opened_def r_def)
  have "file_log c []"
    using sz fields len by (simp add: file_log_def kMaxSize_def)
  then have "holds r []" using op by (simp add: holds_iff_file_log r_def)
  moreover have "Ringfile_Create s r0 path sz =
      Ret (True, r, s\<lparr>files := (files s)(path \<mapsto> contents r)\<rparr>)"
    using os sz n by (auto simp: Ringfile_Create_def with_page_def r_def c_def)
  ultimately show ?thesis
    using op len n by (auto simp: r_def capacity_contents)
qed

lemma ringfile_close_ok:
  "fd_open r \<Longrightarrow> ringfile_close s r = s\<lparr>files := (files s)(file_path r \<mapsto> contents r)\<rparr>"
  by (simp add: ringfile_close_def Ringfile_Close_def Let_def)

lemma ringfile_close_unchanged:
  "fd_open r \<Longrightarrow> files s (file_path r) = Some (contents r) \<Longrightarrow> ringfile_close s r = s"
  by (simp add: ringfile_close_ok map_upd_triv)

section \<open>Writing any record\<close>

text \<open>
  One write in full: a record that can fit is appended, any other refused; the object stays
  the same but for the bytes of its file. In particular a refusal does not set the error.
\<close>

lemma Ringfile_Write_step:
  assumes log: "writable_log r cap recs" and op: "opened r" and x: "x \<noteq> []" "length x < 2 ^ 63"
  shows "\<exists>r'. Ringfile_Write r x (of_nat (length x)) = Ret (acceptable cap x, r') \<and>
    writable_log r' cap (if acceptable cap x then ring_append cap recs x else recs) \<and>
    opened r' \<and> file_path r' = file_path r \<and> rf_error r' = rf_error r"
proof (cases "acceptable cap x")
  case False
  with log x have "Ringfile_Write r x (of_nat (length x)) = Ret (False, r)"
    by (intro Ringfile_Write_refused) (auto simp: writable_log_def holds_wf acceptable_def fits_def)
  with False log op show ?thesis by simp
next
  case True
  with log x have h: "holds r recs" "writable r" "fits r x" "capacity r = cap"
    by (simp_all add: writable_log_def acceptable_def fits_def)
  obtain r' where r': "Ringfile_Write r x (of_nat (length x)) = Ret (True, r')"
      "holds r' (ring_append cap recs x)" "same_object r r'"
    using Ringfile_Write_ok [OF h(1-3) x(1)] h(4) by blast
  moreover have "writable_log r' cap (ring_append cap recs x)"
    using writable_log_step [OF h(1,2) r'(2,3)] h(4) by simp
  moreover have "rf_error r' = rf_error r" using r'(3) by (auto simp: same_object_def)
  ultimately show ?thesis using True same_object_opened [OF r'(3,2) op] by auto
qed

section \<open>Records of no bytes\<close>

text \<open>
  The split of a transfer takes an end offset that is not behind the start for a wrap; for no
  bytes at all it is the start itself, so the transfer runs to the end of the data area.
\<close>

lemma no_bytes_segment:
  assumes wf: "well_formed r"
  shows "unat (off mod bytes_max r) < capacity r" and "bytes_max r - off mod bytes_max r \<noteq> 0"
    and "off mod bytes_max r mod bytes_max r = off mod bytes_max r"
proof -
  have m: "unat (bytes_max r) = capacity r" "0 < capacity r"
    using unat_bytes_max [OF wf] capacity_bounds [OF wf] by simp_all
  then show lt: "unat (off mod bytes_max r) < capacity r" by (simp add: unat_mod_distrib)
  then show "bytes_max r - off mod bytes_max r \<noteq> 0" using m by auto
  show "off mod bytes_max r mod bytes_max r = off mod bytes_max r"
    by (simp add: word_unat_eq_iff unat_mod_distrib)
qed

lemma WrappingWrite_no_bytes:
  assumes wf: "well_formed r" and w: "writable r"
  shows "WrappingWrite r off [] 0 = Undef"
proof -
  note seg = no_bytes_segment [OF wf, of off]
  have "unat (bytes_max r - off mod bytes_max r) \<noteq> 0" using seg(2) by (simp add: unat_eq_0)
  then show ?thesis
    using bytes_max_neq_0 [OF wf] w seg(2,3)
    by (simp add: WrappingWrite_def wrap_split_def Let_def write_segment_def SeekToOffset_ok [OF wf seg(1)]
        fd_write_def)
qed

lemma WrappingRead_no_bytes:
  assumes wf: "well_formed r"
  shows "WrappingRead r off [] 0 = Undef"
proof -
  note seg = no_bytes_segment [OF wf, of off]
  have len: "24 \<le> length (contents r)" using length_contents [OF wf] by simp
  have "file_read (24 + unat (off mod bytes_max r)) (unat (bytes_max r - off mod bytes_max r))
      (contents r) \<noteq> []"
    using seg len by (simp add: file_read_data capacity_def unat_eq_0)
  then show ?thesis
    using bytes_max_neq_0 [OF wf] seg(2,3)
    by (simp add: WrappingRead_def wrap_split_def Let_def read_segment_def SeekToOffset_ok [OF wf seg(1)]
        fd_read_def)
qed

lemma write_no_bytes:
  assumes h: "holds r recs" and w: "writable r" and f: "fits r []"
  shows "Ringfile_Write r [] 0 = Undef"
proof -
  obtain r1 hs where r1: "begin_record r 0 = Ret (True, hs, r1)" "holds r1 (evict (capacity r) (record_cost []) recs)"
      "same_object r r1"
    using begin_record_ok [OF h w f] by auto
  then show ?thesis
    using WrappingWrite_no_bytes [OF holds_wf [OF r1(2)]] same_objectD [OF r1(3)] w
    by (simp add: Ringfile_Write_def)
qed

lemma read_no_bytes:
  assumes rd: "reading r seen ([] # todo)"
  shows "Ringfile_Read r [] 0 = Undef"
proof -
  obtain p where "read_length r (read_offset r) =
      Ret (True, length (varint_bytes 0), 0, r\<lparr>file_pos := p\<rparr>)"
    using read_length_next [OF rd] by auto
  then show ?thesis
    using readingD [OF rd] WrappingRead_no_bytes [of "r\<lparr>file_pos := p\<rparr>"]
    by (simp add: Ringfile_Read_def)
qed

end
