(* ===== verification/Py_Str.thy ===== *)
theory Py_Str
  imports Prelude
begin

text \<open>
  The operations on Python strings that \<^verbatim>\<open>tools/cpplint.py\<close> uses, on strings of code
  points below 256. \<^verbatim>\<open>find\<close> and \<^verbatim>\<open>rfind\<close> return an option: \<open>None\<close> is the \<^verbatim>\<open>-1\<close> of Python.
\<close>

section \<open>Characters\<close>

definition code :: "char \<Rightarrow> nat" where
  "code c = of_char c"

text \<open>The classes of \<^verbatim>\<open>re\<close> without flags: \<^verbatim>\<open>\s\<close>, \<^verbatim>\<open>\d\<close> and \<^verbatim>\<open>\w\<close> are ASCII.\<close>

definition is_space :: "char \<Rightarrow> bool" where
  "is_space c \<longleftrightarrow> c = CHR '' '' \<or> (9 \<le> code c \<and> code c \<le> 13)"

definition is_digit :: "char \<Rightarrow> bool" where
  "is_digit c \<longleftrightarrow> 48 \<le> code c \<and> code c \<le> 57"

definition is_upper :: "char \<Rightarrow> bool" where
  "is_upper c \<longleftrightarrow> 65 \<le> code c \<and> code c \<le> 90"

definition is_lower :: "char \<Rightarrow> bool" where
  "is_lower c \<longleftrightarrow> 97 \<le> code c \<and> code c \<le> 122"

definition is_word :: "char \<Rightarrow> bool" where
  "is_word c \<longleftrightarrow> is_upper c \<or> is_lower c \<or> is_digit c \<or> c = CHR ''_''"

text \<open>\<^verbatim>\<open>unicode.isspace\<close>, what \<^verbatim>\<open>strip\<close> removes, takes in a few more.\<close>

definition is_uspace :: "char \<Rightarrow> bool" where
  "is_uspace c \<longleftrightarrow> is_space c \<or> (28 \<le> code c \<and> code c \<le> 31) \<or> code c = 133 \<or> code c = 160"

text \<open>
  \<^verbatim>\<open>str.upper\<close> on a file name, which is a byte string, and \<^verbatim>\<open>unicode.lower\<close> on a line.
\<close>

definition upper_char :: "char \<Rightarrow> char" where
  "upper_char c = (if is_lower c then char_of (code c - 32) else c)"

definition lower_char :: "char \<Rightarrow> char" where
  "lower_char c =
     (if is_upper c \<or> (192 \<le> code c \<and> code c \<le> 222 \<and> code c \<noteq> 215)
      then char_of (code c + 32) else c)"

definition upper :: "string \<Rightarrow> string" where "upper = map upper_char"
definition lower :: "string \<Rightarrow> string" where "lower = map lower_char"

section \<open>Searching\<close>

primrec starts_with :: "string \<Rightarrow> string \<Rightarrow> bool" where
  "starts_with s [] = True"
| "starts_with s (p # ps) = (case s of [] \<Rightarrow> False | c # cs \<Rightarrow> c = p \<and> starts_with cs ps)"

definition ends_with :: "string \<Rightarrow> string \<Rightarrow> bool" where
  "ends_with s p = starts_with (rev s) (rev p)"

lemma starts_with_iff: "starts_with s p \<longleftrightarrow> (\<exists>t. s = p @ t)"
  by (induction p arbitrary: s) (auto split: list.splits)

lemma ends_with_iff: "ends_with s p \<longleftrightarrow> (\<exists>t. s = t @ p)"
  unfolding ends_with_def starts_with_iff by (metis rev_append rev_rev_ident)

lemma starts_with_take: "starts_with s p \<Longrightarrow> s = p @ drop (length p) s"
  by (auto simp: starts_with_iff)

text \<open>The first position at or after which \<open>p\<close> occurs.\<close>

fun find_str :: "string \<Rightarrow> string \<Rightarrow> nat option" where
  "find_str p s =
     (if starts_with s p then Some 0
      else case s of [] \<Rightarrow> None | _ # cs \<Rightarrow> map_option Suc (find_str p cs))"

declare find_str.simps [simp del]

definition rfind_str :: "string \<Rightarrow> string \<Rightarrow> nat option" where
  "rfind_str p s = map_option (\<lambda>i. length s - i - length p) (find_str (rev p) (rev s))"

definition contains :: "string \<Rightarrow> string \<Rightarrow> bool" where
  "contains p s \<longleftrightarrow> find_str p s \<noteq> None"

lemma find_str_Some:
  "find_str p s = Some i \<Longrightarrow> i + length p \<le> length s \<and> take (length p) (drop i s) = p"
proof (induction p s arbitrary: i rule: find_str.induct)
  case (1 p s)
  show ?case
  proof (cases "starts_with s p")
    case True
    with "1.prems" show ?thesis by (auto simp: find_str.simps [of p s] starts_with_iff)
  next
    case False
    with "1.prems" obtain c cs j where "s = c # cs" "find_str p cs = Some j" "i = Suc j"
      by (auto simp: find_str.simps [of p s] split: list.splits)
    with "1.IH" False show ?thesis by auto
  qed
qed

lemma find_str_None: "find_str p s = None \<longleftrightarrow> (\<nexists>a b. s = a @ p @ b)"
proof (induction s)
  case Nil
  show ?case by (auto simp: find_str.simps [of p] starts_with_iff)
next
  case (Cons c s)
  show ?case
  proof (cases "starts_with (c # s) p")
    case True
    then show ?thesis by (force simp: find_str.simps [of p "c # s"] starts_with_iff)
  next
    case False
    then have "find_str p (c # s) = None \<longleftrightarrow> find_str p s = None"
      by (simp add: find_str.simps [of p "c # s"])
    moreover have "(\<exists>a b. c # s = a @ p @ b) \<longleftrightarrow> (\<exists>a b. s = a @ p @ b)"
      using False by (auto simp: starts_with_iff Cons_eq_append_conv)
    ultimately show ?thesis using Cons.IH by simp
  qed
qed

lemma contains_iff: "contains p s \<longleftrightarrow> (\<exists>a b. s = a @ p @ b)"
  by (simp add: contains_def find_str_None)

text \<open>\<^verbatim>\<open>s.count(p)\<close> and \<^verbatim>\<open>s.replace(p, q)\<close> for a \<open>p\<close> that is not empty.\<close>

function count_str :: "string \<Rightarrow> string \<Rightarrow> nat" where
  "count_str p s =
     (if p = [] \<or> s = [] then 0
      else if starts_with s p then Suc (count_str p (drop (length p) s))
      else count_str p (tl s))"
  by pat_completeness auto
termination by (relation "measure (\<lambda>(p, s). length s)") (auto simp: diff_less)

function replace_str :: "string \<Rightarrow> string \<Rightarrow> string \<Rightarrow> string" where
  "replace_str p q s =
     (if p = [] \<or> s = [] then s
      else if starts_with s p then q @ replace_str p q (drop (length p) s)
      else hd s # replace_str p q (tl s))"
  by pat_completeness auto
termination by (relation "measure (\<lambda>(p, q, s). length s)") (auto simp: diff_less)

declare count_str.simps [simp del] replace_str.simps [simp del]

section \<open>Stripping, splitting and joining\<close>

definition lstrip :: "string \<Rightarrow> string" where "lstrip s = dropWhile is_uspace s"
definition rstrip :: "string \<Rightarrow> string" where "rstrip s = rev (dropWhile is_uspace (rev s))"
definition strip :: "string \<Rightarrow> string" where "strip s = rstrip (lstrip s)"

text \<open>\<^verbatim>\<open>strip\<close> on byte strings, which are what arguments and configuration files hold.\<close>

definition bstrip :: "string \<Rightarrow> string" where
  "bstrip s = rev (dropWhile is_space (rev (dropWhile is_space s)))"

text \<open>\<^verbatim>\<open>s.split(c)\<close> for a separator of one character; the result is never empty.\<close>

fun split_on :: "char \<Rightarrow> string \<Rightarrow> string list" where
  "split_on d [] = [[]]"
| "split_on d (c # cs) =
     (if c = d then [] # split_on d cs
      else (case split_on d cs of [] \<Rightarrow> [[c]] | w # ws \<Rightarrow> (c # w) # ws))"

fun join :: "string \<Rightarrow> string list \<Rightarrow> string" where
  "join d [] = []"
| "join d [w] = w"
| "join d (w # ws) = w @ d @ join d ws"

lemma split_on_neq_Nil [simp]: "split_on d s \<noteq> []"
  by (induction s) (auto split: list.splits)

lemma join_split_on: "join [d] (split_on d s) = s"
proof (induction s)
  case Nil
  show ?case by simp
next
  case (Cons c s)
  obtain w ws where "split_on d s = w # ws" by (cases "split_on d s") auto
  with Cons show ?case by (cases ws) auto
qed

lemma join_snoc: "us \<noteq> [] \<Longrightarrow> join d (us @ [w]) = join d us @ d @ w"
  by (induction d us rule: join.induct) auto

lemma split_on_no_sep: "w \<in> set (split_on d s) \<Longrightarrow> d \<notin> set w"
proof (induction s arbitrary: w)
  case Nil
  then show ?case by simp
next
  case (Cons c s)
  obtain v ws where v: "split_on d s = v # ws" by (cases "split_on d s") auto
  with Cons show ?case by (auto split: if_splits)
qed

lemma split_on_one: "d \<notin> set p \<Longrightarrow> split_on d p = [p]"
  by (induction p) auto

lemma split_on_piece: "d \<notin> set p \<Longrightarrow> split_on d (p @ d # s) = p # split_on d s"
  by (induction p) auto

lemma split_on_join: "ps \<noteq> [] \<Longrightarrow> \<forall>p \<in> set ps. d \<notin> set p \<Longrightarrow> split_on d (join [d] ps) = ps"
  by (induction "[d]" ps rule: join.induct) (simp_all add: split_on_one split_on_piece)

lemma last_split_on: "last (split_on d s) = [] \<longleftrightarrow> s = [] \<or> last s = d"
proof -
  obtain us w where v: "split_on d s = us @ [w]" by (cases "split_on d s" rule: rev_cases) simp_all
  then have "d \<notin> set w" using split_on_no_sep [of w d s] by simp
  moreover have "s = (if us = [] then w else join [d] us @ [d] @ w)"
    using join_split_on [of d s] join_snoc [of us "[d]" w] v by auto
  ultimately show ?thesis using v by (auto split: if_splits)
qed

text \<open>\<^verbatim>\<open>s.split()\<close>, at stretches of white space.\<close>

function words :: "string \<Rightarrow> string list" where
  "words s =
     (case dropWhile is_uspace s of
        [] \<Rightarrow> []
      | c # cs \<Rightarrow> (c # takeWhile (\<lambda>c. \<not> is_uspace c) cs) # words (dropWhile (\<lambda>c. \<not> is_uspace c) cs))"
  by pat_completeness auto
termination
proof (relation "measure length", goal_cases)
  case 1
  show ?case by simp
next
  case (2 s c cs)
  have "length (dropWhile (\<lambda>c. \<not> is_uspace c) cs) \<le> length cs" by (rule length_dropWhile_le)
  moreover have "length (c # cs) \<le> length s" using length_dropWhile_le [of is_uspace s] 2 by simp
  ultimately show ?case by simp
qed

declare words.simps [simp del]

text \<open>Decimal notation, for \<^verbatim>\<open>%d\<close>.\<close>

fun show_nat :: "nat \<Rightarrow> string" where
  "show_nat n = (if n < 10 then [char_of (48 + n)] else show_nat (n div 10) @ [char_of (48 + n mod 10)])"

declare show_nat.simps [simp del]

text \<open>The value of a string of digits, read from the left behind \<open>v\<close>.\<close>

definition digit_value :: "int \<Rightarrow> char \<Rightarrow> int" where
  "digit_value v c = 10 * v + (int (code c) - 48)"

lemma code_digit: "n < 10 \<Longrightarrow> code (char_of (48 + n)) = 48 + n"
  by (simp add: code_def)

lemma show_nat_digits: "foldl digit_value v (show_nat n) = v * 10 ^ length (show_nat n) + int n \<and>
    list_all is_digit (show_nat n) \<and> show_nat n \<noteq> []"
proof (induction n arbitrary: v rule: show_nat.induct)
  case (1 n)
  show ?case
  proof (cases "n < 10")
    case True
    then show ?thesis
      by (simp add: show_nat.simps [of n] digit_value_def code_digit is_digit_def)
  next
    case False
    have m: "n mod 10 < 10" by simp
    note ih = "1.IH" [OF False, of v]
    have "n = 10 * (n div 10) + n mod 10" by simp
    then have n: "int n = 10 * int (n div 10) + int (n mod 10)"
      by (metis of_nat_add of_nat_mult of_nat_numeral)
    show ?thesis
      using False ih code_digit [OF m] n
      by (simp add: show_nat.simps [of n] digit_value_def is_digit_def algebra_simps)
  qed
qed

definition show_int :: "int \<Rightarrow> string" where
  "show_int i = (if i < 0 then CHR ''-'' # show_nat (nat (- i)) else show_nat (nat i))"

text \<open>The last element, and an element counted from the end, as Python's negative indices.\<close>

definition but_last :: "string \<Rightarrow> string" where "but_last s = take (length s - 1) s"

end
