(* ===== verification/Command.thy ===== *)
theory Command
  imports Ring_Files Py_Str
begin

text \<open>
  The command line tool: class \<^verbatim>\<open>Command\<close> of \<^verbatim>\<open>src/command.cc\<close>. Its streams are fields of the
  state: what is still to be read from standard input, and what has been written to the
  other two. \<^verbatim>\<open>strerror\<close> is a parameter.
\<close>

section \<open>State\<close>

datatype command_mode = ModeUnspecified | ModeRead | ModeStat | ModeAppend

record command =
  c_stdin :: "byte list"
  c_stdout :: "byte list"
  c_stderr :: string
  c_mode :: command_mode
  c_verbose :: int
  c_size :: int
  c_path :: string
  c_program :: string

definition Command_init :: "byte list \<Rightarrow> command" where
  "Command_init input =
     \<lparr>c_stdin = input, c_stdout = [], c_stderr = [], c_mode = ModeUnspecified, c_verbose = 0,
      c_size = -1, c_path = [], c_program = []\<rparr>"

definition complain :: "string \<Rightarrow> command \<Rightarrow> command" where
  "complain msg c = c\<lparr>c_stderr := c_stderr c @ msg\<rparr>"

definition bytes :: "string \<Rightarrow> byte list" where
  "bytes s = map (\<lambda>c. of_nat (code c)) s"

section \<open>Options\<close>

text \<open>
  \<^verbatim>\<open>getopt_long\<close> with the options of the tool, as the GNU C library implements it: operands
  may stand between options, \<^verbatim>\<open>--\<close> ends the options, and a long option may be abbreviated as
  long as it stays unambiguous. A result is an option with its argument, or \<^verbatim>\<open>'?'\<close>.
\<close>

datatype getopt_result = Opt char "string option" | BadOpt

definition long_options :: "(string \<times> bool \<times> char) list" where
  "long_options =
     [(''help'', False, CHR ''h''), (''verbose'', False, CHR ''v''), (''size'', True, CHR ''s''),
      (''stat'', False, CHR ''S''), (''append'', False, CHR ''a'')]"

fun short_option :: "string \<Rightarrow> string list \<Rightarrow> getopt_result list \<times> string list" where
  "short_option [] args = ([], args)"
| "short_option (c # cs) args =
     (if c = CHR ''s'' then
        if cs \<noteq> [] then ([Opt c (Some cs)], args)
        else (case args of [] \<Rightarrow> ([BadOpt], []) | a # args \<Rightarrow> ([Opt c (Some a)], args))
      else
        let (rs, args) = short_option cs args
        in ((if c \<in> set ''hvSa'' then Opt c None else BadOpt) # rs, args))"

definition find_long :: "string \<Rightarrow> (bool \<times> char) option" where
  "find_long name =
     (case map_of long_options name of
        Some o' \<Rightarrow> Some o'
      | None \<Rightarrow>
          (case filter (\<lambda>(n, _). starts_with n name) long_options of
             [(_, o')] \<Rightarrow> Some o'
           | _ \<Rightarrow> None))"

definition long_option :: "string \<Rightarrow> string list \<Rightarrow> getopt_result \<times> string list" where
  "long_option s args =
     (let name = takeWhile (\<lambda>c. c \<noteq> CHR ''='') s;
          val = (if CHR ''='' \<in> set s then Some (drop (length name + 1) s) else None)
      in case find_long name of
           None \<Rightarrow> (BadOpt, args)
         | Some (False, c) \<Rightarrow> (if val = None then Opt c None else BadOpt, args)
         | Some (True, c) \<Rightarrow>
             (case val of
                Some v \<Rightarrow> (Opt c (Some v), args)
              | None \<Rightarrow> (case args of [] \<Rightarrow> (BadOpt, []) | a # args \<Rightarrow> (Opt c (Some a), args))))"

lemma short_option_args: "length (snd (short_option cs args)) \<le> length args"
  by (induction cs args rule: short_option.induct) (auto split: list.splits prod.splits)

lemma long_option_args: "length (snd (long_option s args)) \<le> length args"
  by (auto simp: long_option_def Let_def split: option.splits list.splits bool.splits)

text \<open>The results in order, and the operands.\<close>

function getopt_long :: "string list \<Rightarrow> getopt_result list \<times> string list" where
  "getopt_long [] = ([], [])"
| "getopt_long (a # args) =
     (if a = ''--'' then ([], args)
      else if starts_with a ''--'' then
        (case getopt_long (snd (long_option (drop 2 a) args)) of
           (rs, ops) \<Rightarrow> (fst (long_option (drop 2 a) args) # rs, ops))
      else if starts_with a ''-'' \<and> a \<noteq> ''-'' then
        (case getopt_long (snd (short_option (drop 1 a) args)) of
           (rs, ops) \<Rightarrow> (fst (short_option (drop 1 a) args) @ rs, ops))
      else (case getopt_long args of (rs, ops) \<Rightarrow> (rs, a # ops)))"
  by pat_completeness auto
termination
  by (relation "measure length")
     (auto simp: le_imp_less_Suc short_option_args long_option_args)

text \<open>\<^verbatim>\<open>strtol(s, &units, 10)\<close>: the value, the rest, and whether it was out of range.\<close>

definition long_max :: int where "long_max = 2 ^ 63 - 1"

definition strtol :: "string \<Rightarrow> int \<times> string \<times> bool" where
  "strtol s =
     (let t = dropWhile is_space s;
          neg = starts_with t ''-'';
          u = (if neg \<or> starts_with t ''+'' then drop 1 t else t);
          ds = takeWhile is_digit u;
          n = foldl (\<lambda>v c. 10 * v + (int (code c) - 48)) 0 ds;
          v = (if neg then - n else n)
      in if ds = [] then (0, s, False)
         else if long_max < v then (long_max, drop (length ds) u, True)
         else if v < - long_max - 1 then (- long_max - 1, drop (length ds) u, True)
         else (v, drop (length ds) u, False))"

text \<open>\<^verbatim>\<open>size *= factor\<close> on a \<^verbatim>\<open>long\<close>; an overflow is undefined.\<close>

definition scale_size :: "int \<Rightarrow> command \<Rightarrow> (bool option \<times> command) outcome" where
  "scale_size factor c =
     (if long_max < c_size c * factor then Undef
      else Ret (None, c\<lparr>c_size := c_size c * factor\<rparr>))"

definition parse_size :: "string \<Rightarrow> command \<Rightarrow> (bool option \<times> command) outcome" where
  "parse_size optarg c =
     (let (v, units, erange) = strtol optarg;
          c = c\<lparr>c_size := v\<rparr>;
          invalid = Ret (Some False, complain (c_program c @ '': invalid size\<newline>'') c)
      in if erange \<or> v \<le> 0 then invalid
         else if units = [] \<or> units = ''b'' \<or> units = ''B'' then Ret (None, c)
         else if units = ''k'' \<or> units = ''K'' then scale_size 1024 c
         else if units = ''m'' \<or> units = ''M'' then scale_size (1024 * 1024) c
         else if units = ''g'' \<or> units = ''G'' then scale_size (1024 * 1024 * 1024) c
         else invalid)"

definition set_mode :: "command_mode \<Rightarrow> command \<Rightarrow> bool option \<times> command" where
  "set_mode m c =
     (if c_mode c \<noteq> ModeUnspecified
      then (Some False, complain (c_program c @ '': cannot specify more than one mode option\<newline>'') c)
      else (None, c\<lparr>c_mode := m\<rparr>))"

text \<open>One round of the option loop: the value \<^verbatim>\<open>Parse\<close> returns with, if it does.\<close>

fun parse_option :: "getopt_result \<Rightarrow> command \<Rightarrow> (bool option \<times> command) outcome" where
  "parse_option BadOpt c = Ret (Some False, complain (c_program c @ '': invalid option\<newline>'') c)"
| "parse_option (Opt option optarg) c =
     (if option = CHR ''h'' then
        Ret (Some True, complain (''usage: '' @ c_program c @ '' [-hvSas] [file]\<newline>'') c)
      else if option = CHR ''v'' then Ret (None, c\<lparr>c_verbose := 1\<rparr>)
      else if option = CHR ''S'' then Ret (set_mode ModeStat c)
      else if option = CHR ''r'' then Ret (set_mode ModeRead c)
      else if option = CHR ''a'' then Ret (set_mode ModeAppend c)
      else if option = CHR ''s'' then parse_size (the optarg) c
      else Ret (Some False, complain (c_program c @ '': invalid option\<newline>'') c))"

fun parse_options :: "getopt_result list \<Rightarrow> command \<Rightarrow> (bool option \<times> command) outcome" where
  "parse_options [] c = Ret (None, c)"
| "parse_options (r # rs) c =
     obind (parse_option r c) (\<lambda>(ret, c).
       case ret of None \<Rightarrow> parse_options rs c | Some _ \<Rightarrow> Ret (ret, c))"

definition Parse :: "string list \<Rightarrow> command \<Rightarrow> (bool \<times> command) outcome" where
  "Parse argv c =
     (let c = c\<lparr>c_program := hd argv\<rparr>; (rs, operands) = getopt_long (tl argv)
      in obind (parse_options rs c) (\<lambda>(ret, c).
        case ret of
          Some b \<Rightarrow> Ret (b, c)
        | None \<Rightarrow>
            let c = (if c_mode c = ModeUnspecified then c\<lparr>c_mode := ModeRead\<rparr> else c)
            in case operands of
                 [] \<Rightarrow> Ret (False, complain (c_program c @ '': missing file argument\<newline>'') c)
               | [path] \<Rightarrow> Ret (True, c\<lparr>c_path := path\<rparr>)
               | _ \<Rightarrow> Ret (False, complain (c_program c @ '': too many file arguments\<newline>'') c)))"

section \<open>Reading\<close>

text \<open>
  The loop of \<^verbatim>\<open>Read\<close>. On a damaged file it need not come to an end; not returning is
  \<open>None\<close>.
\<close>

partial_function (option) read_lines ::
  "(int \<Rightarrow> string) \<Rightarrow> ringfile \<Rightarrow> command \<Rightarrow> (bool \<times> command \<times> ringfile) outcome option" where
  "read_lines strerror ring_file c =
     (case NextRecordSize ring_file of
        Abort \<Rightarrow> Some Abort
      | Undef \<Rightarrow> Some Undef
      | Ret p \<Rightarrow>
          (case fst p of
             None \<Rightarrow> Some (Ret (True, c, snd p))
           | Some sz \<Rightarrow>
               (case Ringfile_Read (snd p) (replicate (unat sz) 0) sz of
                  Abort \<Rightarrow> Some Abort
                | Undef \<Rightarrow> Some Undef
                | Ret q \<Rightarrow>
                    if \<not> fst q then
                      Some (Ret (False, complain (c_path c @ '': ''
                        @ strerror (rf_error (snd (snd q))) @ ''\<newline>'') c, snd (snd q)))
                    else
                      read_lines strerror (snd (snd q))
                        (c\<lparr>c_stdout := c_stdout c @ fst (snd q) @ [10]\<rparr>))))"

definition Command_Read ::
  "uninitialised \<Rightarrow> (int \<Rightarrow> string) \<Rightarrow> fs \<Rightarrow> command \<Rightarrow> (bool \<times> command \<times> fs) outcome option" where
  "Command_Read u strerror s c =
     (case Ringfile_Open s (Ringfile_init u) (c_path c) kRead of
        Abort \<Rightarrow> Some Abort
      | Undef \<Rightarrow> Some Undef
      | Ret (ok, ring_file, s) \<Rightarrow>
          if \<not> ok then
            Some (Ret (False, complain (c_path c @ '': '' @ strerror (rf_error ring_file) @ ''\<newline>'') c,
              ringfile_close s ring_file))
          else
            map_option (\<lambda>r. obind r (\<lambda>(ok, c, ring_file). Ret (ok, c, ringfile_close s ring_file)))
              (read_lines strerror ring_file c))"

section \<open>Writing\<close>

text \<open>\<^verbatim>\<open>std::getline\<close> until it fails: the lines without their newlines.\<close>

fun getlines :: "byte list \<Rightarrow> byte list \<Rightarrow> byte list list" where
  "getlines line [] = (if line = [] then [] else [line])"
| "getlines line (b # bs) = (if b = 10 then line # getlines [] bs else getlines (line @ [b]) bs)"

fun write_lines :: "(int \<Rightarrow> string) \<Rightarrow> byte list list \<Rightarrow> ringfile \<Rightarrow> command \<Rightarrow>
    (bool \<times> command \<times> ringfile) outcome" where
  "write_lines strerror [] ring_file c = Ret (True, c\<lparr>c_stdin := []\<rparr>, ring_file)"
| "write_lines strerror (line # ls) ring_file c =
     obind (Ringfile_Write ring_file line (of_nat (length line))) (\<lambda>(ok, ring_file).
       if \<not> ok then
         Ret (False, complain (c_path c @ '': writing: '' @ strerror (rf_error ring_file) @ ''\<newline>'') c,
           ring_file)
       else write_lines strerror ls ring_file c)"

definition open_or_create ::
  "uninitialised \<Rightarrow> (int \<Rightarrow> string) \<Rightarrow> fs \<Rightarrow> command \<Rightarrow> (bool \<times> command \<times> ringfile \<times> fs) outcome" where
  "open_or_create u strerror s c =
     obind (Ringfile_Open s (Ringfile_init u) (c_path c) kAppend) (\<lambda>(ok, ring_file, s).
       if ok then Ret (True, c, ring_file, s)
       else if rf_error ring_file \<noteq> ENOENT then
         Ret (False, complain (c_path c @ '': cannot open: '' @ strerror (rf_error ring_file)
           @ ''\<newline>'') c, ring_file, s)
       else if c_size c = -1 then
         Ret (False, complain (c_path c @ '': does not exist and --size was not specified\<newline>'') c,
           ring_file, s)
       else
         obind (Ringfile_Create s ring_file (c_path c) (of_int (c_size c))) (\<lambda>(ok, ring_file, s).
           if \<not> ok then
             Ret (False, complain (c_path c @ '': cannot create: '' @ strerror (rf_error ring_file)
               @ ''\<newline>'') c, ring_file, s)
           else Ret (True, c, ring_file, s)))"

definition Command_Write ::
  "uninitialised \<Rightarrow> (int \<Rightarrow> string) \<Rightarrow> fs \<Rightarrow> command \<Rightarrow> (bool \<times> command \<times> fs) outcome" where
  "Command_Write u strerror s c =
     obind (open_or_create u strerror s c) (\<lambda>(ok, c, ring_file, s).
       if \<not> ok then Ret (False, c, ringfile_close s ring_file)
       else obind (write_lines strerror (getlines [] (c_stdin c)) ring_file c)
         (\<lambda>(ok, c, ring_file). Ret (ok, c, ringfile_close s ring_file)))"

section \<open>Statistics and the main function\<close>

definition Command_Stat ::
  "uninitialised \<Rightarrow> (int \<Rightarrow> string) \<Rightarrow> fs \<Rightarrow> command \<Rightarrow> (bool \<times> command \<times> fs) outcome" where
  "Command_Stat u strerror s c =
     obind (Ringfile_Open s (Ringfile_init u) (c_path c) kRead) (\<lambda>(ok, ring_file, s).
       if \<not> ok then
         Ret (False, complain (c_path c @ '': '' @ strerror (rf_error ring_file) @ ''\<newline>'') c,
           ringfile_close s ring_file)
       else
         with_header ring_file
           (Ret (True, c\<lparr>c_stdout := c_stdout c @ bytes
               (''File: '' @ c_path c @ ''\<newline>'' @
                ''Size: '' @ show_nat (unat (bytes_max ring_file)) @ '' bytes\<newline>'' @
                ''Used: '' @ show_nat (unat (bytes_used ring_file)) @ '' bytes\<newline>'' @
                ''Free: '' @ show_nat (unat (bytes_available ring_file)) @ '' bytes\<newline>'')\<rparr>,
             ringfile_close s ring_file)))"

text \<open>
  The exit status. With no mode, which is how \<^verbatim>\<open>--help\<close> leaves it, \<^verbatim>\<open>ok\<close> is read without
  having been set.
\<close>

definition Command_Main ::
  "uninitialised \<Rightarrow> (int \<Rightarrow> string) \<Rightarrow> fs \<Rightarrow> string list \<Rightarrow> command \<Rightarrow>
     (int \<times> command \<times> fs) outcome option" where
  "Command_Main u strerror s argv c =
     (case Parse argv c of
        Abort \<Rightarrow> Some Abort
      | Undef \<Rightarrow> Some Undef
      | Ret (ok, c) \<Rightarrow>
          if \<not> ok then Some (Ret (1, c, s))
          else
            map_option (\<lambda>r. obind r (\<lambda>(ok, c, s). Ret (if ok then 0 else 1, c, s)))
              (case c_mode c of
                 ModeRead \<Rightarrow> Command_Read u strerror s c
               | ModeAppend \<Rightarrow> Some (Command_Write u strerror s c)
               | ModeStat \<Rightarrow> Some (Command_Stat u strerror s c)
               | ModeUnspecified \<Rightarrow> Some Undef))"

section \<open>Reading prints the records, one per line\<close>

lemma read_lines_ok:
  "reading r seen todo \<Longrightarrow> [] \<notin> set todo \<Longrightarrow>
    \<exists>r'. read_lines strerror r c =
        Some (Ret (True, c\<lparr>c_stdout := c_stdout c @ concat (map (\<lambda>x. x @ [10]) todo)\<rparr>, r')) \<and>
      contents r' = contents r \<and> file_path r' = file_path r \<and> fd_open r'"
proof (induction todo arbitrary: r seen c)
  case Nil
  then show ?case
    using NextRecordSize_end [of r seen] readingD(4) [of r seen "[]"]
    by (simp add: read_lines.simps)
next
  case (Cons x todo)
  then have ne: "x \<noteq> []" by auto
  obtain p where p: "NextRecordSize r = Ret (Some (of_nat (length x)), r\<lparr>file_pos := p\<rparr>)"
    using NextRecordSize_ok [OF Cons.prems(1)] by blast
  have rd: "reading (r\<lparr>file_pos := p\<rparr>) seen (x # todo)" using Cons.prems(1) by simp
  note n = reading_length [OF Cons.prems(1)]
  obtain r1 where r1: "Ringfile_Read (r\<lparr>file_pos := p\<rparr>) (replicate (length x) 0) (of_nat (length x))
      = Ret (True, x, r1)" "reading r1 (seen @ [x]) todo" "contents r1 = contents r"
      "file_path r1 = file_path r"
    using Ringfile_Read_ok [OF rd ne, of "of_nat (length x)" "replicate (length x) 0"] n by auto
  with Cons.IH [OF r1(2), of "c\<lparr>c_stdout := c_stdout c @ x @ [10]\<rparr>"] Cons.prems(2) p n
  show ?case by (auto simp: read_lines.simps [of strerror r c])
qed

lemma Command_Read_ok:
  assumes log: "file_log xs recs" and ne: "[] \<notin> set recs"
    and os: "files s (c_path c) = Some xs" "refused s (c_path c) = None" "mmap_works s"
  shows "Command_Read u strerror s c =
    Some (Ret (True, c\<lparr>c_stdout := c_stdout c @ concat (map (\<lambda>x. x @ [10]) recs)\<rparr>, s))"
proof -
  obtain r where r: "Ringfile_Open s (Ringfile_init u) (c_path c) kRead = Ret (True, r, s)"
      "reading r [] recs" "contents r = xs" "file_path r = c_path c"
    using Ringfile_Open_ok [OF log os] by blast
  with read_lines_ok [OF r(2) ne, of strerror c] os show ?thesis
    by (auto simp: Command_Read_def ringfile_close_unchanged)
qed

section \<open>Writing appends the lines of the input\<close>

lemma write_lines_ok:
  "writable_log r cap recs \<Longrightarrow> opened r \<Longrightarrow> \<forall>x \<in> set ls. acceptable cap x \<Longrightarrow>
    \<exists>r'. write_lines strerror ls r c = Ret (True, c\<lparr>c_stdin := []\<rparr>, r') \<and>
      writable_log r' cap (foldl (ring_append cap) recs ls) \<and> opened r' \<and>
      file_path r' = file_path r"
proof (induction ls arbitrary: r recs)
  case Nil
  then show ?case by simp
next
  case (Cons x ls)
  then have h: "holds r recs" "writable r" "fits r x" "x \<noteq> []" "capacity r = cap"
    by (simp_all add: writable_log_def acceptable_def fits_def)
  obtain r1 where r1: "Ringfile_Write r x (of_nat (length x)) = Ret (True, r1)"
      "holds r1 (ring_append cap recs x)" "same_object r r1"
    using Ringfile_Write_ok [OF h(1-4)] h(5) by blast
  have "writable_log r1 cap (ring_append cap recs x)"
    using writable_log_step [OF h(1,2) r1(2,3)] h(5) by simp
  moreover have "opened r1 \<and> file_path r1 = file_path r"
    using same_object_opened [OF r1(3,2) Cons.prems(2)] .
  ultimately show ?case
    using Cons.IH [of r1 "ring_append cap recs x"] Cons.prems(3) r1(1) by auto
qed

lemma getlines_lines: "10 \<notin> set x \<Longrightarrow> getlines line (x @ 10 # bs) = (line @ x) # getlines [] bs"
  by (induction x arbitrary: line) simp_all

lemma getlines_all:
  "\<forall>x \<in> set ls. 10 \<notin> set x \<Longrightarrow> getlines [] (concat (map (\<lambda>x. x @ [10]) ls)) = ls"
  by (induction ls) (simp_all add: getlines_lines)

lemma Command_Write_ok:
  assumes log: "file_log xs recs"
    and os: "files s (c_path c) = Some xs" "refused s (c_path c) = None" "mmap_works s"
    and ls: "\<forall>x \<in> set (getlines [] (c_stdin c)). acceptable (length xs - 24) x"
  shows "\<exists>xs'. Command_Write u strerror s c =
      Ret (True, c\<lparr>c_stdin := []\<rparr>, s\<lparr>files := (files s)(c_path c \<mapsto> xs')\<rparr>) \<and>
    length xs' = length xs \<and>
    file_log xs' (foldl (ring_append (length xs - 24)) recs (getlines [] (c_stdin c)))"
proof -
  obtain r where r: "Ringfile_Open s (Ringfile_init u) (c_path c) kAppend = Ret (True, r, s)"
      "reading r [] recs" "opened r" "writable r" "contents r = xs" "file_path r = c_path c"
    using Ringfile_Open_ok [OF log os, of "Ringfile_init u" kAppend] by auto
  have h: "holds r recs" using r(2) by (simp add: reading_def)
  have cap: "capacity r = length xs - 24" using capacity_eq [OF holds_wf [OF h]] r(5) by simp
  have "writable_log r (length xs - 24) recs" using h r(4) cap by (simp add: writable_log_def)
  from write_lines_ok [OF this r(3) ls, of strerror c] obtain r' where r':
      "write_lines strerror (getlines [] (c_stdin c)) r c = Ret (True, c\<lparr>c_stdin := []\<rparr>, r')"
      "holds r' (foldl (ring_append (length xs - 24)) recs (getlines [] (c_stdin c)))"
      "capacity r' = length xs - 24" "opened r'" "file_path r' = c_path c"
    using r(6) by (auto simp: writable_log_def)
  have "length (contents r') = length xs"
    using length_contents [OF holds_wf [OF r'(2)]] r'(3) length_contents [OF holds_wf [OF h]] cap r(5)
    by simp
  moreover have "fd_open r'" using r'(4) by (simp add: opened_def)
  moreover have "file_log (contents r') (foldl (ring_append (length xs - 24)) recs (getlines [] (c_stdin c)))"
    using holds_file_log [OF r'(2)] .
  ultimately show ?thesis
    using r(1) r'(1,5) by (auto simp: Command_Write_def open_or_create_def ringfile_close_ok)
qed

section \<open>Sizes\<close>

lemma strtol_show_nat:
  assumes n: "n < 2 ^ 63" and u: "u = [] \<or> \<not> is_digit (hd u)"
  shows "strtol (show_nat n @ u) = (int n, u, False)"
proof -
  define ds where "ds = show_nat n"
  have ds: "foldl digit_value 0 ds = int n" "list_all is_digit ds" "ds \<noteq> []"
    using show_nat_digits [of 0 n] by (simp_all add: ds_def)
  then obtain d ds' where Cons: "ds = d # ds'" "is_digit d" by (cases ds) auto
  have d: "\<not> is_space d" "d \<noteq> CHR ''-''" "d \<noteq> CHR ''+''"
    using Cons(2) by (auto simp: is_digit_def is_space_def code_def)
  have "takeWhile is_digit (ds @ u) = ds"
    using ds(2) u by (cases u) (simp_all add: list_all_iff takeWhile_append2)
  moreover have "dropWhile is_space (ds @ u) = ds @ u" using d Cons by simp
  moreover have "\<not> starts_with (ds @ u) ''-''" "\<not> starts_with (ds @ u) ''+''"
    using d Cons by simp_all
  ultimately show ?thesis
    using ds n by (simp add: strtol_def ds_def [symmetric] digit_value_def [abs_def] long_max_def)
qed

lemma parse_size_ok:
  assumes n: "0 < n" "n < 2 ^ 63"
  shows "parse_size (show_nat n) c = Ret (None, c\<lparr>c_size := int n\<rparr>)"
    and "parse_size (show_nat n @ ''k'') c = scale_size (2 ^ 10) (c\<lparr>c_size := int n\<rparr>)"
    and "parse_size (show_nat n @ ''M'') c = scale_size (2 ^ 20) (c\<lparr>c_size := int n\<rparr>)"
    and "parse_size (show_nat n @ ''G'') c = scale_size (2 ^ 30) (c\<lparr>c_size := int n\<rparr>)"
  using n strtol_show_nat [of n "[]"] strtol_show_nat [of n "''k''"] strtol_show_nat [of n "''M''"]
    strtol_show_nat [of n "''G''"]
  by (simp_all add: parse_size_def is_digit_def code_def)

lemma parse_size_overflow:
  "parse_size ''9007199254740992k'' c = Undef"
  by (simp add: parse_size_def strtol_def scale_size_def long_max_def is_digit_def is_space_def code_def)

lemma getopt_operand:
  "\<not> starts_with path ''-'' \<Longrightarrow> getopt_long [path] = ([], [path])"
  by (cases path) auto

lemma Parse_ok:
  assumes "\<not> starts_with path ''-''" and "c_mode c = ModeUnspecified"
  shows "Parse [p, path] c = Ret (True, c\<lparr>c_program := p, c_mode := ModeRead, c_path := path\<rparr>)"
    and "Parse [p, ''-a'', path] c = Ret (True, c\<lparr>c_program := p, c_mode := ModeAppend, c_path := path\<rparr>)"
    and "Parse [p, ''--append'', path] c = Ret (True, c\<lparr>c_program := p, c_mode := ModeAppend, c_path := path\<rparr>)"
    and "Parse [p, ''-S'', path] c = Ret (True, c\<lparr>c_program := p, c_mode := ModeStat, c_path := path\<rparr>)"
  using assms getopt_operand [OF assms(1)]
  by (simp_all add: Parse_def long_option_def find_long_def long_options_def set_mode_def)

lemma Parse_two_modes:
  assumes "c_mode c = ModeUnspecified"
  shows "\<exists>c'. Parse [p, ''-a'', ''-S'', path] c = Ret (False, c')"
  using assms by (simp add: Parse_def set_mode_def split: prod.split)

section \<open>Help\<close>

text \<open>
  What the parser makes of arguments up to a request for help: the modes that are asked for
  before it are what counts. An argument before it is an operand or one of the switches.
\<close>

definition mode_switch :: "string \<Rightarrow> command_mode option" where
  "mode_switch a =
     (if a = ''-a'' \<or> a = ''--append'' then Some ModeAppend
      else if a = ''-S'' \<or> a = ''--stat'' then Some ModeStat else None)"

definition given_modes :: "string list \<Rightarrow> command_mode list" where
  "given_modes args = List.map_filter mode_switch args"

definition operand_or_switch :: "string \<Rightarrow> bool" where
  "operand_or_switch a \<longleftrightarrow>
     \<not> starts_with a ''-'' \<or> a = ''-v'' \<or> a = ''--verbose'' \<or> mode_switch a \<noteq> None"

lemma getopt_switch:
  "fst (getopt_long (''-v'' # args)) = Opt CHR ''v'' None # fst (getopt_long args)"
  "fst (getopt_long (''--verbose'' # args)) = Opt CHR ''v'' None # fst (getopt_long args)"
  "fst (getopt_long (''-a'' # args)) = Opt CHR ''a'' None # fst (getopt_long args)"
  "fst (getopt_long (''--append'' # args)) = Opt CHR ''a'' None # fst (getopt_long args)"
  "fst (getopt_long (''-S'' # args)) = Opt CHR ''S'' None # fst (getopt_long args)"
  "fst (getopt_long (''--stat'' # args)) = Opt CHR ''S'' None # fst (getopt_long args)"
  "fst (getopt_long (''-h'' # args)) = Opt CHR ''h'' None # fst (getopt_long args)"
  "fst (getopt_long (''--help'' # args)) = Opt CHR ''h'' None # fst (getopt_long args)"
  by (simp_all add: long_option_def find_long_def long_options_def split: prod.split)

lemma getopt_skip: "\<not> starts_with a ''-'' \<Longrightarrow> fst (getopt_long (a # args)) = fst (getopt_long args)"
  by (cases a) (auto split: prod.split)

definition usage :: "command \<Rightarrow> command" where
  "usage c = complain (''usage: '' @ c_program c @ '' [-hvSas] [file]\<newline>'') c"

definition two_modes :: "command \<Rightarrow> command" where
  "two_modes c = complain (c_program c @ '': cannot specify more than one mode option\<newline>'') c"

definition modes_before :: "command \<Rightarrow> string list \<Rightarrow> command_mode list" where
  "modes_before c args = (if c_mode c = ModeUnspecified then [] else [c_mode c]) @ given_modes args"

lemma mode_switch_None: "\<not> starts_with a ''-'' \<Longrightarrow> mode_switch a = None"
  by (auto simp: mode_switch_def)

lemma given_modes_simps [simp]:
  "given_modes [] = []"
  "given_modes (a # args) = (case mode_switch a of None \<Rightarrow> given_modes args | Some m \<Rightarrow> m # given_modes args)"
  by (simp_all add: given_modes_def map_filter_simps split: option.split)

lemma parse_help:
  assumes "\<forall>a \<in> set args. operand_or_switch a" and "h = ''-h'' \<or> h = ''--help''"
  shows "\<exists>v. parse_options (fst (getopt_long (args @ h # rest))) c =
    (case modes_before c args of
       [] \<Rightarrow> Ret (Some True, usage (c\<lparr>c_verbose := v\<rparr>))
     | [m] \<Rightarrow> Ret (Some True, usage (c\<lparr>c_verbose := v, c_mode := m\<rparr>))
     | m # _ \<Rightarrow> Ret (Some False, two_modes (c\<lparr>c_verbose := v, c_mode := m\<rparr>)))"
  using assms(1)
proof (induction args arbitrary: c)
  case Nil
  have "fst (getopt_long (h # rest)) = Opt CHR ''h'' None # fst (getopt_long rest)"
    using assms(2) getopt_switch(7,8) by auto
  then show ?case
    by (auto simp: modes_before_def usage_def intro: exI [of _ "c_verbose c"])
next
  case (Cons a args)
  then have IH: "\<exists>v. parse_options (fst (getopt_long (args @ h # rest))) c =
    (case modes_before c args of
       [] \<Rightarrow> Ret (Some True, usage (c\<lparr>c_verbose := v\<rparr>))
     | [m] \<Rightarrow> Ret (Some True, usage (c\<lparr>c_verbose := v, c_mode := m\<rparr>))
     | m # _ \<Rightarrow> Ret (Some False, two_modes (c\<lparr>c_verbose := v, c_mode := m\<rparr>)))" for c
    by auto
  consider "\<not> starts_with a ''-''" | "a = ''-v'' \<or> a = ''--verbose''" | m where "mode_switch a = Some m"
    using Cons.prems by (auto simp: operand_or_switch_def)
  then show ?case
  proof cases
    case 1
    then show ?thesis using IH [of c]
      by (simp add: getopt_skip mode_switch_None modes_before_def del: getopt_long.simps)
  next
    case 2
    then have "mode_switch a = None" by (auto simp: mode_switch_def)
    moreover have "fst (getopt_long (a # args @ h # rest)) = Opt CHR ''v'' None # fst (getopt_long (args @ h # rest))"
      using 2 getopt_switch(1,2) by auto
    ultimately show ?thesis using IH [of "c\<lparr>c_verbose := 1\<rparr>"]
      by (cases "c_mode c = ModeUnspecified")
         (simp_all add: modes_before_def del: getopt_long.simps cong: list.case_cong)
  next
    case 3
    then have "fst (getopt_long (a # args @ h # rest))
        = Opt (if m = ModeAppend then CHR ''a'' else CHR ''S'') None # fst (getopt_long (args @ h # rest))"
      and m: "m = ModeAppend \<or> m = ModeStat"
      using getopt_switch(3-6) [of "args @ h # rest"]
      by (auto simp: mode_switch_def simp del: getopt_long.simps split: if_splits)
    then have step: "parse_options (fst (getopt_long (a # args @ h # rest))) c =
        (if c_mode c = ModeUnspecified
         then parse_options (fst (getopt_long (args @ h # rest))) (c\<lparr>c_mode := m\<rparr>)
         else Ret (Some False, two_modes c))"
      by (auto simp: set_mode_def two_modes_def simp del: getopt_long.simps)
    show ?thesis
    proof (cases "c_mode c = ModeUnspecified")
      case True
      with step m 3 IH [of "c\<lparr>c_mode := m\<rparr>"] show ?thesis
        by (auto simp: modes_before_def simp del: getopt_long.simps)
    next
      case False
      with step 3 show ?thesis
        by (auto simp: modes_before_def simp del: getopt_long.simps intro: exI [of _ "c_verbose c"])
    qed
  qed
qed

lemma given_modes_set: "m \<in> set (given_modes args) \<Longrightarrow> m = ModeAppend \<or> m = ModeStat"
  by (induction args) (auto simp: mode_switch_def split: option.splits if_splits)

text \<open>Appending to, and the statistics of, a path that no file has.\<close>

lemma Command_Write_missing:
  "files s (c_path c) = None \<Longrightarrow> refused s (c_path c) = None \<Longrightarrow> c_size c = -1 \<Longrightarrow>
    Command_Write u strerror s c =
      Ret (False, complain (c_path c @ '': does not exist and --size was not specified\<newline>'') c, s)"
  by (simp add: Command_Write_def open_or_create_def Ringfile_Open_def Ringfile_init_def
      ringfile_close_def Ringfile_Close_def)

lemma Command_Stat_missing:
  "files s (c_path c) = None \<Longrightarrow> refused s (c_path c) = None \<Longrightarrow>
    Command_Stat u strerror s c =
      Ret (False, complain (c_path c @ '': '' @ strerror ENOENT @ ''\<newline>'') c, s)"
  by (simp add: Command_Stat_def Ringfile_Open_def Ringfile_init_def ringfile_close_def Ringfile_Close_def)

text \<open>The path of \<^verbatim>\<open>--help\<close> is the empty one it was initialised with, and no file has it.\<close>

lemma Main_help:
  assumes ops: "\<forall>a \<in> set args. operand_or_switch a" and h: "h = ''-h'' \<or> h = ''--help''"
    and os: "files s [] = None" "refused s [] = None"
  shows "case given_modes args of
      [] \<Rightarrow> Command_Main u strerror s (p # args @ h # rest) (Command_init input) = Some Undef
    | m # ms \<Rightarrow> \<exists>c. Command_Main u strerror s (p # args @ h # rest) (Command_init input) = Some (Ret (1, c, s)) \<and>
        c_stderr c =
          (if ms \<noteq> [] then p @ '': cannot specify more than one mode option\<newline>''
           else ''usage: '' @ p @ '' [-hvSas] [file]\<newline>'' @
             (if m = ModeStat then '': '' @ strerror ENOENT @ ''\<newline>''
              else '': does not exist and --size was not specified\<newline>''))"
proof -
  define c0 where "c0 = (Command_init input)\<lparr>c_program := p\<rparr>"
  have c0: "c_mode c0 = ModeUnspecified" "c_program c0 = p" "c_stderr c0 = []" "c_size c0 = -1" "c_path c0 = []"
    by (simp_all add: c0_def Command_init_def)
  define G where "G = getopt_long (args @ h # rest)"
  obtain v where v: "parse_options (fst G) c0 =
    (case given_modes args of
       [] \<Rightarrow> Ret (Some True, usage (c0\<lparr>c_verbose := v\<rparr>))
     | [m] \<Rightarrow> Ret (Some True, usage (c0\<lparr>c_verbose := v, c_mode := m\<rparr>))
     | m # _ \<Rightarrow> Ret (Some False, two_modes (c0\<lparr>c_verbose := v, c_mode := m\<rparr>)))"
    using parse_help [OF ops h, of rest c0] c0(1) by (auto simp: modes_before_def G_def)
  have Parse: "Parse (p # args @ h # rest) (Command_init input) = Ret (b, c)"
    if "parse_options (fst G) c0 = Ret (Some b, c)" for b c
    using that by (auto simp: Parse_def c0_def [symmetric] G_def [symmetric] split: prod.split)
  show ?thesis
  proof (cases "given_modes args")
    case Nil
    then have "Parse (p # args @ h # rest) (Command_init input) = Ret (True, usage (c0\<lparr>c_verbose := v\<rparr>))"
      using v Parse [of True] by simp
    with Nil c0 show ?thesis by (simp add: Command_Main_def usage_def complain_def)
  next
    case (Cons m ms)
    show ?thesis
    proof (cases ms)
      case Nil
      define c1 where "c1 = usage (c0\<lparr>c_verbose := v, c_mode := m\<rparr>)"
      have c1: "c_mode c1 = m" "c_size c1 = -1" "c_path c1 = []"
          "c_stderr c1 = ''usage: '' @ p @ '' [-hvSas] [file]\<newline>''"
        using c0 by (simp_all add: c1_def usage_def complain_def)
      have "Parse (p # args @ h # rest) (Command_init input) = Ret (True, c1)"
        using v Parse [of True] Cons Nil by (simp add: c1_def)
      moreover have "m = ModeAppend \<or> m = ModeStat" using given_modes_set [of m args] Cons by simp
      ultimately show ?thesis
        using c1 os Cons Nil Command_Write_missing [of s c1 u strerror] Command_Stat_missing [of s c1 u strerror]
        by (auto simp: Command_Main_def complain_def)
    next
      case (Cons m' ms')
      with \<open>given_modes args = m # ms\<close> v Parse [of False]
      have "Parse (p # args @ h # rest) (Command_init input) =
          Ret (False, two_modes (c0\<lparr>c_verbose := v, c_mode := m\<rparr>))"
        by simp
      with Cons \<open>given_modes args = m # ms\<close> c0 show ?thesis
        by (simp add: Command_Main_def two_modes_def complain_def)
    qed
  qed
qed

section \<open>A file that is not there yet\<close>

lemma Command_Write_new:
  assumes os: "files s (c_path c) = None" "refused s (c_path c) = None" "mmap_works s"
      "no_space s (nat (c_size c)) = None"
    and sz: "int (24 + kMaxSize) \<le> c_size c" "c_size c < 2 ^ 63"
    and ls: "\<forall>x \<in> set (getlines [] (c_stdin c)). acceptable (nat (c_size c) - 24) x"
  shows "\<exists>xs'. Command_Write u strerror s c =
      Ret (True, c\<lparr>c_stdin := []\<rparr>, s\<lparr>files := (files s)(c_path c \<mapsto> xs')\<rparr>) \<and>
    length xs' = nat (c_size c) \<and>
    file_log xs' (foldl (ring_append (nat (c_size c) - 24)) [] (getlines [] (c_stdin c)))"
proof -
  define n where "n = nat (c_size c)"
  have n: "c_size c = int n" "24 + kMaxSize \<le> n" "n < 2 ^ 63" using sz by (simp_all add: n_def)
  have un: "unat (of_int (c_size c) :: u64) = n" using n by (simp add: unat_of_nat_u64)
  define r0 where "r0 = (Ringfile_init u)\<lparr>fd_open := False, rf_error := ENOENT\<rparr>"
  have 1: "Ringfile_Open s (Ringfile_init u) (c_path c) kAppend = Ret (False, r0, s)"
    using os by (simp add: Ringfile_Open_def r0_def)
  have space: "no_space s (unat (of_int (c_size c) :: u64)) = None"
    "24 + kMaxSize \<le> unat (of_int (c_size c) :: u64)" "unat (of_int (c_size c) :: u64) < 2 ^ 63"
    unfolding un using os(4) [folded n_def] n(2,3) by simp_all
  obtain r s1 where r: "Ringfile_Create s r0 (c_path c) (of_int (c_size c)) = Ret (True, r, s1)"
      "holds r []" "opened r" "writable r" "capacity r = n - 24" "file_path r = c_path c"
      "s1 = s\<lparr>files := (files s)(c_path c \<mapsto> contents r)\<rparr>"
    using Ringfile_Create_ok [OF os(1,2) space(1) os(3) space(2,3), of r0] un by metis
  have op: "open_or_create u strerror s c = Ret (True, c, r, s1)"
    using 1 r(1) n by (simp add: open_or_create_def r0_def)
  have "writable_log r (n - 24) []" using r by (simp add: writable_log_def)
  from write_lines_ok [OF this r(3) ls [folded n_def], of strerror c] obtain r' where r':
      "write_lines strerror (getlines [] (c_stdin c)) r c = Ret (True, c\<lparr>c_stdin := []\<rparr>, r')"
      "holds r' (foldl (ring_append (n - 24)) [] (getlines [] (c_stdin c)))"
      "capacity r' = n - 24" "opened r'" "file_path r' = c_path c"
    using r(6) by (auto simp: writable_log_def)
  have "length (contents r') = n"
    using length_contents [OF holds_wf [OF r'(2)]] r'(3) n by simp
  moreover have "fd_open r'" using r'(4) by (simp add: opened_def)
  moreover have "file_log (contents r') (foldl (ring_append (n - 24)) [] (getlines [] (c_stdin c)))"
    using holds_file_log [OF r'(2)] .
  ultimately show ?thesis
    unfolding n_def [symmetric] using op r'(1,5) r(7) by (auto simp: Command_Write_def ringfile_close_ok)
qed

end
