(* ===== verification/Ring_Theorems.thy ===== *)
theory Ring_Theorems
  imports Command
begin

text \<open>
  The properties of the ring file and of its interfaces. Each stands behind its number; the
  witnesses apply them to \<open>sample\<close>, a file of 64 bytes that holds two records, the
  first of which begins four bytes before the end of the data area.
\<close>

section \<open>The file the witnesses use\<close>

definition sample_file :: "byte list" where
  "sample_file =
     [0x52, 0x49, 0x4E, 0x47, 0, 0, 0, 0, 36, 0, 0, 0, 0, 0, 0, 0, 3, 0, 0, 0, 0, 0, 0, 0] @
     [2, 4, 5] @ replicate 33 0 @ [3, 1, 2, 3]"

definition no_members :: uninitialised where
  "no_members = \<lparr>u_error = 0, u_size = 0, u_read_offset = 0, u_write_remaining = 0, u_read_remaining = 0\<rparr>"

definition sample :: ringfile where
  "sample = (Ringfile_init no_members)\<lparr>contents := sample_file, writable := True,
     file_path := ''log'', fd_open := True, fd_is_owned := True, rf_size := 64, rf_header := Mapped,
     read_offset := 36\<rparr>"

definition sample_fs :: fs where
  "sample_fs = \<lparr>files = [''log'' \<mapsto> sample_file], refused = (\<lambda>_. None), no_space = (\<lambda>_. None),
     mmap_works = True\<rparr>"

lemma varint_bytes_1: "unat v < 128 \<Longrightarrow> varint_bytes v = [ucast v]"
proof -
  assume v: "unat v < 128"
  then have "take_bit 7 v = v" using take_bit_below [of v 7] by simp
  then have "v AND 0x7f = v" by (simp add: take_bit_eq_mask mask_eq_exp_minus_1)
  with v show ?thesis
    using write_loop_last [of 0 v] below_exp2_small [of v 0] by (simp add: varint_bytes_def)
qed

lemma record_cost_1: "length x < 128 \<Longrightarrow> record_cost x = 1 + length x"
  by (simp add: record_cost_eq varint_bytes_1 unat_of_nat_u64)

lemma sample_fields:
  "hdr_start sample_file = 36" "hdr_end sample_file = 3" "hdr_magic sample_file = kMagic"
  "data_area sample_file = [2, 4, 5] @ replicate 33 0 @ [3, 1, 2, 3]" "length sample_file = 64"
  by (simp_all add: sample_file_def hdr_start_def hdr_end_def hdr_magic_def kMagic_def data_area_def
      sizeof_Header_def)

lemma sample_file_log: "file_log sample_file [[1, 2, 3], [4, 5]]"
  by (simp add: file_log_def sample_fields kMaxSize_def record_cost_1 varint_bytes_1 rotate_drop_take
      encode_record_def)

lemma sample_opened: "opened sample" "writable sample" "contents sample = sample_file"
  "streaming_write_offset sample = 0" "streaming_read_offset sample = 0" "read_offset sample = 36"
  "file_path sample = ''log''"
  by (simp_all add: opened_def sample_def sample_fields Ringfile_init_def)

lemma sample_capacity: "capacity sample = 40"
  by (simp add: capacity_contents sample_opened sample_fields)

lemma sample_holds: "holds sample [[1, 2, 3], [4, 5]]"
  using sample_file_log by (simp add: holds_iff_file_log sample_opened)

lemma sample_reading: "reading sample [] [[1, 2, 3], [4, 5]]"
  using sample_holds by (simp add: reading_def sample_capacity sample_opened sample_fields)

lemma sample_fs_fields [simp]:
  "files sample_fs ''log'' = Some sample_file" "refused sample_fs p = None"
  "no_space sample_fs n = None" "mmap_works sample_fs"
  by (simp_all add: sample_fs_def)

section \<open>Writing\<close>

text \<open>C1: \<^verbatim>\<open>Write\<close> of a record that can fit appends it to the records the file holds, as the
  abstract \<open>ring_append\<close> does: the oldest are dropped as far as room is needed. One that can
  never fit is refused and changes nothing.\<close>

theorem Write_refines:
  assumes "holds r recs" and "writable r" and "x \<noteq> []" and "length x < 2 ^ 63"
  shows "if record_cost x + 1 \<le> capacity r
    then \<exists>r'. Ringfile_Write r x (of_nat (length x)) = Ret (True, r') \<and>
      holds r' (ring_append (capacity r) recs x) \<and> same_object r r'
    else Ringfile_Write r x (of_nat (length x)) = Ret (False, r)"
  using Ringfile_Write_ok [OF assms(1,2) _ assms(3)] assms(4) holds_wf [OF assms(1)]
  by (simp add: fits_def Ringfile_Write_refused)

theorem Write_refines_witness:
  "\<exists>r'. Ringfile_Write sample [7] 1 = Ret (True, r') \<and> holds r' [[1, 2, 3], [4, 5], [7]]"
  using Write_refines [of sample "[[1, 2, 3], [4, 5]]" "[7]"] sample_holds
  by (auto simp: sample_opened sample_capacity record_cost_1 ring_append_def exact_fill_def
      log_append_def)

text \<open>C2: What a write keeps are the newest records, in their order, and none is dropped for
  which there was room.\<close>

theorem Write_keeps_newest:
  assumes "holds r recs" and "writable r" and "x \<noteq> []" and "record_cost x + 1 \<le> capacity r"
    and "\<not> exact_fill (capacity r) recs x"
  shows "\<exists>r' old kept. Ringfile_Write r x (of_nat (length x)) = Ret (True, r') \<and>
    holds r' (kept @ [x]) \<and> recs = old @ kept \<and>
    (\<forall>older newer. recs = older @ newer \<and> record_cost x + log_cost newer \<le> capacity r
       \<longrightarrow> length newer \<le> length kept)"
proof -
  define kept where "kept = evict (capacity r) (record_cost x) recs"
  obtain old where "recs = old @ kept" using evict_suffix kept_def by metis
  moreover have "length newer \<le> length kept"
    if "recs = older @ newer" "record_cost x + log_cost newer \<le> capacity r" for older newer
    using evict_least [OF that(2,1)] by (auto simp: kept_def)
  moreover obtain r' where "Ringfile_Write r x (of_nat (length x)) = Ret (True, r')" "holds r' (kept @ [x])"
    using Ringfile_Write_ok [OF assms(1,2) _ assms(3)] assms(4,5)
    by (auto simp: fits_def ring_append_def log_append_def kept_def)
  ultimately show ?thesis by blast
qed

theorem Write_keeps_newest_witness:
  "\<exists>r' old kept. Ringfile_Write sample (replicate 34 8) 34 = Ret (True, r') \<and>
    holds r' (kept @ [replicate 34 8]) \<and> [[1, 2, 3], [4, 5]] = old @ kept"
  using Write_keeps_newest [of sample "[[1, 2, 3], [4, 5]]" "replicate 34 8"] sample_holds
  by (auto simp: sample_opened sample_capacity record_cost_1 exact_fill_def)

text \<open>C3: A record that fills the room that was made to the last byte is lost, and all others
  with it: \<^verbatim>\<open>Write\<close> returns true and the file is empty.\<close>

theorem Write_exact_fill:
  assumes "holds r recs" and "writable r" and "x \<noteq> []" and "record_cost x + 1 \<le> capacity r"
    and "exact_fill (capacity r) recs x"
  shows "\<exists>r'. Ringfile_Write r x (of_nat (length x)) = Ret (True, r') \<and> holds r' []"
  using Ringfile_Write_ok [OF assms(1,2) _ assms(3)] assms(4,5)
  by (auto simp: fits_def ring_append_def)

theorem Write_exact_fill_witness:
  "\<exists>r'. Ringfile_Write sample (replicate 32 9) 32 = Ret (True, r') \<and> holds r' []"
  using Write_exact_fill [of sample "[[1, 2, 3], [4, 5]]" "replicate 32 9"] sample_holds
  by (simp add: sample_opened sample_capacity record_cost_1 exact_fill_def)

lemma latest_eq:
  assumes "never_full cap recs xs \<longrightarrow> longest_suffix cap (recs @ xs) kept" and "never_full cap recs xs"
  shows "kept = newest cap (recs @ xs)"
  using assms longest_suffix_unique newest_longest by blast

text \<open>C4: After any sequence of appends that can fit, the file holds the longest run of the newest
  records that fits, in their order: of all records that were there or went in, unless the newest
  ones filled the data area to the last byte on the way; then of those that came after that.\<close>

theorem appends_keep_latest:
  assumes "writable_log r cap recs" and "\<forall>x \<in> set xs. acceptable cap x"
  shows "\<exists>r' kept. class_log.append_all r xs = Ret (True, r') \<and> writable_log r' cap kept \<and>
    longest_suffix cap (since_full cap recs xs) kept \<and>
    (never_full cap recs xs \<longrightarrow> longest_suffix cap (recs @ xs) kept)"
proof -
  have "log_cost recs \<le> cap" using assms(1) by (simp add: writable_log_def holds_def)
  from class_log.append_all_ok [OF assms] appended_latest [OF this assms(2)] show ?thesis by blast
qed

theorem appends_keep_latest_witness:
  "\<exists>r'. class_log.append_all sample [[6], replicate 31 7] = Ret (True, r') \<and>
    writable_log r' 40 [[4, 5], [6], replicate 31 7]"
proof -
  let ?xs = "[[6], replicate 31 7] :: byte list list"
  have all: "\<forall>x \<in> set ?xs. acceptable 40 x" by (simp add: acceptable_def record_cost_1)
  have "writable_log sample 40 [[1, 2, 3], [4, 5]]"
    using sample_holds by (simp add: writable_log_def sample_opened sample_capacity)
  from appends_keep_latest [OF this all] obtain r' kept where r':
      "class_log.append_all sample ?xs = Ret (True, r')" "writable_log r' 40 kept"
      "never_full 40 [[1, 2, 3], [4, 5]] ?xs \<longrightarrow> longest_suffix 40 ([[1, 2, 3], [4, 5]] @ ?xs) kept"
    by blast
  moreover have "never_full 40 [[1, 2, 3], [4, 5]] ?xs"
    by (simp add: never_full_Cons newest_def record_cost_1) (simp add: never_full_def)
  ultimately have "kept = newest 40 ([[1, 2, 3], [4, 5]] @ ?xs)" by (intro latest_eq)
  then have "kept = [[4, 5], [6], replicate 31 7]" by (simp add: newest_def record_cost_1)
  with r' show ?thesis by simp
qed

text \<open>C5: \<^verbatim>\<open>PopRecord\<close> drops the oldest record and returns false when there is none.\<close>

theorem PopRecord_drops_oldest:
  assumes "holds r recs" and "writable r"
  shows "\<exists>r'. PopRecord r = Ret (recs \<noteq> [], r') \<and> holds r' (tl recs) \<and> same_object r r'"
proof (cases recs)
  case Nil
  with assms PopRecord_empty show ?thesis by auto
next
  case (Cons x xs)
  with assms PopRecord_ok [of r x xs] show ?thesis by auto
qed

theorem PopRecord_drops_oldest_witness:
  "\<exists>r'. PopRecord sample = Ret (True, r') \<and> holds r' [[4, 5]]"
  using PopRecord_drops_oldest [of sample "[[1, 2, 3], [4, 5]]"] sample_holds
  by (auto simp: sample_opened)

section \<open>Reading\<close>

text \<open>C6: \<^verbatim>\<open>NextRecordSize\<close> announces the next record and \<^verbatim>\<open>Read\<close> delivers it into any buffer
  that is large enough; \<^verbatim>\<open>EndOfFile\<close> and \<^verbatim>\<open>NextRecordSize\<close> agree on the end.\<close>

theorem Read_delivers_next:
  assumes "reading r seen todo" and "[] \<notin> set todo"
  shows "EndOfFile r = Ret (todo = []) \<and>
    (case todo of
       [] \<Rightarrow> NextRecordSize r = Ret (None, r)
     | x # rest \<Rightarrow>
         \<exists>r1. NextRecordSize r = Ret (Some (of_nat (length x)), r1) \<and> reading r1 seen todo \<and>
           (\<forall>n buf. length x \<le> unat n \<longrightarrow> unat n \<le> length buf \<longrightarrow>
              (\<exists>r2. Ringfile_Read r1 buf n = Ret (True, x @ drop (length x) buf, r2) \<and>
                reading r2 (seen @ [x]) rest \<and> contents r2 = contents r)))"
proof (cases todo)
  case Nil
  with assms NextRecordSize_end [of r seen] EndOfFile_ok [of r seen todo] show ?thesis by simp
next
  case (Cons x rest)
  then have x: "x \<noteq> []" "reading r seen (x # rest)" using assms by auto
  obtain p where p: "NextRecordSize r = Ret (Some (of_nat (length x)), r\<lparr>file_pos := p\<rparr>)"
    using NextRecordSize_ok [OF x(2)] by blast
  have rd: "reading (r\<lparr>file_pos := p\<rparr>) seen (x # rest)" using x(2) by simp
  have "\<exists>r2. Ringfile_Read (r\<lparr>file_pos := p\<rparr>) buf n = Ret (True, x @ drop (length x) buf, r2) \<and>
      reading r2 (seen @ [x]) rest \<and> contents r2 = contents r"
    if "length x \<le> unat n" "unat n \<le> length buf" for n buf
    using Ringfile_Read_ok [OF rd x(1) that] by auto
  with p rd Cons EndOfFile_ok [OF assms(1)] show ?thesis by auto
qed

theorem Read_delivers_next_witness:
  "\<exists>r1 r2. NextRecordSize sample = Ret (Some 3, r1) \<and>
    Ringfile_Read r1 [0, 0, 0, 9] 4 = Ret (True, [1, 2, 3, 9], r2) \<and>
    reading r2 [[1, 2, 3]] [[4, 5]]"
proof -
  from Read_delivers_next [OF sample_reading] obtain r1 where r1:
      "NextRecordSize sample = Ret (Some 3, r1)"
      "\<forall>n buf. 3 \<le> unat n \<longrightarrow> unat n \<le> length buf \<longrightarrow>
         (\<exists>r2. Ringfile_Read r1 buf n = Ret (True, [1, 2, 3] @ drop 3 buf, r2) \<and>
           reading r2 [[1, 2, 3]] [[4, 5]] \<and> contents r2 = contents sample)"
    by (auto simp: numeral_3_eq_3)
  from r1(2) [rule_format, of 4 "[0, 0, 0, 9]"] r1(1) show ?thesis by auto
qed

text \<open>\<^verbatim>\<open>Read\<close> into a buffer that is too small fails and leaves the buffer and the read
  offset alone.\<close>

theorem Read_too_small:
  assumes "reading r seen (x # todo)" and "unat n < length x"
  shows "\<exists>p. Ringfile_Read r buf n = Ret (False, buf, r\<lparr>file_pos := p\<rparr>)"
  using Ringfile_Read_small [OF assms] .

theorem Read_too_small_witness:
  "\<exists>p. Ringfile_Read sample [0, 0] 2 = Ret (False, [0, 0], sample\<lparr>file_pos := p\<rparr>)"
  using Read_too_small [OF sample_reading, of 2 "[0, 0]"] by simp

text \<open>C7: A record of no bytes cannot be written or read: the transfer of no bytes runs to the
  end of the data area and leaves the caller's buffer.\<close>

theorem empty_record_undefined:
  assumes "holds r recs" and "writable r" and "2 \<le> capacity r"
  shows "Ringfile_Write r [] 0 = Undef"
  using write_no_bytes [OF assms(1,2)] assms(3)
  by (simp add: fits_def record_cost_eq varint_bytes_1)

theorem empty_record_undefined_witness: "Ringfile_Write sample [] 0 = Undef"
  using empty_record_undefined [OF sample_holds] by (simp add: sample_opened sample_capacity)

section \<open>Transfers\<close>

text \<open>C34: \<^verbatim>\<open>WrappingRead\<close> of one byte up to the whole data area delivers the circular slice at
  the offset, and moves nothing but the file position.\<close>

theorem WrappingRead_circular:
  assumes "well_formed r" and "0 < unat n" and "unat n \<le> capacity r" and "unat n \<le> length buf"
  shows "\<exists>p. WrappingRead r off buf n =
    Ret (True, circ_read (ring_data r) (unat off mod capacity r) (unat n) @ drop (unat n) buf,
         r\<lparr>file_pos := p\<rparr>)"
proof -
  have "length (circ_read (ring_data r) (unat off mod capacity r) (unat n)) = unat n"
    using assms(3) by (simp add: circ_read_def capacity_def)
  with WrappingRead_ok [OF assms, of off] show ?thesis by simp
qed

theorem WrappingRead_circular_witness:
  "\<exists>p. WrappingRead sample 36 [0, 0, 0, 0, 0, 0] 6 = Ret (True, [3, 1, 2, 3, 2, 4], sample\<lparr>file_pos := p\<rparr>)"
  using WrappingRead_circular [of sample 6 "[0, 0, 0, 0, 0, 0]" 36] holds_wf [OF sample_holds]
  by (simp add: sample_capacity sample_opened sample_fields circ_read_def rotate_drop_take)

text \<open>C8: \<^verbatim>\<open>WrappingWrite\<close> stores a buffer as a circular slice of the data area, keeps the
  header and the rest of the data, and keeps the file well-formed.\<close>

theorem WrappingWrite_circular:
  assumes "well_formed r" and "writable r" and "0 < unat n" and "unat n \<le> capacity r"
    and "unat n \<le> length buf"
  shows "\<exists>r'. WrappingWrite r off buf n = Ret (True, r') \<and> well_formed r' \<and> same_object r r' \<and>
    take 24 (contents r') = take 24 (contents r) \<and>
    ring_data r' = circ_write (ring_data r) (unat off mod capacity r) (take (unat n) buf)"
proof -
  obtain p where p: "WrappingWrite r off buf n = Ret (True, r\<lparr>contents := take 24 (contents r) @
      circ_write (ring_data r) (unat off mod capacity r) (take (unat n) buf), file_pos := p\<rparr>)"
    using WrappingWrite_ok [OF assms] by blast
  have len: "24 \<le> length (contents r)" using length_contents [OF assms(1)] by simp
  have "length (circ_write (ring_data r) (unat off mod capacity r) (take (unat n) buf)) = capacity r"
    using assms(4,5) by (simp add: capacity_def)
  from well_formed_replace_data(1) [OF assms(1) this] p len show ?thesis
    by (simp add: header)
qed

theorem WrappingWrite_circular_witness:
  "\<exists>r'. WrappingWrite sample 38 [9, 8, 7] 3 = Ret (True, r') \<and>
    ring_data r' = [7, 4, 5] @ replicate 33 0 @ [3, 1, 9, 8]"
  using WrappingWrite_circular [of sample 3 "[9, 8, 7]" 38] holds_wf [OF sample_holds]
  by (simp add: sample_capacity sample_opened sample_fields circ_write_def rotate_drop_take) blast

section \<open>Streaming\<close>

text \<open>C9: A write that stops half way harms nothing: after \<^verbatim>\<open>StreamingWriteStart\<close> and any part
  of the data, but no \<^verbatim>\<open>StreamingWriteFinish\<close>, the file is that of the records that were not
  dropped for the new one.\<close>

theorem interrupted_write:
  assumes "holds r recs" and "writable r" and "streaming_write_offset r = 0"
    and "size_bytes n + n + 1 \<le> capacity r" and "[] \<notin> set cs" and "length (concat cs) \<le> n"
  shows "\<exists>r1 r2. StreamingWriteStart r (of_nat n) = Ret (True, r1) \<and>
    StreamingWrite_all r1 cs = Ret (True, r2) \<and>
    file_log (contents r2) (evict (capacity r) (size_bytes n + n) recs)"
proof -
  obtain r1 where r1: "StreamingWriteStart r (of_nat n) = Ret (True, r1)"
      "streaming r1 (evict (capacity r) (size_bytes n + n) recs) n []"
    using StreamingWriteStart_ok [OF assms(1-4)] by blast
  with StreamingWrite_all_ok [OF r1(2) assms(5)] assms(6) obtain r2 where
    "StreamingWrite_all r1 cs = Ret (True, r2)"
    "streaming r2 (evict (capacity r) (size_bytes n + n) recs) n (concat cs)" by auto
  with r1(1) show ?thesis by (auto simp: streaming_def intro: holds_file_log)
qed

theorem interrupted_write_witness:
  "\<exists>r1 r2. StreamingWriteStart sample 34 = Ret (True, r1) \<and>
    StreamingWrite_all r1 [[8], [8, 8]] = Ret (True, r2) \<and> file_log (contents r2) [[4, 5]]"
  using interrupted_write [OF sample_holds, of 34 "[[8], [8, 8]]"]
  by (simp add: sample_opened sample_capacity size_bytes_def varint_bytes_1 record_cost_1)

text \<open>C10: A record written in pieces is stored as by one \<^verbatim>\<open>Write\<close> of their concatenation.\<close>

theorem streaming_write_refines:
  assumes "holds r recs" and "writable r" and "streaming_write_offset r = 0"
    and "record_cost (concat cs) + 1 \<le> capacity r" and "[] \<notin> set cs"
  shows "\<exists>r'. write_chunks r cs = Ret (True, r') \<and>
    holds r' (ring_append (capacity r) recs (concat cs)) \<and> streaming_write_offset r' = 0"
  using write_chunks_ok [OF assms(1-3) _ assms(5)] assms(4) by (auto simp: fits_def)

theorem streaming_write_refines_witness:
  "\<exists>r'. write_chunks sample [[6], [7, 8]] = Ret (True, r') \<and> holds r' [[1, 2, 3], [4, 5], [6, 7, 8]]"
  using streaming_write_refines [OF sample_holds, of "[[6], [7, 8]]"]
  by (auto simp: sample_opened sample_capacity record_cost_1 ring_append_def exact_fill_def log_append_def)

text \<open>More bytes than announced are stopped by the assertion of \<^verbatim>\<open>StreamingWrite\<close>, and fewer by
  that of \<^verbatim>\<open>StreamingWriteFinish\<close>.\<close>

theorem streaming_misuse:
  assumes "streaming r recs n sent"
  shows "(length sent < n \<longrightarrow> StreamingWriteFinish r = Abort) \<and>
    (\<forall>c. length c < 2 ^ 64 \<and> n < length sent + length c \<longrightarrow>
       StreamingWrite r c (of_nat (length c)) = Abort)"
  using StreamingWriteFinish_early [OF assms] StreamingWrite_too_long [OF assms] by blast+

theorem streaming_misuse_witness:
  "\<exists>r. StreamingWriteStart sample 2 = Ret (True, r) \<and> StreamingWriteFinish r = Abort \<and>
    StreamingWrite r [1, 2, 3] 3 = Abort"
proof -
  obtain r where r: "StreamingWriteStart sample 2 = Ret (True, r)" "streaming r [[1, 2, 3], [4, 5]] 2 []"
    using StreamingWriteStart_ok [OF sample_holds, of 2]
    by (auto simp: sample_opened sample_capacity size_bytes_def varint_bytes_1 record_cost_1)
  from streaming_misuse [OF r(2)] have "StreamingWriteFinish r = Abort"
    and all: "\<forall>c. length c < 2 ^ 64 \<and> 2 < length ([] :: byte list) + length c \<longrightarrow>
      StreamingWrite r c (of_nat (length c)) = Abort" by simp_all
  moreover from all [rule_format, of "[1, 2, 3]"] have "StreamingWrite r [1, 2, 3] 3 = Abort" by simp
  ultimately show ?thesis using r(1) by auto
qed

text \<open>C11: Reading a record in pieces of any sizes delivers its bytes in order and stops at its end;
  \<^verbatim>\<open>StreamingReadFinish\<close> then stands before the next record.\<close>

theorem streaming_read:
  assumes "reading r seen (x # todo)" and "streaming_read_offset r = 0" and "\<forall>n \<in> set ns. n < 2 ^ 64"
  shows "\<exists>r1 r2 r3. StreamingReadStart r = Ret (Some (of_nat (length x)), r1) \<and>
    StreamingRead_all r1 ns = Some (take (sum_list ns) x, r2) \<and>
    StreamingReadFinish r2 = (True, r3) \<and> reading r3 (seen @ [x]) todo \<and> contents r3 = contents r"
proof -
  obtain r1 where r1: "StreamingReadStart r = Ret (Some (of_nat (length x)), r1)"
      "sreading r1 seen x todo 0" "contents r1 = contents r"
    using StreamingReadStart_ok [OF assms(1,2)] by blast
  obtain r2 where r2: "StreamingRead_all r1 ns = Some (take (sum_list ns) x, r2)"
      "sreading r2 seen x todo (min (length x) (sum_list ns))" "contents r2 = contents r"
    using StreamingRead_all_ok [OF r1(2) assms(3)] r1(3) by auto
  from StreamingReadFinish_ok [OF r2(2)] r1(1) r2(1,3) show ?thesis by auto
qed

theorem streaming_read_witness:
  "\<exists>r1 r2 r3. StreamingReadStart sample = Ret (Some 3, r1) \<and>
    StreamingRead_all r1 [2, 5] = Some ([1, 2, 3], r2) \<and>
    StreamingReadFinish r2 = (True, r3) \<and> reading r3 [[1, 2, 3]] [[4, 5]]"
  using streaming_read [OF sample_reading, of "[2, 5]"] by (auto simp: sample_opened)

section \<open>Lengths\<close>

text \<open>C12: What \<^verbatim>\<open>Varint::Write\<close> stores in a buffer of \<^verbatim>\<open>kMaxSize\<close> bytes \<^verbatim>\<open>Varint::Read\<close> reads back,
  and both take the number of bytes \<^verbatim>\<open>ByteSize\<close> announces.\<close>

theorem varint_roundtrip:
  "\<exists>buf n. varint_Write v (replicate kMaxSize 0) = Ret buf \<and> varint_ByteSize v = Ret n \<and>
    varint_Read buf = Ret (n, v) \<and> 1 \<le> n \<and> n \<le> kMaxSize"
  using varint_Write_kMaxSize [of "replicate kMaxSize 0" v] varint_bytes_length [of v]
  by (auto simp: varint_ByteSize_eq varint_Read_bytes)

text \<open>C13: Below 2^53 the encoding is the shortest there is.\<close>

theorem varint_shortest:
  assumes "unat v < 2 ^ 53"
  shows "varint_ByteSize v = Ret (LEAST n. 1 \<le> n \<and> unat v < 2 ^ (n * 7))"
  using varint_bytes_length_small [OF assms] by (simp add: varint_ByteSize_eq)

theorem varint_shortest_witness: "varint_ByteSize 300 = Ret (LEAST n. 1 \<le> n \<and> (300 :: nat) < 2 ^ (n * 7))"
  using varint_shortest [of 300] by simp

section \<open>Files\<close>

text \<open>C14: \<^verbatim>\<open>Create\<close> makes an empty ring file of the size asked for, and a file closed after that
  opens again with the records it was closed with.\<close>

theorem create_open:
  assumes "files s path = None" and "refused s path = None" and "no_space s (unat sz) = None"
    and "mmap_works s" and "24 + kMaxSize \<le> unat sz" and "unat sz < 2 ^ 63"
  shows "\<exists>r s1. Ringfile_Create s r0 path sz = Ret (True, r, s1) \<and> holds r [] \<and> writable r \<and>
    capacity r = unat sz - 24 \<and>
    (\<forall>r' recs. same_object r r' \<longrightarrow> holds r' recs \<longrightarrow>
       (\<exists>r2. Ringfile_Open (ringfile_close s1 r') r1 path mode = Ret (True, r2, ringfile_close s1 r') \<and>
         reading r2 [] recs \<and> writable r2 = (mode = kAppend)))"
proof -
  obtain r s1 where r: "Ringfile_Create s r0 path sz = Ret (True, r, s1)" "holds r []" "opened r"
      "writable r" "capacity r = unat sz - 24" "file_path r = path"
      "s1 = s\<lparr>files := (files s)(path \<mapsto> contents r)\<rparr>"
    using Ringfile_Create_ok [OF assms, of r0] by blast
  have "\<exists>r2. Ringfile_Open (ringfile_close s1 r') r1 path mode = Ret (True, r2, ringfile_close s1 r') \<and>
         reading r2 [] recs \<and> writable r2 = (mode = kAppend)"
    if same: "same_object r r'" and h: "holds r' recs" for r' recs
  proof -
    have o: "opened r'" "file_path r' = path" using same_object_opened [OF same h r(3)] r(6) by simp_all
    then have "ringfile_close s1 r' = s1\<lparr>files := (files s1)(path \<mapsto> contents r')\<rparr>"
      by (simp add: opened_def ringfile_close_ok)
    then have s': "files (ringfile_close s1 r') path = Some (contents r')"
        "refused (ringfile_close s1 r') path = None" "mmap_works (ringfile_close s1 r')"
      using r(7) assms(2,4) by simp_all
    from Ringfile_Open_ok [OF holds_file_log [OF h] s', of r1 mode] show ?thesis by blast
  qed
  with r show ?thesis by blast
qed

theorem create_open_witness:
  "\<exists>r s1. Ringfile_Create sample_fs sample ''new'' 100 = Ret (True, r, s1) \<and> holds r [] \<and> capacity r = 76"
proof -
  have "\<exists>r s1. Ringfile_Create sample_fs sample ''new'' 100 = Ret (True, r, s1) \<and> holds r [] \<and>
      writable r \<and> capacity r = unat (100 :: u64) - 24 \<and> (\<forall>r' recs. same_object r r' \<longrightarrow> holds r' recs \<longrightarrow>
        (\<exists>r2. Ringfile_Open (ringfile_close s1 r') sample ''new'' kRead
            = Ret (True, r2, ringfile_close s1 r') \<and> reading r2 [] recs \<and> writable r2 = (kRead = kAppend)))"
    by (rule create_open) (simp_all add: sample_fs_def kMaxSize_def)
  then show ?thesis by auto
qed

section \<open>The interfaces\<close>

text \<open>The results of asking a Python \<^verbatim>\<open>Ringfile\<close> for its next record \<open>n\<close> times.\<close>

fun py_iterate :: "nat \<Rightarrow> py_ringfile \<Rightarrow> (py_result list \<times> py_ringfile) outcome" where
  "py_iterate 0 self = Ret ([], self)"
| "py_iterate (Suc n) self =
     obind (py_iternext self) (\<lambda>(x, self). obind (py_iterate n self) (\<lambda>(xs, self). Ret (x # xs, self)))"

lemma py_iterate_ok:
  assumes "reading r seen todo" and "[] \<notin> set todo"
  shows "\<exists>self. py_iterate n (Some r) =
      Ret (map PyBytes (take n todo) @ replicate (n - length todo) StopIteration, self) \<and>
    py_reading self (seen @ take n todo) (drop n todo)"
  using assms
proof (induction n arbitrary: r seen todo)
  case 0
  then show ?case by (simp add: py_reading_def)
next
  case (Suc n)
  show ?case
  proof (cases todo)
    case Nil
    with Suc.prems py_read_end have "py_iternext (Some r) = Ret (StopIteration, Some r)"
      by (simp add: py_iternext_def)
    with Suc.IH [OF Suc.prems] Nil show ?thesis by auto
  next
    case (Cons x rest)
    with Suc.prems obtain r1 where "py_read (Some r) = Ret (PyBytes x, Some r1)"
        "reading r1 (seen @ [x]) rest" using py_read_ok [of r seen x rest] by auto
    moreover from this have "py_iternext (Some r) = Ret (PyBytes x, Some r1)"
      by (simp add: py_iternext_def)
    ultimately show ?thesis using Suc.IH [of r1 "seen @ [x]" rest] Suc.prems Cons by auto
  qed
qed

text \<open>C15: Iterating over a Python \<^verbatim>\<open>Ringfile\<close> delivers every record once, in order, and then
  raises \<^verbatim>\<open>StopIteration\<close> however often it is asked.\<close>

theorem python_iteration:
  assumes "reading r seen todo" and "[] \<notin> set todo"
  shows "\<exists>self. py_iterate n (Some r) =
      Ret (map PyBytes (take n todo) @ replicate (n - length todo) StopIteration, self) \<and>
    py_reading self (seen @ take n todo) (drop n todo)"
  using py_iterate_ok [OF assms] .

theorem python_iteration_witness:
  "\<exists>self. py_iterate 3 (Some sample) = Ret ([PyBytes [1, 2, 3], PyBytes [4, 5], StopIteration], self)"
  using python_iteration [OF sample_reading, of 3] by (auto simp: numeral_3_eq_3)

text \<open>Clients that write one record after the other, through the C functions and through the
  Python type, and collect what each call returns.\<close>

fun c_write_all :: "int \<Rightarrow> ringfile \<Rightarrow> byte list list \<Rightarrow> (int list \<times> ringfile \<times> int) outcome" where
  "c_write_all errno r [] = Ret ([], r, errno)"
| "c_write_all errno r (x # xs) =
     obind (ringfile_write errno x (of_nat (length x)) r) (\<lambda>(rc, r, errno).
       obind (c_write_all errno r xs) (\<lambda>(rcs, r, errno). Ret (rc # rcs, r, errno)))"

fun py_write_all :: "py_ringfile \<Rightarrow> byte list list \<Rightarrow> (py_result list \<times> py_ringfile) outcome" where
  "py_write_all self [] = Ret ([], self)"
| "py_write_all self (x # xs) =
     obind (py_write self x) (\<lambda>(rv, self).
       obind (py_write_all self xs) (\<lambda>(rvs, self). Ret (rv # rvs, self)))"

definition written :: "nat \<Rightarrow> byte list list \<Rightarrow> byte list list \<Rightarrow> byte list list" where
  "written cap recs xs = foldl (ring_append cap) recs (filter (acceptable cap) xs)"

lemma written_Cons:
  "written cap recs (x # xs) = written cap (if acceptable cap x then ring_append cap recs x else recs) xs"
  by (simp add: written_def)

lemma written_append: "written cap recs (xs @ ys) = written cap (written cap recs xs) ys"
  by (simp add: written_def)

lemma c_write_all_ok:
  "writable_log r cap recs \<Longrightarrow> opened r \<Longrightarrow> \<forall>x \<in> set xs. x \<noteq> [] \<and> length x < 2 ^ 63 \<Longrightarrow>
    \<exists>r'. c_write_all errno r xs = Ret (map (\<lambda>x. if acceptable cap x then 0 else - 1) xs, r',
        if \<forall>x \<in> set xs. acceptable cap x then errno else rf_error r) \<and>
      writable_log r' cap (written cap recs xs) \<and> opened r' \<and> file_path r' = file_path r"
proof (induction xs arbitrary: r recs errno)
  case Nil
  then show ?case by (simp add: written_def)
next
  case (Cons x xs)
  then obtain r1 where r1: "Ringfile_Write r x (of_nat (length x)) = Ret (acceptable cap x, r1)"
      "writable_log r1 cap (if acceptable cap x then ring_append cap recs x else recs)"
      "opened r1" "file_path r1 = file_path r" "rf_error r1 = rf_error r"
    using Ringfile_Write_step [of r cap recs x] by auto
  define e where "e = (if acceptable cap x then errno else rf_error r)"
  have step: "ringfile_write errno x (of_nat (length x)) r = Ret (if acceptable cap x then 0 else - 1, r1, e)"
    using r1(1,5) by (simp add: ringfile_write_def e_def)
  obtain r2 where "c_write_all e r1 xs = Ret (map (\<lambda>x. if acceptable cap x then 0 else - 1) xs, r2,
        if \<forall>x \<in> set xs. acceptable cap x then e else rf_error r)"
      "writable_log r2 cap (written cap recs (x # xs))" "opened r2" "file_path r2 = file_path r"
    using Cons.IH [OF r1(2,3), of e, unfolded r1(4,5)] Cons.prems(3) by (auto simp: written_Cons)
  with step show ?case by (auto simp: e_def)
qed

lemma py_write_all_ok:
  "writable_log r cap recs \<Longrightarrow> opened r \<Longrightarrow> \<forall>x \<in> set xs. x \<noteq> [] \<and> length x < 2 ^ 63 \<Longrightarrow>
    \<exists>r'. py_write_all (Some r) xs =
        Ret (map (\<lambda>x. if acceptable cap x then PyNone else IOError (rf_error r)) xs, Some r') \<and>
      writable_log r' cap (written cap recs xs) \<and> opened r' \<and> file_path r' = file_path r"
proof (induction xs arbitrary: r recs)
  case Nil
  then show ?case by (simp add: written_def)
next
  case (Cons x xs)
  then obtain r1 where r1: "Ringfile_Write r x (of_nat (length x)) = Ret (acceptable cap x, r1)"
      "writable_log r1 cap (if acceptable cap x then ring_append cap recs x else recs)"
      "opened r1" "file_path r1 = file_path r" "rf_error r1 = rf_error r"
    using Ringfile_Write_step [of r cap recs x] by auto
  with Cons.IH [OF r1(2,3)] Cons.prems(3) show ?case
    by (auto simp: py_write_def on_impl_def written_def)
qed

text \<open>A log that is closed and opened again holds what it held.\<close>

lemma reopen:
  assumes "writable_log r cap recs" and "opened r" and "refused s (file_path r) = None" and "mmap_works s"
  shows "\<exists>r2. Ringfile_Open (ringfile_close s r) r0 (file_path r) mode = Ret (True, r2, ringfile_close s r) \<and>
    reading r2 [] recs \<and> opened r2 \<and> writable r2 = (mode = kAppend) \<and> capacity r2 = cap \<and>
    file_path r2 = file_path r \<and> rf_error r2 = rf_error r0 \<and>
    refused (ringfile_close s r) (file_path r) = None \<and> mmap_works (ringfile_close s r)"
proof -
  have h: "holds r recs" "capacity r = cap" using assms(1) by (simp_all add: writable_log_def)
  have c: "ringfile_close s r = s\<lparr>files := (files s)(file_path r \<mapsto> contents r)\<rparr>"
    using assms(2) by (simp add: opened_def ringfile_close_ok)
  have s': "files (ringfile_close s r) (file_path r) = Some (contents r)"
      "refused (ringfile_close s r) (file_path r) = None" "mmap_works (ringfile_close s r)"
    using c assms(3,4) by simp_all
  obtain r2 where r2: "Ringfile_Open (ringfile_close s r) r0 (file_path r) mode = Ret (True, r2, ringfile_close s r)"
      "reading r2 [] recs" "opened r2" "writable r2 = (mode = kAppend)" "contents r2 = contents r"
      "file_path r2 = file_path r" "rf_error r2 = rf_error r0"
    using Ringfile_Open_ok [OF holds_file_log [OF h(1)] s', of r0 mode] by blast
  have "holds r2 recs" using r2(2) by (simp add: reading_def)
  then have "capacity r2 = cap"
    using capacity_eq [OF holds_wf] h r2(5) by metis
  with r2 s' show ?thesis by blast
qed

lemma c_session:
  assumes "files s path = None" and "refused s path = None" and "no_space s (unat sz) = None"
    and "mmap_works s" and "unat sz = 24 + cap" and "kMaxSize \<le> cap" and "24 + cap < 2 ^ 63"
    and "\<forall>x \<in> set xs. x \<noteq> [] \<and> length x < 2 ^ 63"
  shows "\<exists>r s1 r1. ringfile_create u s errno path sz = Ret (Some r, s1, errno) \<and>
    c_write_all errno r xs = Ret (map (\<lambda>x. if acceptable cap x then 0 else - 1) xs, r1,
      if \<forall>x \<in> set xs. acceptable cap x then errno else u_error u) \<and>
    writable_log r1 cap (written cap [] xs) \<and> opened r1 \<and> file_path r1 = path \<and>
    refused s1 path = None \<and> mmap_works s1"
proof -
  have sz: "24 + kMaxSize \<le> unat sz" "unat sz < 2 ^ 63" using assms(5-7) by simp_all
  obtain r s1 where r: "Ringfile_Create s (Ringfile_init u) path sz = Ret (True, r, s1)" "holds r []"
      "opened r" "writable r" "capacity r = unat sz - 24" "file_path r = path"
      "rf_error r = u_error u" "s1 = s\<lparr>files := (files s)(path \<mapsto> contents r)\<rparr>"
    using Ringfile_Create_ok [OF assms(1-4) sz, of "Ringfile_init u"] by (auto simp: Ringfile_init_def)
  have "writable_log r cap []" using r assms(5) by (simp add: writable_log_def)
  from c_write_all_ok [OF this r(3) assms(8), of errno] r assms(2,4) show ?thesis
    by (auto simp: ringfile_create_def)
qed

lemma py_append_session:
  assumes "writable_log r cap recs" and "opened r" and "refused s (file_path r) = None" and "mmap_works s"
    and "\<forall>x \<in> set ys. x \<noteq> [] \<and> length x < 2 ^ 63"
  shows "\<exists>p p1 p2. py_init v (ringfile_close s r) (file_path r) kAppend = Ret (PyNone, p, ringfile_close s r) \<and>
    py_write_all p ys =
      Ret (map (\<lambda>x. if acceptable cap x then PyNone else IOError (u_error v)) ys, Some p1) \<and>
    py_close (ringfile_close s r) (Some p1) = Ret (PyNone, p2, ringfile_close (ringfile_close s r) p1) \<and>
    writable_log p1 cap (written cap recs ys) \<and> opened p1 \<and> file_path p1 = file_path r"
proof -
  from reopen [OF assms(1-4), of "Ringfile_init v" kAppend] obtain p where p:
      "Ringfile_Open (ringfile_close s r) (Ringfile_init v) (file_path r) kAppend = Ret (True, p, ringfile_close s r)"
      "opened p" "writable_log p cap recs" "file_path p = file_path r" "rf_error p = u_error v"
    by (auto simp: writable_log_def reading_def Ringfile_init_def)
  moreover have "\<exists>p2. py_close (ringfile_close s r) (Some p1)
      = Ret (PyNone, p2, ringfile_close (ringfile_close s r) p1)" for p1
    by (simp add: py_close_def on_impl_def ringfile_close_def split: prod.split)
  moreover note py_write_all_ok [OF p(3,2) assms(5)]
  ultimately show ?thesis by (auto simp: py_init_def)
qed

lemma py_read_session:
  assumes "writable_log r cap recs" and "opened r" and "refused s (file_path r) = None" and "mmap_works s"
    and "[] \<notin> set recs"
  shows "\<exists>q. py_init w (ringfile_close s r) (file_path r) kRead = Ret (PyNone, q, ringfile_close s r) \<and>
    (\<forall>n. \<exists>q'. py_iterate n q =
       Ret (map PyBytes (take n recs) @ replicate (n - length recs) StopIteration, q'))"
proof -
  obtain q where q: "Ringfile_Open (ringfile_close s r) (Ringfile_init w) (file_path r) kRead
      = Ret (True, q, ringfile_close s r)" "reading q [] recs"
    using reopen [OF assms(1-4), of "Ringfile_init w" kRead] by blast
  have "\<exists>q'. py_iterate n (Some q) =
      Ret (map PyBytes (take n recs) @ replicate (n - length recs) StopIteration, q')" for n
    using py_iterate_ok [OF q(2) assms(5)] by blast
  with q(1) show ?thesis by (auto simp: py_init_def)
qed

lemma written_nonempty: "[] \<notin> set (written cap [] xs)"
proof -
  obtain old where "filter (acceptable cap) xs = old @ written cap [] xs"
    using class_log.foldl_recent [of "[]" "filter (acceptable cap) xs" cap] by (auto simp: written_def)
  then have "set (written cap [] xs) \<subseteq> set (filter (acceptable cap) xs)" by simp
  then show ?thesis by (auto simp: acceptable_def)
qed

text \<open>C16: A file made and written through the C functions, written on through the Python type, and
  read through it again. Each write succeeds exactly if the record can fit at all; a refused
  one changes nothing, but the error it reports, in \<^verbatim>\<open>errno\<close> or as \<^verbatim>\<open>IOError\<close>, is whatever an
  uninitialised member held. The records read are the newest of those accepted, whichever
  interface they came through.\<close>

theorem c_and_python:
  assumes "files s path = None" and "refused s path = None" and "no_space s (unat sz) = None"
    and "mmap_works s" and "unat sz = 24 + cap" and "kMaxSize \<le> cap" and "24 + cap < 2 ^ 63"
    and "\<forall>x \<in> set (xs @ ys). x \<noteq> [] \<and> length x < 2 ^ 63"
  shows "\<exists>r s1 r1 p p1 p2 s3 q kept.
    ringfile_create u s errno path sz = Ret (Some r, s1, errno) \<and>
    c_write_all errno r xs = Ret (map (\<lambda>x. if acceptable cap x then 0 else - 1) xs, r1,
      if \<forall>x \<in> set xs. acceptable cap x then errno else u_error u) \<and>
    py_init v (ringfile_close s1 r1) path kAppend = Ret (PyNone, p, ringfile_close s1 r1) \<and>
    py_write_all p ys =
      Ret (map (\<lambda>x. if acceptable cap x then PyNone else IOError (u_error v)) ys, p1) \<and>
    py_close (ringfile_close s1 r1) p1 = Ret (PyNone, p2, s3) \<and>
    py_init w s3 path kRead = Ret (PyNone, q, s3) \<and>
    longest_suffix cap (since_full cap [] (filter (acceptable cap) (xs @ ys))) kept \<and>
    (never_full cap [] (filter (acceptable cap) (xs @ ys)) \<longrightarrow>
       longest_suffix cap (filter (acceptable cap) (xs @ ys)) kept) \<and>
    (\<forall>n. \<exists>q'. py_iterate n q =
       Ret (map PyBytes (take n kept) @ replicate (n - length kept) StopIteration, q'))"
proof -
  have ne: "\<forall>x \<in> set xs. x \<noteq> [] \<and> length x < 2 ^ 63" "\<forall>x \<in> set ys. x \<noteq> [] \<and> length x < 2 ^ 63"
    using assms(8) by auto
  obtain r s1 r1 where c: "ringfile_create u s errno path sz = Ret (Some r, s1, errno)"
      "c_write_all errno r xs = Ret (map (\<lambda>x. if acceptable cap x then 0 else - 1) xs, r1,
        if \<forall>x \<in> set xs. acceptable cap x then errno else u_error u)"
      "writable_log r1 cap (written cap [] xs)" "opened r1" "file_path r1 = path"
      "refused s1 path = None" "mmap_works s1"
    using c_session [OF assms(1-7) ne(1), of u errno] by blast
  have os1: "refused s1 (file_path r1) = None" using c(5,6) by simp
  obtain p p1 p2 where p: "py_init v (ringfile_close s1 r1) path kAppend = Ret (PyNone, p, ringfile_close s1 r1)"
      "py_write_all p ys = Ret (map (\<lambda>x. if acceptable cap x then PyNone else IOError (u_error v)) ys, Some p1)"
      "py_close (ringfile_close s1 r1) (Some p1) = Ret (PyNone, p2, ringfile_close (ringfile_close s1 r1) p1)"
      "writable_log p1 cap (written cap [] (xs @ ys))" "opened p1" "file_path p1 = path"
    using py_append_session [OF c(3,4) os1 c(7) ne(2), of v] unfolding c(5) written_append by blast
  have os: "refused (ringfile_close s1 r1) (file_path p1) = None" "mmap_works (ringfile_close s1 r1)"
    using c(4-7) p(6) by (simp_all add: opened_def ringfile_close_ok)
  obtain q where q: "py_init w (ringfile_close (ringfile_close s1 r1) p1) path kRead
        = Ret (PyNone, q, ringfile_close (ringfile_close s1 r1) p1)"
      "\<forall>n. \<exists>q'. py_iterate n q = Ret (map PyBytes (take n (written cap [] (xs @ ys)))
        @ replicate (n - length (written cap [] (xs @ ys))) StopIteration, q')"
    using py_read_session [OF p(4,5) os written_nonempty, of w] unfolding p(6) by blast
  have "longest_suffix cap (since_full cap [] (filter (acceptable cap) (xs @ ys))) (written cap [] (xs @ ys)) \<and>
      (never_full cap [] (filter (acceptable cap) (xs @ ys)) \<longrightarrow>
         longest_suffix cap (filter (acceptable cap) (xs @ ys)) (written cap [] (xs @ ys)))"
    using appended_latest [of "[]" cap "filter (acceptable cap) (xs @ ys)"]
    by (simp add: written_def del: filter_append)
  with c(1,2) p(1-3) q show ?thesis by blast
qed

theorem c_and_python_witness:
  "\<exists>r s1 r1 p p1 p2 s3 q q'.
    ringfile_create no_members sample_fs 7 ''new'' 64 = Ret (Some r, s1, 7) \<and>
    c_write_all 7 r [[1, 2, 3], replicate 39 0] = Ret ([0, - 1], r1, 0) \<and>
    py_init no_members (ringfile_close s1 r1) ''new'' kAppend = Ret (PyNone, p, ringfile_close s1 r1) \<and>
    py_write_all p [replicate 34 8, [5]] = Ret ([PyNone, PyNone], p1) \<and>
    py_close (ringfile_close s1 r1) p1 = Ret (PyNone, p2, s3) \<and>
    py_init no_members s3 ''new'' kRead = Ret (PyNone, q, s3) \<and>
    py_iterate 3 q = Ret ([PyBytes (replicate 34 8), PyBytes [5], StopIteration], q')"
proof -
  let ?xs = "[[1, 2, 3], replicate 39 0] :: byte list list"
  let ?ys = "[replicate 34 8, [5]] :: byte list list"
  let ?all = "[[1, 2, 3], replicate 34 8, [5]] :: byte list list"
  have acc: "acceptable 40 [1, 2, 3]" "\<not> acceptable 40 (replicate 39 0)" "acceptable 40 (replicate 34 8)"
      "acceptable 40 [5]"
    by (simp_all add: acceptable_def record_cost_1)
  have all: "filter (acceptable 40) (?xs @ ?ys) = ?all" using acc by simp
  have never: "never_full 40 [] ?all"
    by (simp add: never_full_Cons newest_def record_cost_1) (simp add: never_full_def)
  have pre: "files sample_fs ''new'' = None" "refused sample_fs ''new'' = None"
      "no_space sample_fs (unat (64 :: u64)) = None" "mmap_works sample_fs" "unat (64 :: u64) = 24 + 40"
      "kMaxSize \<le> 40" "24 + 40 < (2 :: nat) ^ 63"
      "\<forall>x \<in> set (?xs @ ?ys). x \<noteq> [] \<and> length x < 2 ^ 63"
    by (simp_all add: sample_fs_def kMaxSize_def)
  obtain r s1 r1 p p1 p2 s3 q kept where r:
      "ringfile_create no_members sample_fs 7 ''new'' 64 = Ret (Some r, s1, 7)"
      "c_write_all 7 r ?xs = Ret (map (\<lambda>x. if acceptable 40 x then 0 else - 1) ?xs, r1,
        if \<forall>x \<in> set ?xs. acceptable 40 x then 7 else u_error no_members)"
      "py_init no_members (ringfile_close s1 r1) ''new'' kAppend = Ret (PyNone, p, ringfile_close s1 r1)"
      "py_write_all p ?ys =
        Ret (map (\<lambda>x. if acceptable 40 x then PyNone else IOError (u_error no_members)) ?ys, p1)"
      "py_close (ringfile_close s1 r1) p1 = Ret (PyNone, p2, s3)"
      "py_init no_members s3 ''new'' kRead = Ret (PyNone, q, s3)"
      "never_full 40 [] ?all \<longrightarrow> longest_suffix 40 ?all kept"
      "\<forall>n. \<exists>q'. py_iterate n q =
         Ret (map PyBytes (take n kept) @ replicate (n - length kept) StopIteration, q')"
    using c_and_python [OF pre, of no_members 7 no_members no_members] unfolding all by blast
  have "kept = [replicate 34 8, [5]]"
    using latest_eq [of 40 "[]" ?all kept] r(7) never by (simp add: newest_def record_cost_1)
  with r(8) have "\<exists>q'. py_iterate 3 q = Ret ([PyBytes (replicate 34 8), PyBytes [5], StopIteration], q')"
    by (auto simp: numeral_3_eq_3 dest: spec [of _ 3])
  with r(1-6) acc show ?thesis by (simp add: no_members_def)
qed

text \<open>C17: The command line tool: \<^verbatim>\<open>--append\<close> of lines to a ring file and a later read print,
  each on a line, the longest run of the newest of the records that were there and the lines
  that fits; of those since the file was last filled to the last byte, if it was.\<close>

theorem append_then_read:
  assumes "file_log xs recs" and "[] \<notin> set recs" and "files s (c_path c) = Some xs"
    and "refused s (c_path c) = None" and "mmap_works s" and "c_path c2 = c_path c"
    and "\<forall>x \<in> set (getlines [] (c_stdin c)). acceptable (length xs - 24) x"
  shows "\<exists>c1 s1 kept. Command_Write u strerror s c = Ret (True, c1, s1) \<and>
    Command_Read u strerror s1 c2 =
      Some (Ret (True, c2\<lparr>c_stdout := c_stdout c2 @ concat (map (\<lambda>x. x @ [10]) kept)\<rparr>, s1)) \<and>
    longest_suffix (length xs - 24) (since_full (length xs - 24) recs (getlines [] (c_stdin c))) kept \<and>
    (never_full (length xs - 24) recs (getlines [] (c_stdin c)) \<longrightarrow>
       longest_suffix (length xs - 24) (recs @ getlines [] (c_stdin c)) kept)"
proof -
  define kept where "kept = foldl (ring_append (length xs - 24)) recs (getlines [] (c_stdin c))"
  have "log_cost recs \<le> length xs - 24" using assms(1) by (simp add: file_log_def)
  note latest = appended_latest [OF this assms(7), folded kept_def]
  obtain old where old: "recs @ getlines [] (c_stdin c) = old @ kept"
    using class_log.foldl_recent kept_def by blast
  obtain xs' where w: "Command_Write u strerror s c =
      Ret (True, c\<lparr>c_stdin := []\<rparr>, s\<lparr>files := (files s)(c_path c \<mapsto> xs')\<rparr>)" "file_log xs' kept"
    using Command_Write_ok [OF assms(1,3,4,5,7), of u strerror] by (auto simp: kept_def)
  define s1 where "s1 = s\<lparr>files := (files s)(c_path c \<mapsto> xs')\<rparr>"
  have "[] \<notin> set (recs @ getlines [] (c_stdin c))"
    using assms(2,7) by (auto simp: acceptable_def)
  then have "[] \<notin> set kept" using old by simp
  then have "Command_Read u strerror s1 c2 =
      Some (Ret (True, c2\<lparr>c_stdout := c_stdout c2 @ concat (map (\<lambda>x. x @ [10]) kept)\<rparr>, s1))"
    using assms(4-6) by (intro Command_Read_ok [OF w(2)]) (simp_all add: s1_def)
  with w(1) latest show ?thesis unfolding s1_def [symmetric] by blast
qed

theorem append_then_read_witness:
  "\<exists>c1 s1. Command_Write no_members (\<lambda>_. []) sample_fs
      ((Command_init (replicate 35 65 @ [10, 67, 10]))\<lparr>c_path := ''log''\<rparr>) = Ret (True, c1, s1) \<and>
    Command_Read no_members (\<lambda>_. []) s1 ((Command_init [])\<lparr>c_path := ''log''\<rparr>) =
      Some (Ret (True, (Command_init [])\<lparr>c_path := ''log'',
        c_stdout := replicate 35 65 @ [10, 67, 10]\<rparr>, s1))"
proof -
  let ?c = "(Command_init (replicate 35 65 @ [10, 67, 10]))\<lparr>c_path := ''log''\<rparr>"
  let ?c2 = "(Command_init [])\<lparr>c_path := ''log''\<rparr>"
  let ?recs = "[[1, 2, 3], [4, 5]] :: byte list list"
  let ?ls = "[replicate 35 65, [67]] :: byte list list"
  have ls: "getlines [] (c_stdin ?c) = ?ls"
    using getlines_all [of ?ls] by (simp add: Command_init_def)
  have "\<forall>x \<in> set (getlines [] (c_stdin ?c)). acceptable (length sample_file - 24) x"
    unfolding ls by (simp add: acceptable_def record_cost_1 sample_fields)
  from append_then_read [OF sample_file_log, of sample_fs ?c ?c2, OF _ _ _ _ _ this, of no_members "\<lambda>_. []"]
  obtain c1 s1 kept where r: "Command_Write no_members (\<lambda>_. []) sample_fs ?c = Ret (True, c1, s1)"
      "Command_Read no_members (\<lambda>_. []) s1 ?c2 =
        Some (Ret (True, ?c2\<lparr>c_stdout := c_stdout ?c2 @ concat (map (\<lambda>x. x @ [10]) kept)\<rparr>, s1))"
      "never_full 40 ?recs ?ls \<longrightarrow> longest_suffix 40 (?recs @ ?ls) kept"
    unfolding ls by (auto simp: sample_fields)
  moreover have "never_full 40 ?recs ?ls"
    by (simp add: never_full_Cons newest_def record_cost_1) (simp add: never_full_def)
  ultimately have "kept = ?ls"
    using latest_eq [of 40 ?recs ?ls kept] by (simp add: newest_def record_cost_1)
  with r(1,2) show ?thesis by (auto simp: Command_init_def)
qed

text \<open>With \<^verbatim>\<open>--size\<close>, \<^verbatim>\<open>--append\<close> to a file that does not exist creates it and stores the lines.\<close>

theorem append_creates:
  assumes "files s (c_path c) = None" and "refused s (c_path c) = None" and "mmap_works s"
    and "no_space s (nat (c_size c)) = None"
    and "int (24 + kMaxSize) \<le> c_size c" and "c_size c < 2 ^ 63"
    and "\<forall>x \<in> set (getlines [] (c_stdin c)). acceptable (nat (c_size c) - 24) x"
  shows "\<exists>xs. Command_Write u strerror s c =
      Ret (True, c\<lparr>c_stdin := []\<rparr>, s\<lparr>files := (files s)(c_path c \<mapsto> xs)\<rparr>) \<and>
    length xs = nat (c_size c) \<and>
    file_log xs (foldl (ring_append (nat (c_size c) - 24)) [] (getlines [] (c_stdin c)))"
  using Command_Write_new [OF assms] .

theorem append_creates_witness:
  "\<exists>c1 s1 xs. Command_Write no_members (\<lambda>_. []) sample_fs
      ((Command_init [65, 10])\<lparr>c_path := ''new'', c_size := 100\<rparr>) = Ret (True, c1, s1) \<and>
    files s1 ''new'' = Some xs \<and> file_log xs [[65]]"
  using append_creates [of sample_fs "(Command_init [65, 10])\<lparr>c_path := ''new'', c_size := 100\<rparr>"
      no_members "\<lambda>_. []"]
  by (auto simp: Command_init_def sample_fs_def kMaxSize_def acceptable_def record_cost_1
      ring_append_def exact_fill_def log_append_def)

text \<open>C18: \<^verbatim>\<open>--size\<close> reads a decimal number back, scaled by its unit; a product beyond the \<^verbatim>\<open>long\<close> it
  is stored in is undefined.\<close>

theorem size_option:
  assumes "0 < n" and "n < 2 ^ 63"
  shows "parse_size (show_nat n) c = Ret (None, c\<lparr>c_size := int n\<rparr>) \<and>
    parse_size (show_nat n @ ''k'') c =
      (if int n * 2 ^ 10 \<le> long_max then Ret (None, c\<lparr>c_size := int n * 2 ^ 10\<rparr>) else Undef) \<and>
    parse_size (show_nat n @ ''M'') c =
      (if int n * 2 ^ 20 \<le> long_max then Ret (None, c\<lparr>c_size := int n * 2 ^ 20\<rparr>) else Undef) \<and>
    parse_size (show_nat n @ ''G'') c =
      (if int n * 2 ^ 30 \<le> long_max then Ret (None, c\<lparr>c_size := int n * 2 ^ 30\<rparr>) else Undef)"
  using parse_size_ok [OF assms, of c] by (simp add: scale_size_def)

theorem size_option_witness:
  "parse_size ''64k'' (Command_init []) = Ret (None, (Command_init [])\<lparr>c_size := 65536\<rparr>)"
proof -
  have "show_nat 64 = ''64''" by code_simp
  then show ?thesis using size_option [of 64 "Command_init []"] by (simp add: long_max_def)
qed

text \<open>The operand is the path and the option the mode; without one the mode is reading, and
  two modes are refused.\<close>

theorem parse_modes:
  assumes "\<not> starts_with path ''-''" and "c_mode c = ModeUnspecified"
  shows "Parse [p, path] c = Ret (True, c\<lparr>c_program := p, c_mode := ModeRead, c_path := path\<rparr>) \<and>
    Parse [p, ''--append'', path] c = Ret (True, c\<lparr>c_program := p, c_mode := ModeAppend, c_path := path\<rparr>) \<and>
    Parse [p, ''-S'', path] c = Ret (True, c\<lparr>c_program := p, c_mode := ModeStat, c_path := path\<rparr>) \<and>
    (\<exists>c'. Parse [p, ''-a'', ''-S'', path] c = Ret (False, c'))"
  using Parse_ok [OF assms] Parse_two_modes [OF assms(2)] by simp

theorem parse_modes_witness:
  "Parse [''ringfile'', ''-S'', ''log''] (Command_init []) =
     Ret (True, (Command_init [])\<lparr>c_program := ''ringfile'', c_mode := ModeStat, c_path := ''log''\<rparr>)"
  using parse_modes [of "''log''" "Command_init []" "''ringfile''"] by (simp add: Command_init_def)



end
