(* ===== verification/Regex.thy ===== *)
theory Regex
  imports Py_Str
begin

text \<open>
  Python's \<^verbatim>\<open>re\<close> as far as \<^verbatim>\<open>tools/cpplint.py\<close> uses it: the patterns as a datatype, and the
  backtracking matcher as the list of its successes in the order the engine tries them, so
  that the first one is the match Python returns. The lemmas say what every match and every
  search satisfies.
\<close>

section \<open>Patterns\<close>

text \<open>The members of a character class: a character, a range, \<^verbatim>\<open>\d\<close>, \<^verbatim>\<open>\s\<close>, \<^verbatim>\<open>\S\<close>, \<^verbatim>\<open>\w\<close>, \<^verbatim>\<open>\W\<close>.\<close>

datatype citem = C char | Rng char char | Dig | Spc | NSpc | Wrd | NWrd

fun in_item :: "char \<Rightarrow> citem \<Rightarrow> bool" where
  "in_item c (C d) = (c = d)"
| "in_item c (Rng a b) = (code a \<le> code c \<and> code c \<le> code b)"
| "in_item c Dig = is_digit c"
| "in_item c Spc = is_space c"
| "in_item c NSpc = (\<not> is_space c)"
| "in_item c Wrd = is_word c"
| "in_item c NWrd = (\<not> is_word c)"

fun in_class :: "char \<Rightarrow> citem list \<Rightarrow> bool" where
  "in_class c [] = False"
| "in_class c (i # is) = (in_item c i \<or> in_class c is)"

text \<open>
  \<open>Rep g lo hi r\<close> repeats \<open>r\<close> at least \<open>lo\<close> and at most \<open>hi\<close> times (\<open>None\<close>: any number), as
  often as possible when \<open>g\<close> is true and as seldom as possible otherwise. \<open>Look b r\<close> is
  \<^verbatim>\<open>(?=r)\<close> or, for \<open>b\<close> false, \<^verbatim>\<open>(?!r)\<close>.
\<close>

datatype regex =
    Eps
  | Str string
  | Set "citem list"
  | NSet "citem list"
  | Dot
  | Cat regex regex
  | Alt regex regex
  | Rep bool nat "nat option" regex
  | Grp nat regex
  | Ref nat
  | Bol
  | Eol
  | WordB
  | Look bool regex

fun seq :: "regex list \<Rightarrow> regex" where
  "seq [] = Eps"
| "seq [r] = r"
| "seq (r # rs) = Cat r (seq rs)"

fun alts :: "regex list \<Rightarrow> regex" where
  "alts [] = NSet []"
| "alts [r] = r"
| "alts (r # rs) = Alt r (alts rs)"

text \<open>\<^verbatim>\<open>r*\<close>, \<^verbatim>\<open>r+\<close> and \<^verbatim>\<open>r?\<close>.\<close>

definition many :: "regex \<Rightarrow> regex" where "many r = Rep True 0 None r"
definition some :: "regex \<Rightarrow> regex" where "some r = Rep True 1 None r"
definition opt :: "regex \<Rightarrow> regex" where "opt r = Rep True 0 (Some 1) r"

section \<open>The matcher\<close>

text \<open>
  Where the engine stands: the position, the character before it, the text after it and
  what the groups have captured (start and text, the last capture first).
\<close>

datatype cursor =
  Cursor (pos: nat) (before: "char option") (ahead: string) (caps: "(nat \<times> nat \<times> string) list")

definition step :: "(char \<Rightarrow> bool) \<Rightarrow> cursor \<Rightarrow> cursor list" where
  "step p st = (case ahead st of [] \<Rightarrow> []
     | c # cs \<Rightarrow> if p c then [Cursor (Suc (pos st)) (Some c) cs (caps st)] else [])"

definition skip :: "string \<Rightarrow> cursor \<Rightarrow> cursor list" where
  "skip w st =
     (if starts_with (ahead st) w
      then [Cursor (pos st + length w) (if w = [] then before st else Some (last w))
              (drop (length w) (ahead st)) (caps st)]
      else [])"

text \<open>
  At least \<open>lo\<close> rounds, then up to \<open>n\<close> more. A round after the first \<open>lo\<close> must consume
  something, which is how the engine leaves a loop over an empty match, so the length of the
  text ahead bounds the rounds of an unlimited repetition.
\<close>

primrec loop :: "(cursor \<Rightarrow> cursor list) \<Rightarrow> bool \<Rightarrow> nat \<Rightarrow> cursor \<Rightarrow> cursor list" where
  "loop f g 0 st = [st]"
| "loop f g (Suc n) st =
     (let more = concat (map (loop f g n) (filter (\<lambda>st'. pos st < pos st') (f st)))
      in if g then more @ [st] else st # more)"

primrec rounds :: "(cursor \<Rightarrow> cursor list) \<Rightarrow> nat \<Rightarrow> cursor \<Rightarrow> cursor list" where
  "rounds f 0 st = [st]"
| "rounds f (Suc n) st = concat (map (rounds f n) (f st))"

definition word_at :: "char option \<Rightarrow> bool" where
  "word_at c = (case c of None \<Rightarrow> False | Some c \<Rightarrow> is_word c)"

definition next_char :: "string \<Rightarrow> char option" where
  "next_char s = (case s of [] \<Rightarrow> None | c # _ \<Rightarrow> Some c)"

primrec run :: "regex \<Rightarrow> cursor \<Rightarrow> cursor list" where
  "run Eps st = [st]"
| "run (Str w) st = skip w st"
| "run (Set is) st = step (\<lambda>c. in_class c is) st"
| "run (NSet is) st = step (\<lambda>c. \<not> in_class c is) st"
| "run Dot st = step (\<lambda>c. c \<noteq> CHR 0x0A) st"
| "run (Cat a b) st = concat (map (run b) (run a st))"
| "run (Alt a b) st = run a st @ run b st"
| "run (Rep g lo hi r) st =
     concat (map (\<lambda>st. loop (run r) g
         (case hi of None \<Rightarrow> length (ahead st) | Some h \<Rightarrow> h - lo) st)
       (rounds (run r) lo st))"
| "run (Grp n r) st =
     map (\<lambda>st'. Cursor (pos st') (before st') (ahead st')
           ((n, pos st, take (pos st' - pos st) (ahead st)) # caps st')) (run r st)"
| "run (Ref n) st =
     (case map_of (caps st) n of None \<Rightarrow> [] | Some (_, w) \<Rightarrow> skip w st)"
| "run Bol st = (if before st = None then [st] else [])"
| "run Eol st = (if ahead st = [] \<or> ahead st = [CHR 0x0A] then [st] else [])"
| "run WordB st = (if word_at (before st) \<noteq> word_at (next_char (ahead st)) then [st] else [])"
| "run (Look b r) st =
     (case run r st of
        [] \<Rightarrow> if b then [] else [st]
      | st' # _ \<Rightarrow> if b then [Cursor (pos st) (before st) (ahead st) (caps st')] else [])"

text \<open>A match object: what each group captured; group 0 is the whole match.\<close>

datatype rmatch = RMatch (captures: "(nat \<times> nat \<times> string) list")

definition group :: "nat \<Rightarrow> rmatch \<Rightarrow> string option" where
  "group n m = map_option snd (map_of (captures m) n)"

text \<open>The text of a group that takes part in every match of its pattern.\<close>

definition grp :: "nat \<Rightarrow> rmatch \<Rightarrow> string" where
  "grp n m = (case group n m of None \<Rightarrow> [] | Some w \<Rightarrow> w)"

definition m_start :: "nat \<Rightarrow> rmatch \<Rightarrow> nat" where
  "m_start n m = (case map_of (captures m) n of None \<Rightarrow> 0 | Some (i, _) \<Rightarrow> i)"

definition m_end :: "nat \<Rightarrow> rmatch \<Rightarrow> nat" where
  "m_end n m = m_start n m + length (grp n m)"

definition match_at :: "regex \<Rightarrow> cursor \<Rightarrow> rmatch option" where
  "match_at r st = (case run (Grp 0 r) st of [] \<Rightarrow> None | st' # _ \<Rightarrow> Some (RMatch (caps st')))"

definition re_match :: "regex \<Rightarrow> string \<Rightarrow> rmatch option" where
  "re_match r s = match_at r (Cursor 0 None s [])"

fun search_from :: "regex \<Rightarrow> nat \<Rightarrow> char option \<Rightarrow> string \<Rightarrow> rmatch option" where
  "search_from r i b s =
     (case match_at r (Cursor i b s []) of
        Some m \<Rightarrow> Some m
      | None \<Rightarrow> (case s of [] \<Rightarrow> None | c # cs \<Rightarrow> search_from r (Suc i) (Some c) cs))"

declare search_from.simps [simp del]

definition re_search :: "regex \<Rightarrow> string \<Rightarrow> rmatch option" where
  "re_search r s = search_from r 0 None s"

definition matches :: "regex \<Rightarrow> string \<Rightarrow> bool" where
  "matches r s \<longleftrightarrow> re_match r s \<noteq> None"

definition searches :: "regex \<Rightarrow> string \<Rightarrow> bool" where
  "searches r s \<longleftrightarrow> re_search r s \<noteq> None"

text \<open>
  Every match from left to right, as \<^verbatim>\<open>finditer\<close> and \<^verbatim>\<open>sub\<close> go through them: after a match the
  search goes on behind it, and one character further when the match was empty. The first
  argument bounds the number of matches; the length of the text and one more are enough.
\<close>

fun matches_from :: "nat \<Rightarrow> regex \<Rightarrow> nat \<Rightarrow> char option \<Rightarrow> string \<Rightarrow> rmatch list" where
  "matches_from 0 r i b s = []"
| "matches_from (Suc n) r i b s =
     (case search_from r i b s of
        None \<Rightarrow> []
      | Some m \<Rightarrow>
          let k = m_end 0 m - i + (if grp 0 m = [] then 1 else 0)
          in if length s < k then [m]
             else m # matches_from n r (i + k)
                    (if k = 0 then b else Some (s ! (k - 1))) (drop k s))"

definition all_matches :: "regex \<Rightarrow> string \<Rightarrow> rmatch list" where
  "all_matches r s = matches_from (Suc (length s)) r 0 None s"

text \<open>\<^verbatim>\<open>sub\<close> with a replacement computed from the match.\<close>

fun splice :: "(rmatch \<Rightarrow> string) \<Rightarrow> rmatch list \<Rightarrow> nat \<Rightarrow> string \<Rightarrow> string" where
  "splice f [] i s = drop i s"
| "splice f (m # ms) i s =
     take (m_start 0 m - i) (drop i s) @ f m @ splice f ms (m_end 0 m) s"

text \<open>An empty match right behind another match is not replaced.\<close>

fun drop_adjacent :: "nat option \<Rightarrow> rmatch list \<Rightarrow> rmatch list" where
  "drop_adjacent e [] = []"
| "drop_adjacent e (m # ms) =
     (if grp 0 m = [] \<and> e = Some (m_start 0 m) then drop_adjacent e ms
      else m # drop_adjacent (Some (m_end 0 m)) ms)"

definition re_sub :: "regex \<Rightarrow> (rmatch \<Rightarrow> string) \<Rightarrow> string \<Rightarrow> string" where
  "re_sub r f s = splice f (drop_adjacent None (all_matches r s)) 0 s"

section \<open>What every match satisfies\<close>

text \<open>The cursor moves to the right over the text ahead.\<close>

definition moved :: "cursor \<Rightarrow> cursor \<Rightarrow> bool" where
  "moved st st' \<longleftrightarrow> (\<exists>w. ahead st = w @ ahead st' \<and> pos st' = pos st + length w \<and>
     before st' = (if w = [] then before st else Some (last w)))"

lemma moved_refl [simp]: "moved st st"
  by (simp add: moved_def)

lemma moved_trans:
  assumes "moved a b" and "moved b c"
  shows "moved a c"
proof -
  obtain v where v: "ahead a = v @ ahead b" "pos b = pos a + length v"
      "before b = (if v = [] then before a else Some (last v))"
    using assms(1) by (auto simp: moved_def)
  obtain w where w: "ahead b = w @ ahead c" "pos c = pos b + length w"
      "before c = (if w = [] then before b else Some (last w))"
    using assms(2) by (auto simp: moved_def)
  show ?thesis unfolding moved_def by (rule exI [of _ "v @ w"]) (use v w in auto)
qed

lemma movedI:
  "ahead st = w @ s \<Longrightarrow> p = pos st + length w \<Longrightarrow> b = (if w = [] then before st else Some (last w)) \<Longrightarrow>
     moved st (Cursor p b s cs)"
  unfolding moved_def by (rule exI [of _ w]) simp

lemma step_moved: "st' \<in> set (step p st) \<Longrightarrow> moved st st'"
proof (cases "ahead st")
  case (Cons c cs)
  then show "st' \<in> set (step p st) \<Longrightarrow> moved st st'"
    using movedI [of st "[c]" cs] by (simp add: step_def split: if_splits)
qed (simp add: step_def)

lemma skip_moved: "st' \<in> set (skip w st) \<Longrightarrow> moved st st'"
  using movedI [of st w "drop (length w) (ahead st)"] starts_with_take [of "ahead st" w]
  by (simp add: skip_def split: if_split_asm)

lemma loop_cases:
  "st' \<in> set (loop f g (Suc n) st) \<longleftrightarrow>
     st' = st \<or> (\<exists>st1 \<in> set (f st). pos st < pos st1 \<and> st' \<in> set (loop f g n st1))"
  by (auto simp: Let_def)

lemma loop_moved:
  assumes f: "\<And>st st'. st' \<in> set (f st) \<Longrightarrow> moved st st'"
  shows "st' \<in> set (loop f g n st) \<Longrightarrow> moved st st'"
proof (induction n arbitrary: st)
  case 0
  then show ?case by simp
next
  case (Suc n)
  from Suc.prems [unfolded loop_cases] show ?case
    using Suc.IH f moved_trans moved_refl by blast
qed

lemma rounds_moved:
  assumes f: "\<And>st st'. st' \<in> set (f st) \<Longrightarrow> moved st st'"
  shows "st' \<in> set (rounds f n st) \<Longrightarrow> moved st st'"
proof (induction n arbitrary: st)
  case 0
  then show ?case by simp
next
  case (Suc n)
  then obtain st1 where "st1 \<in> set (f st)" "st' \<in> set (rounds f n st1)" by auto
  then show ?case using Suc.IH f moved_trans by blast
qed

lemma run_moved: "st' \<in> set (run r st) \<Longrightarrow> moved st st'"
proof (induction r arbitrary: st st')
  case (Cat a b)
  then show ?case by (fastforce intro: moved_trans)
next
  case (Rep g lo hi r)
  from Rep.prems obtain st1 n where
      "st1 \<in> set (rounds (run r) lo st)" "st' \<in> set (loop (run r) g n st1)" by auto
  then show ?case
    using rounds_moved [of "run r"] loop_moved [of "run r"] Rep.IH moved_trans by metis
next
  case (Grp n r)
  then show ?case by (fastforce simp: moved_def)
next
  case (Look b r)
  then show ?case by (auto simp: moved_def split: list.splits if_splits)
qed (auto intro: step_moved skip_moved split: option.splits if_splits)

text \<open>
  The match that \<^verbatim>\<open>re.match\<close> or \<^verbatim>\<open>re.search\<close> returns is a stretch of the text.
\<close>

lemma captures_at:
  assumes "match_at r (Cursor i b s []) = Some m"
  shows "m_start 0 m = i \<and> (\<exists>t. s = grp 0 m @ t)"
proof -
  obtain st where st: "st \<in> set (run r (Cursor i b s []))"
      and m: "captures m = (0, i, take (pos st - i) s) # caps st"
    using assms by (cases "run r (Cursor i b s [])") (fastforce simp: match_at_def)+
  from run_moved [OF st] obtain w where "s = w @ ahead st" "pos st = i + length w"
    by (auto simp: moved_def)
  with m show ?thesis by (simp add: m_start_def grp_def group_def)
qed

lemma re_match_text:
  assumes "re_match r s = Some m"
  shows "m_start 0 m = 0" and "\<exists>t. s = grp 0 m @ t"
  using captures_at [of r 0 None s m] assms by (simp_all add: re_match_def)

lemma search_from_text:
  "search_from r i b s = Some m \<Longrightarrow>
     \<exists>pre t. s = pre @ grp 0 m @ t \<and> m_start 0 m = i + length pre"
proof (induction r i b s rule: search_from.induct)
  case (1 r i b s)
  show ?case
  proof (cases "match_at r (Cursor i b s [])")
    case None
    with "1.prems" obtain c cs where s: "s = c # cs" "search_from r (Suc i) (Some c) cs = Some m"
      by (auto simp: search_from.simps [of r i b s] split: list.splits)
    with "1.IH" None obtain pre t where "cs = pre @ grp 0 m @ t" "m_start 0 m = Suc i + length pre"
      by blast
    with s have "s = (c # pre) @ grp 0 m @ t \<and> m_start 0 m = i + length (c # pre)" by simp
    then show ?thesis by blast
  next
    case (Some m')
    with "1.prems" have "m' = m" by (simp add: search_from.simps [of r i b s])
    with captures_at Some show ?thesis by (metis add.right_neutral append_Nil list.size(3))
  qed
qed

lemma re_search_text:
  "re_search r s = Some m \<Longrightarrow> \<exists>pre t. s = pre @ grp 0 m @ t \<and> m_start 0 m = length pre"
  using search_from_text [of r 0 None s m] by (simp add: re_search_def)

section \<open>The groups of a match\<close>

primrec groups :: "regex \<Rightarrow> nat set" where
  "groups Eps = {}"
| "groups (Str w) = {}"
| "groups (Set is) = {}"
| "groups (NSet is) = {}"
| "groups Dot = {}"
| "groups (Cat a b) = groups a \<union> groups b"
| "groups (Alt a b) = groups a \<union> groups b"
| "groups (Rep g lo hi r) = groups r"
| "groups (Grp n r) = insert n (groups r)"
| "groups (Ref n) = {}"
| "groups Bol = {}"
| "groups Eol = {}"
| "groups WordB = {}"
| "groups (Look b r) = groups r"

lemma groups_abbrevs [simp]:
  "groups (many r) = groups r" "groups (some r) = groups r" "groups (opt r) = groups r"
  by (simp_all add: many_def some_def opt_def)

text \<open>The patterns that take one character, and which.\<close>

fun class_of :: "regex \<Rightarrow> (char \<Rightarrow> bool) option" where
  "class_of (Str [d]) = Some (\<lambda>c. c = d)"
| "class_of (Set is) = Some (\<lambda>c. in_class c is)"
| "class_of (NSet is) = Some (\<lambda>c. \<not> in_class c is)"
| "class_of Dot = Some (\<lambda>c. c \<noteq> CHR 0x0A)"
| "class_of _ = None"

text \<open>The texts a pattern can take, whatever stands around them.\<close>

primrec lang :: "regex \<Rightarrow> string \<Rightarrow> bool" where
  "lang Eps w = (w = [])"
| "lang (Str v) w = (w = v)"
| "lang (Set is) w = (\<exists>c. w = [c] \<and> in_class c is)"
| "lang (NSet is) w = (\<exists>c. w = [c] \<and> \<not> in_class c is)"
| "lang Dot w = (\<exists>c. w = [c] \<and> c \<noteq> CHR 0x0A)"
| "lang (Cat a b) w = (\<exists>u v. w = u @ v \<and> lang a u \<and> lang b v)"
| "lang (Alt a b) w = (lang a w \<or> lang b w)"
| "lang (Rep g lo hi r) w = (\<exists>ws. w = concat ws \<and> lo \<le> length ws \<and> (\<forall>v \<in> set ws. lang r v))"
| "lang (Grp n r) w = lang r w"
| "lang (Ref n) w = True"
| "lang Bol w = (w = [])"
| "lang Eol w = (w = [])"
| "lang WordB w = (w = [])"
| "lang (Look b r) w = (w = [])"

lemma loop_caps:
  assumes f: "\<And>st st'. st' \<in> set (f st) \<Longrightarrow> caps st' = caps st"
  shows "st' \<in> set (loop f g n st) \<Longrightarrow> caps st' = caps st"
proof (induction n arbitrary: st)
  case 0
  then show ?case by simp
next
  case (Suc n)
  from Suc.prems [unfolded loop_cases] show ?case using Suc.IH f by metis
qed

lemma rounds_caps:
  assumes f: "\<And>st st'. st' \<in> set (f st) \<Longrightarrow> caps st' = caps st"
  shows "st' \<in> set (rounds f n st) \<Longrightarrow> caps st' = caps st"
proof (induction n arbitrary: st)
  case (Suc n)
  then obtain st1 where "st1 \<in> set (f st)" "st' \<in> set (rounds f n st1)" by auto
  then show ?case using Suc.IH f by metis
qed simp

lemma skip_caps: "st' \<in> set (skip w st) \<Longrightarrow> caps st' = caps st"
  by (simp add: skip_def split: if_splits)

lemma step_caps: "st' \<in> set (step p st) \<Longrightarrow> caps st' = caps st"
  by (auto simp: step_def split: list.splits if_splits)

lemma run_caps: "groups r = {} \<Longrightarrow> st' \<in> set (run r st) \<Longrightarrow> caps st' = caps st"
proof (induction r arbitrary: st st')
  case (Cat a b)
  then show ?case by fastforce
next
  case (Rep g lo hi r)
  from Rep.prems obtain st1 n where
      "st1 \<in> set (rounds (run r) lo st)" "st' \<in> set (loop (run r) g n st1)" by auto
  then show ?case
    using rounds_caps [of "run r"] loop_caps [of "run r"] Rep.IH Rep.prems(1) by (metis groups.simps(8))
next
  case (Look b r)
  then show ?case by (auto split: list.splits if_splits)
qed (auto dest: skip_caps step_caps split: option.splits if_splits)

text \<open>\<open>took st w st'\<close>: from \<open>st\<close> the engine has moved over \<open>w\<close> to \<open>st'\<close>.\<close>

definition took :: "cursor \<Rightarrow> string \<Rightarrow> cursor \<Rightarrow> bool" where
  "took st w st' \<longleftrightarrow> ahead st = w @ ahead st' \<and> pos st' = pos st + length w"

lemma took_Nil [simp]: "took st [] st"
  by (simp add: took_def)

lemma took_append: "took a v b \<Longrightarrow> took b w c \<Longrightarrow> took a (v @ w) c"
  by (simp add: took_def)

lemma loop_lang:
  assumes f: "\<And>st st'. st' \<in> set (f st) \<Longrightarrow> \<exists>w. took st w st' \<and> P w"
  shows "st' \<in> set (loop f g n st) \<Longrightarrow> \<exists>ws. took st (concat ws) st' \<and> (\<forall>w \<in> set ws. P w)"
proof (induction n arbitrary: st)
  case 0
  then have "took st (concat []) st'" by simp
  then show ?case by fastforce
next
  case (Suc n)
  from Suc.prems [unfolded loop_cases] show ?case
  proof
    assume "st' = st"
    then have "took st (concat []) st'" by simp
    then show ?thesis by fastforce
  next
    assume "\<exists>st1 \<in> set (f st). pos st < pos st1 \<and> st' \<in> set (loop f g n st1)"
    then obtain st1 w ws where "took st w st1" "P w" "took st1 (concat ws) st'" "\<forall>w \<in> set ws. P w"
      using f Suc.IH by meson
    then have "took st (concat (w # ws)) st'" "\<forall>v \<in> set (w # ws). P v"
      by (auto intro: took_append)
    then show ?thesis by blast
  qed
qed

lemma rounds_lang:
  assumes f: "\<And>st st'. st' \<in> set (f st) \<Longrightarrow> \<exists>w. took st w st' \<and> P w"
  shows "st' \<in> set (rounds f n st) \<Longrightarrow>
    \<exists>ws. took st (concat ws) st' \<and> (\<forall>w \<in> set ws. P w) \<and> length ws = n"
proof (induction n arbitrary: st)
  case 0
  then have "took st (concat []) st'" by simp
  then show ?case by fastforce
next
  case (Suc n)
  then obtain st1 where "st1 \<in> set (f st)" "st' \<in> set (rounds f n st1)" by auto
  then obtain w ws where "took st w st1" "P w" "took st1 (concat ws) st'" "\<forall>w \<in> set ws. P w"
      "length ws = n"
    using f Suc.IH by meson
  then have "took st (concat (w # ws)) st' \<and> (\<forall>v \<in> set (w # ws). P v) \<and> length (w # ws) = Suc n"
    by (auto intro: took_append)
  then show ?case by blast
qed

lemma skip_took: "st' \<in> set (skip w st) \<Longrightarrow> took st w st'"
  using starts_with_take [of "ahead st" w] by (auto simp: skip_def took_def split: if_splits)

lemma step_took: "st' \<in> set (step p st) \<Longrightarrow> \<exists>c. took st [c] st' \<and> p c"
  by (cases "ahead st") (auto simp: step_def took_def split: if_splits)

theorem run_lang: "st' \<in> set (run r st) \<Longrightarrow> \<exists>w. took st w st' \<and> lang r w"
proof (induction r arbitrary: st st')
  case (Str w)
  then show ?case using skip_took by auto
next
  case (Set "is")
  then obtain c where "took st [c] st'" "in_class c is" using step_took by force
  then show ?case by (intro exI [of _ "[c]"]) simp
next
  case (NSet "is")
  then obtain c where "took st [c] st'" "\<not> in_class c is" using step_took by force
  then show ?case by (intro exI [of _ "[c]"]) simp
next
  case Dot
  then obtain c where "took st [c] st'" "c \<noteq> CHR 0x0A" using step_took by force
  then show ?case by (intro exI [of _ "[c]"]) simp
next
  case (Cat a b)
  then obtain st1 where "st1 \<in> set (run a st)" "st' \<in> set (run b st1)" by auto
  then show ?case using Cat.IH took_append by (metis lang.simps(6))
next
  case (Alt a b)
  then show ?case by simp metis
next
  case (Rep g lo hi r)
  from Rep.prems obtain st1 n where
      st1: "st1 \<in> set (rounds (run r) lo st)" "st' \<in> set (loop (run r) g n st1)" by auto
  obtain vs where vs: "took st (concat vs) st1" "\<forall>v \<in> set vs. lang r v" "length vs = lo"
    using rounds_lang [where P = "lang r", OF Rep.IH st1(1)] by blast
  obtain ws where ws: "took st1 (concat ws) st'" "\<forall>w \<in> set ws. lang r w"
    using loop_lang [where P = "lang r", OF Rep.IH st1(2)] by blast
  have "took st (concat (vs @ ws)) st'" using took_append [OF vs(1) ws(1)] by simp
  moreover have "lang (Rep g lo hi r) (concat (vs @ ws))"
    unfolding lang.simps by (rule exI [of _ "vs @ ws"]) (use vs ws in auto)
  ultimately show ?case by blast
next
  case (Grp n r)
  then show ?case by (force simp: took_def)
next
  case (Ref n)
  then show ?case using skip_took by (auto split: option.splits)
next
  case (Look b r)
  then show ?case by (auto simp: took_def split: list.splits if_splits)
qed (auto split: if_splits)

text \<open>
  A sequence of patterns without groups in them, some of which are groups: what each took,
  and what the groups have captured.
\<close>

fun simple :: "regex \<Rightarrow> bool" where
  "simple (Grp n r) = (groups r = {})"
| "simple r = (groups r = {})"

fun seq_caps :: "regex list \<Rightarrow> nat \<Rightarrow> string list \<Rightarrow> (nat \<times> nat \<times> string) list \<Rightarrow>
    (nat \<times> nat \<times> string) list" where
  "seq_caps (Grp n r # rs) p (w # ws) cs = seq_caps rs (p + length w) ws ((n, p, w) # cs)"
| "seq_caps (r # rs) p (w # ws) cs = seq_caps rs (p + length w) ws cs"
| "seq_caps _ p _ cs = cs"

lemma simple_abbrevs [simp]:
  "simple (many r) = (groups r = {})" "simple (some r) = (groups r = {})"
  "simple (opt r) = (groups r = {})"
  by (simp_all add: many_def some_def opt_def)

lemma seq_caps_abbrevs [simp]:
  "seq_caps (many r # rs) p (w # ws) cs = seq_caps rs (p + length w) ws cs"
  "seq_caps (some r # rs) p (w # ws) cs = seq_caps rs (p + length w) ws cs"
  "seq_caps (opt r # rs) p (w # ws) cs = seq_caps rs (p + length w) ws cs"
  by (simp_all add: many_def some_def opt_def)

lemma run_simple:
  assumes "st' \<in> set (run r st)" and "simple r"
  shows "\<exists>w. took st w st' \<and> lang r w \<and> caps st' = seq_caps [r] (pos st) [w] (caps st)"
proof (cases "\<exists>n q. r = Grp n q")
  case True
  then obtain n q where r: "r = Grp n q" "groups q = {}" using assms(2) by auto
  then obtain st1 where st1: "st1 \<in> set (run q st)" "ahead st' = ahead st1" "pos st' = pos st1"
      "caps st' = (n, pos st, take (pos st1 - pos st) (ahead st)) # caps st1"
    using assms(1) by auto
  from run_lang [OF st1(1)] obtain w where "took st w st1" "lang q w" by blast
  with st1 run_caps [OF r(2) st1(1)] r show ?thesis by (auto simp: took_def)
next
  case False
  then have "groups r = {}" "seq_caps [r] (pos st) [w] cs = cs" for w cs
    using assms(2) by (cases r; auto)+
  with run_lang [OF assms(1)] run_caps [of r st' st] assms(1) show ?thesis by auto
qed

lemma seq_caps_Cons: "seq_caps (r # rs) p (w # ws) cs = seq_caps rs (p + length w) ws (seq_caps [r] p [w] cs)"
  by (cases r) simp_all

lemma run_seq_pieces:
  "st' \<in> set (run (seq rs) st) \<Longrightarrow> \<forall>r \<in> set rs. simple r \<Longrightarrow>
     \<exists>ws. took st (concat ws) st' \<and> list_all2 lang rs ws \<and>
          caps st' = seq_caps rs (pos st) ws (caps st)"
proof (induction rs arbitrary: st)
  case Nil
  then show ?case by simp
next
  case (Cons r rs)
  obtain st1 where st1: "st1 \<in> set (run r st)" "st' \<in> set (run (seq rs) st1)"
  proof (cases rs)
    case Nil
    with Cons.prems(1) show ?thesis by (intro that [of st']) simp_all
  next
    case (Cons q qs)
    with Cons.prems(1) that show ?thesis by auto
  qed
  obtain w where w: "took st w st1" "lang r w" "caps st1 = seq_caps [r] (pos st) [w] (caps st)"
    using run_simple [OF st1(1)] Cons.prems(2) by auto
  obtain ws where ws: "took st1 (concat ws) st'" "list_all2 lang rs ws"
      "caps st' = seq_caps rs (pos st1) ws (caps st1)"
    using Cons.IH [OF st1(2)] Cons.prems(2) by auto
  have "took st (concat (w # ws)) st'" using took_append [OF w(1) ws(1)] by simp
  moreover have "caps st' = seq_caps (r # rs) (pos st) (w # ws) (caps st)"
    using w ws by (subst seq_caps_Cons) (simp add: took_def)
  ultimately show ?case using w(2) ws(2) by (intro exI [of _ "w # ws"]) simp
qed

lemma lang_class: "class_of r = Some p \<Longrightarrow> lang r w \<longleftrightarrow> (\<exists>c. w = [c] \<and> p c)"
  by (cases r rule: class_of.cases) auto

lemma lang_many_class:
  assumes "class_of r = Some p"
  shows "lang (many r) w \<longleftrightarrow> (\<forall>c \<in> set w. p c)"
proof
  assume "lang (many r) w"
  then obtain ws where "w = concat ws" "\<forall>v \<in> set ws. \<exists>c. v = [c] \<and> p c"
    using lang_class [OF assms] by (auto simp: many_def)
  then show "\<forall>c \<in> set w. p c" by fastforce
next
  assume "\<forall>c \<in> set w. p c"
  then have "w = concat (map (\<lambda>c. [c]) w) \<and> (\<forall>v \<in> set (map (\<lambda>c. [c]) w). lang r v)"
    using lang_class [OF assms] by (auto simp: concat_map_singleton)
  then show "lang (many r) w" unfolding many_def lang.simps by (metis zero_le)
qed

lemma re_match_run:
  assumes "re_match r s = Some m"
  obtains st where "st \<in> set (run r (Cursor 0 None s []))"
    "captures m = (0, 0, take (pos st) s) # caps st"
proof (cases "run r (Cursor 0 None s [])")
  case Nil
  with assms show ?thesis by (simp add: re_match_def match_at_def)
next
  case (Cons st sts)
  with assms have "captures m = (0, 0, take (pos st) s) # caps st"
    by (auto simp: re_match_def match_at_def)
  with Cons show ?thesis by (intro that [of st]) simp_all
qed

lemma re_match_pieces:
  assumes "re_match (seq rs) s = Some m" and "\<forall>r \<in> set rs. simple r"
  obtains ws rest where "s = concat ws @ rest" "list_all2 lang rs ws"
    "captures m = (0, 0, concat ws) # seq_caps rs 0 ws []"
proof -
  obtain st where st: "st \<in> set (run (seq rs) (Cursor 0 None s []))"
      "captures m = (0, 0, take (pos st) s) # caps st"
    using assms(1) by (rule re_match_run)
  from run_seq_pieces [OF st(1) assms(2)] st(2) that show ?thesis by (auto simp: took_def)
qed

text \<open>A group at the end of a pattern, whatever groups stand before it.\<close>

lemma run_seq_Cons: "run (seq (r # rs)) st = concat (map (run (seq rs)) (run r st))"
proof (cases rs)
  case Nil
  have "run Eps = (\<lambda>st. [st])" by (rule ext) simp
  with Nil show ?thesis by (simp add: concat_map_singleton)
qed simp

lemma run_seq_append:
  "st' \<in> set (run (seq (xs @ ys)) st) \<longleftrightarrow>
     (\<exists>st1 \<in> set (run (seq xs) st). st' \<in> set (run (seq ys) st1))"
proof (induction xs arbitrary: st)
  case Nil
  show ?case by simp
next
  case (Cons x xs)
  then show ?case unfolding append_Cons run_seq_Cons by auto
qed

lemma re_match_last_group:
  assumes m: "re_match (seq (rs @ [Grp n r, Eol])) s = Some m" and r: "groups r = {}" and n: "n \<noteq> 0"
  shows "\<exists>u rest. s = u @ grp n m @ rest \<and> lang (seq rs) u \<and> lang r (grp n m)"
proof -
  obtain st where st: "st \<in> set (run (seq (rs @ [Grp n r, Eol])) (Cursor 0 None s []))"
      "captures m = (0, 0, take (pos st) s) # caps st"
    using m by (rule re_match_run)
  then obtain st1 where st1: "st1 \<in> set (run (seq rs) (Cursor 0 None s []))"
      "st \<in> set (run (seq [Grp n r, Eol]) st1)"
    unfolding run_seq_append by blast
  obtain u where u: "took (Cursor 0 None s []) u st1" "lang (seq rs) u"
    using run_lang [OF st1(1)] by blast
  have "\<forall>q \<in> set [Grp n r, Eol]. simple q" using r by simp
  from run_seq_pieces [OF st1(2) this] obtain ws where
      ws: "took st1 (concat ws) st" "list_all2 lang [Grp n r, Eol] ws"
      "caps st = seq_caps [Grp n r, Eol] (pos st1) ws (caps st1)" by blast
  then obtain w where "ws = [w, []]" "lang r w" by (auto simp: list_all2_Cons1)
  with ws st(2) n u show ?thesis by (auto simp: took_def grp_def group_def)
qed

section \<open>Runs of a character class\<close>

lemma skip_single: "skip [d] st = step (\<lambda>c. c = d) st"
  by (cases "ahead st") (auto simp: skip_def step_def)

lemma run_class: "class_of r = Some p \<Longrightarrow> run r st = step p st"
  by (cases r rule: class_of.cases) (auto simp: skip_single)

text \<open>Where the cursor stands after \<open>w\<close>.\<close>

definition after :: "cursor \<Rightarrow> string \<Rightarrow> cursor" where
  "after st w = Cursor (pos st + length w) (if w = [] then before st else Some (last w))
     (drop (length w) (ahead st)) (caps st)"

lemma after_Nil [simp]: "after st [] = st"
  by (cases st) (simp add: after_def)

lemma after_fields [simp]:
  "ahead (after st w) = drop (length w) (ahead st)" "pos (after st w) = pos st + length w"
  "caps (after st w) = caps st"
  by (simp_all add: after_def)

lemma after_after: "after (after st v) w = after st (v @ w)"
  by (simp add: after_def add.commute)

text \<open>
  Greedy repetition of a class stops after the longest stretch of the class, or after any
  shorter one when what follows wants more.
\<close>

lemma loop_step:
  "length (takeWhile p (ahead st)) \<le> n \<Longrightarrow>
     loop (step p) True n st =
       map (\<lambda>k. after st (take k (ahead st))) (rev [0..<Suc (length (takeWhile p (ahead st)))])"
proof (induction n arbitrary: st)
  case 0
  then show ?case by simp
next
  case (Suc n)
  show ?case
  proof (cases "ahead st")
    case Nil
    then show ?thesis by (simp add: step_def)
  next
    case (Cons c cs)
    show ?thesis
    proof (cases "p c")
      case False
      then show ?thesis using Cons by (simp add: step_def)
    next
      case True
      define st1 where "st1 = after st [c]"
      have st1: "ahead st1 = cs" using Cons by (simp add: st1_def)
      have "step p st = [st1]" using Cons True by (simp add: step_def st1_def after_def)
      moreover have "loop (step p) True n st1
          = map (\<lambda>k. after st1 (take k cs)) (rev [0..<Suc (length (takeWhile p cs))])"
        using Suc.IH [of st1] Suc.prems Cons True st1 by simp
      moreover have "after st1 (take k cs) = after st (take (Suc k) (ahead st))" for k
        using Cons by (simp add: st1_def after_after)
      moreover have "map (\<lambda>k. after st (take k (ahead st))) (rev [0..<Suc (length (takeWhile p (ahead st)))])
          = map (\<lambda>k. after st (take (Suc k) (ahead st))) (rev [0..<Suc (length (takeWhile p cs))]) @ [st]"
        using Cons True by (simp add: upt_conv_Cons rev_map [symmetric] map_Suc_upt [symmetric]
            del: upt_Suc map_Suc_upt)
      ultimately show ?thesis using st1 by (simp add: st1_def del: upt_Suc)
    qed
  qed
qed

lemma run_many_class:
  assumes "class_of r = Some p"
  shows "run (many r) st =
    map (\<lambda>k. after st (take k (ahead st))) (rev [0..<Suc (length (takeWhile p (ahead st)))])"
proof -
  have "run r = step p" by (rule ext) (rule run_class [OF assms])
  then have "run (many r) st = loop (step p) True (length (ahead st)) st"
    by (simp add: many_def)
  then show ?thesis using loop_step [of p st "length (ahead st)"] by (simp add: length_takeWhile_le)
qed

lemma run_many_first:
  assumes "class_of r = Some p"
  shows "\<exists>sts. run (many r) st = after st (takeWhile p (ahead st)) # sts"
  unfolding run_many_class [OF assms] by (simp add: takeWhile_eq_take [symmetric])

text \<open>Following the first success through a pattern.\<close>

definition first :: "regex \<Rightarrow> cursor \<Rightarrow> cursor \<Rightarrow> bool" where
  "first r st st' \<longleftrightarrow> (\<exists>sts. run r st = st' # sts)"

lemma first_Cat: "first a st st1 \<Longrightarrow> first b st1 st2 \<Longrightarrow> first (Cat a b) st st2"
  by (auto simp: first_def)

lemma first_Grp:
  "first r st st1 \<Longrightarrow> first (Grp n r) st (Cursor (pos st1) (before st1) (ahead st1)
     ((n, pos st, take (pos st1 - pos st) (ahead st)) # caps st1))"
  by (auto simp: first_def)

lemma first_many:
  "class_of r = Some p \<Longrightarrow> ahead st = w @ t \<Longrightarrow> \<forall>c \<in> set w. p c \<Longrightarrow> t = [] \<or> \<not> p (hd t) \<Longrightarrow>
     first (many r) st (after st w)"
proof -
  assume r: "class_of r = Some p" and a: "ahead st = w @ t" "\<forall>c \<in> set w. p c" "t = [] \<or> \<not> p (hd t)"
  have "takeWhile p t = []" using a(3) by (cases t) auto
  then have "takeWhile p (ahead st) = w" using a by (simp add: takeWhile_append2)
  with run_many_first [OF r, of st] show "first (many r) st (after st w)" by (simp add: first_def)
qed

lemma first_class: "class_of r = Some p \<Longrightarrow> ahead st = c # t \<Longrightarrow> p c \<Longrightarrow> first r st (after st [c])"
  by (simp add: first_def run_class step_def after_def)

lemma first_Str: "ahead st = w @ t \<Longrightarrow> first (Str w) st (after st w)"
  by (auto simp: first_def skip_def after_def starts_with_iff)

lemma first_match:
  "first r (Cursor 0 None s []) st \<Longrightarrow> re_match r s = Some (RMatch ((0, 0, take (pos st) s) # caps st))"
  by (auto simp: first_def re_match_def match_at_def)

text \<open>What is found by a search is in the language of the pattern.\<close>

lemma match_at_lang:
  assumes "match_at r (Cursor i b s []) = Some m"
  shows "lang r (grp 0 m)"
proof -
  obtain st where st: "st \<in> set (run r (Cursor i b s []))"
      "captures m = (0, i, take (pos st - i) s) # caps st"
  proof (cases "run r (Cursor i b s [])")
    case Nil
    with assms show ?thesis by (simp add: match_at_def)
  next
    case (Cons st sts)
    with assms have "captures m = (0, i, take (pos st - i) s) # caps st"
      by (auto simp: match_at_def)
    with Cons show ?thesis by (intro that [of st]) simp_all
  qed
  from run_lang [OF st(1)] st(2) show ?thesis by (auto simp: took_def grp_def group_def)
qed

lemma match_at_first:
  "first r (Cursor i b s []) st \<Longrightarrow>
     match_at r (Cursor i b s []) = Some (RMatch ((0, i, take (pos st - i) s) # caps st))"
  by (auto simp: first_def match_at_def)

lemma first_Eol: "ahead st = [] \<or> ahead st = [CHR 0x0A] \<Longrightarrow> first Eol st st"
  by (auto simp: first_def)

lemma re_match_lang: "re_match r s = Some m \<Longrightarrow> lang r (grp 0 m)"
  unfolding re_match_def by (rule match_at_lang)

lemma search_from_lang: "search_from r i b s = Some m \<Longrightarrow> lang r (grp 0 m)"
proof (induction r i b s rule: search_from.induct)
  case (1 r i b s)
  show ?case
  proof (cases "match_at r (Cursor i b s [])")
    case None
    with "1.prems" "1.IH" show ?thesis
      by (auto simp: search_from.simps [of r i b s] split: list.splits)
  next
    case (Some m')
    with "1.prems" match_at_lang show ?thesis by (simp add: search_from.simps [of r i b s])
  qed
qed

lemma re_search_lang: "re_search r s = Some m \<Longrightarrow> lang r (grp 0 m)"
  unfolding re_search_def by (rule search_from_lang)

text \<open>A pattern none of whose texts occurs in \<open>s\<close> is not found in \<open>s\<close>, and replaced nowhere.\<close>

lemma not_found: "(\<And>w. lang r w \<Longrightarrow> \<not> contains w s) \<Longrightarrow> re_search r s = None"
  using re_search_lang [of r s] re_search_text [of r s] contains_iff by (metis not_Some_eq)

lemma re_sub_not_found: "re_search r s = None \<Longrightarrow> re_sub r f s = s"
  by (simp add: re_sub_def all_matches_def re_search_def)

section \<open>Searching, exactly\<close>

definition prev_char :: "string \<Rightarrow> char option" where
  "prev_char u = (if u = [] then None else Some (last u))"

lemma search_from_iff:
  "search_from r i b s \<noteq> None \<longleftrightarrow>
     (\<exists>u v. s = u @ v \<and> run r (Cursor (i + length u) (if u = [] then b else Some (last u)) v []) \<noteq> [])"
proof (induction r i b s rule: search_from.induct)
  case (1 r i b s)
  have m: "match_at r (Cursor i b s []) = None \<longleftrightarrow> run r (Cursor i b s []) = []"
    by (cases "run r (Cursor i b s [])") (simp_all add: match_at_def)
  show ?case (is "?l \<longleftrightarrow> (\<exists>u v. ?P u v)")
  proof (cases "run r (Cursor i b s []) = []")
    case False
    then have "?P [] s" by simp
    moreover have ?l using False m by (auto simp: search_from.simps [of r i b s])
    ultimately show ?thesis by blast
  next
    case True
    show ?thesis
    proof (cases s)
      case Nil
      then show ?thesis using True m by (simp add: search_from.simps [of r i b "[]"])
    next
      case (Cons c cs)
      have "search_from r i b s = search_from r (Suc i) (Some c) cs"
        using True m Cons by (simp add: search_from.simps [of r i b "c # cs"])
      moreover have "(\<exists>u v. ?P u v) \<longleftrightarrow> (\<exists>u v. cs = u @ v \<and>
          run r (Cursor (Suc i + length u) (if u = [] then Some c else Some (last u)) v []) \<noteq> [])"
        (is "_ \<longleftrightarrow> (\<exists>u v. ?Q u v)")
      proof
        assume "\<exists>u v. ?P u v"
        then obtain u v where P: "?P u v" by blast
        with True have "u \<noteq> []" by (metis append_Nil length_0_conv add.right_neutral)
        with P Cons have "?Q (tl u) v" by (cases u) auto
        then show "\<exists>u v. ?Q u v" by blast
      next
        assume "\<exists>u v. ?Q u v"
        then obtain u v where "?Q u v" by blast
        with Cons have "?P (c # u) v" by (auto split: if_splits)
        then show "\<exists>u v. ?P u v" by blast
      qed
      ultimately show ?thesis using "1.IH" m True Cons by simp
    qed
  qed
qed

lemma searches_iff:
  "searches r s \<longleftrightarrow> (\<exists>u v. s = u @ v \<and> run r (Cursor (length u) (prev_char u) v []) \<noteq> [])"
  using search_from_iff [of r 0 None s] by (simp add: searches_def re_search_def prev_char_def)

text \<open>A sequence of character classes matches at the texts of its length, class by class.\<close>

lemma run_classes:
  "list_all2 (\<lambda>r p. class_of r = Some p) rs ps \<Longrightarrow>
     run (seq rs) st \<noteq> [] \<longleftrightarrow> length ps \<le> length (ahead st) \<and> list_all2 (\<lambda>p c. p c) ps (take (length ps) (ahead st))"
proof (induction rs ps arbitrary: st rule: list_all2_induct)
  case Nil
  then show ?case by simp
next
  case (Cons r rs p ps)
  have eps: "run Eps = (\<lambda>st. [st])" by (rule ext) simp
  have one: "run (seq (r # rs)) st = concat (map (run (seq rs)) (step p st))"
    using run_class [OF Cons.hyps(1)] eps by (cases rs) (simp_all add: concat_map_singleton)
  show ?case
  proof (cases "ahead st")
    case Nil
    then show ?thesis unfolding one by (simp add: step_def)
  next
    case (Cons c cs)
    then show ?thesis unfolding one using Cons.IH [of "Cursor (Suc (pos st)) (Some c) cs (caps st)"]
      by (auto simp: step_def)
  qed
qed

section \<open>Replacing the characters of a class\<close>

lemma search_class:
  assumes "class_of r = Some p"
  shows "search_from r i b (c # cs) =
    (if p c then Some (RMatch [(0, i, [c])]) else search_from r (Suc i) (Some c) cs)"
    and "search_from r i b [] = None"
  using run_class [OF assms]
  by (simp_all add: search_from.simps [of r i b] match_at_def step_def)

lemma search_class_start:
  "class_of r = Some p \<Longrightarrow> search_from r i b s = Some m \<Longrightarrow> i \<le> m_start 0 m"
  using search_from_text [of r i b s m] by auto

lemma splice_later:
  assumes "i < length s" and "ms \<noteq> [] \<longrightarrow> i < m_start 0 (hd ms)"
  shows "splice f ms i s = s ! i # splice f ms (Suc i) s"
proof (cases ms)
  case Nil
  then show ?thesis using assms(1) by (simp add: Cons_nth_drop_Suc)
next
  case (Cons m ms')
  then obtain k where "m_start 0 m - i = Suc k" "m_start 0 m - Suc i = k"
    using assms(2) by (metis Suc_diff_Suc list.sel(1) list.simps(3))
  then show ?thesis using Cons assms(1) by (simp add: Cons_nth_drop_Suc [symmetric])
qed

lemma matches_class_skip:
  assumes "class_of r = Some p" and "\<not> p c"
  shows "matches_from n r i b (c # cs) = matches_from n r (Suc i) (Some c) cs"
proof (cases n)
  case (Suc k)
  show ?thesis
  proof (cases "search_from r (Suc i) (Some c) cs")
    case None
    then show ?thesis using Suc search_class [OF assms(1)] assms(2) by simp
  next
    case (Some m)
    then obtain pre t where m: "cs = pre @ grp 0 m @ t" "m_start 0 m = Suc i + length pre"
      using search_from_text by blast
    have "grp 0 m \<noteq> []" using search_from_lang [OF Some] lang_class [OF assms(1)] by auto
    then show ?thesis using Suc Some search_class [OF assms(1)] assms(2) m
      by (simp add: Let_def m_end_def)
  qed
qed simp

lemma matches_class_hit:
  assumes "class_of r = Some p" and "p c"
  shows "matches_from (Suc n) r i b (c # cs) = RMatch [(0, i, [c])] # matches_from n r (Suc i) (Some c) cs"
  using search_class(1) [OF assms(1), of i b c cs] assms(2)
  by (simp add: Let_def m_end_def m_start_def grp_def group_def)

lemma splice_class:
  assumes r: "class_of r = Some p"
  shows "length s < n \<Longrightarrow>
    splice f (matches_from n r (length pre) b s) (length pre) (pre @ s)
      = concat (map2 (\<lambda>j c. if p c then f (RMatch [(0, j, [c])]) else [c]) [length pre..<length pre + length s] s)"
proof (induction s arbitrary: n pre b)
  case Nil
  then obtain k where "n = Suc k" by (cases n) auto
  then show ?case using search_class(2) [OF r] by simp
next
  case (Cons c cs)
  then obtain k where n: "n = Suc k" by (cases n) auto
  have upt: "[length pre..<length pre + length (c # cs)]
      = length pre # [length (pre @ [c])..<length (pre @ [c]) + length cs]"
    by (simp add: upt_conv_Cons del: upt_Suc)
  show ?case
  proof (cases "p c")
    case True
    have "splice f (matches_from k r (length (pre @ [c])) (Some c) cs) (length (pre @ [c])) ((pre @ [c]) @ cs)
        = concat (map2 (\<lambda>j c. if p c then f (RMatch [(0, j, [c])]) else [c])
            [length (pre @ [c])..<length (pre @ [c]) + length cs] cs)"
      using Cons.prems n by (intro Cons.IH) simp
    then show ?thesis using True unfolding upt n
      by (simp add: matches_class_hit [OF r] m_end_def m_start_def grp_def group_def del: upt_Suc matches_from.simps)
  next
    case False
    let ?ms = "matches_from n r (length (pre @ [c])) (Some c) cs"
    have "splice f ?ms (length (pre @ [c])) ((pre @ [c]) @ cs)
        = concat (map2 (\<lambda>j c. if p c then f (RMatch [(0, j, [c])]) else [c])
            [length (pre @ [c])..<length (pre @ [c]) + length cs] cs)"
      using Cons.prems by (intro Cons.IH) simp
    moreover have "?ms \<noteq> [] \<longrightarrow> length pre < m_start 0 (hd ?ms)"
    proof
      assume "?ms \<noteq> []"
      then obtain m where "search_from r (length (pre @ [c])) (Some c) cs = Some m" "hd ?ms = m"
        using n by (auto simp: Let_def split: option.splits if_splits)
      then show "length pre < m_start 0 (hd ?ms)"
        using search_class_start [OF r, of "length (pre @ [c])" "Some c" cs m] by simp
    qed
    ultimately show ?thesis using False unfolding upt
      by (simp add: matches_class_skip [OF r] splice_later del: upt_Suc matches_from.simps)
  qed
qed

lemma matches_from_lang: "m \<in> set (matches_from n r i b s) \<Longrightarrow> lang r (grp 0 m)"
proof (induction n arbitrary: i b s)
  case 0
  then show ?case by simp
next
  case (Suc n)
  then obtain m' where m': "search_from r i b s = Some m'"
    by (cases "search_from r i b s") simp_all
  with Suc.prems have "m = m' \<or> (\<exists>j b' t. m \<in> set (matches_from n r j b' t))"
    unfolding matches_from.simps m' option.case Let_def by (auto split: if_split_asm)
  with Suc.IH search_from_lang [OF m'] show ?case by blast
qed

lemma drop_adjacent_nonempty: "\<forall>m \<in> set ms. grp 0 m \<noteq> [] \<Longrightarrow> drop_adjacent e ms = ms"
  by (induction e ms rule: drop_adjacent.induct) auto

lemma re_sub_class:
  assumes "class_of r = Some p"
  shows "re_sub r (\<lambda>_. w) s = concat (map (\<lambda>c. if p c then w else [c]) s)"
proof -
  have "\<forall>m \<in> set (all_matches r s). grp 0 m \<noteq> []"
    using matches_from_lang [of _ "Suc (length s)" r 0 None s] lang_class [OF assms]
    unfolding all_matches_def by force
  then have whole: "drop_adjacent None (all_matches r s) = all_matches r s"
    by (rule drop_adjacent_nonempty)
  have m2: "concat (map2 (\<lambda>j c. g c) is s) = concat (map g s)" if "length is = length s" for g "is"
    using that by (induction "is" s rule: list_induct2) auto
  show ?thesis
    using splice_class [OF assms, of s "Suc (length s)" "\<lambda>_. w" "[]" None]
      m2 [of "[0..<length s]" "\<lambda>c. if p c then w else [c]"]
    unfolding re_sub_def whole by (simp add: all_matches_def del: matches_from.simps)
qed

lemma lang_some_nonempty: "lang (some r) w \<Longrightarrow> (\<And>v. lang r v \<Longrightarrow> v \<noteq> []) \<Longrightarrow> w \<noteq> []"
proof -
  assume "lang (some r) w" and r: "\<And>v. lang r v \<Longrightarrow> v \<noteq> []"
  then obtain v vs where "w = concat (v # vs)" "lang r v"
    unfolding some_def lang.simps by (metis One_nat_def Suc_le_length_iff list.set_intros(1))
  with r [of v] show ?thesis by simp
qed

end
