(* ===== verification/Lint_Patterns.thy ===== *)
theory Lint_Patterns
  imports Regex
begin

text \<open>
  The regular expressions of \<^verbatim>\<open>tools/cpplint.py\<close>, in the order the program has them, each
  as the abstract syntax of the Python pattern that stands above it.
\<close>

text \<open>\<^verbatim>\<open>^(?:[^/]*[A-Z][^/]*\.h|lua\.h|lauxlib\.h|lualib\.h)$\<close>\<close>

definition re_third_party :: regex where
  "re_third_party =
    seq [Bol, alts [seq [many (NSet [C (CHR ''/'')]), Set [Rng (CHR ''A'') (CHR ''Z'')],
    many (NSet [C (CHR ''/'')]), Str ''.h''], Str ''lua.h'', Str ''lauxlib.h'',
    Str ''lualib.h''], Eol]"

text \<open>\<^verbatim>\<open>^\s*(?:asm|_asm|__asm|__asm__)(?:\s+(volatile|__volatile__))?\s*[{(]\<close>\<close>

definition re_asm :: regex where
  "re_asm =
    seq [Bol, many (Set [Spc]), alts [Str ''asm'', Str ''_asm'', Str ''__asm'',
    Str ''__asm__''], opt (seq [some (Set [Spc]), Grp 1 (alts [Str ''volatile'',
    Str ''__volatile__''])]), many (Set [Spc]), Set [C (CHR ''{''), C (CHR ''('')]]"

text \<open>\<^verbatim>\<open>\bNOLINT(NEXTLINE)?\b(\([^)]+\))?\<close>\<close>

definition re_nolint :: regex where
  "re_nolint =
    seq [WordB, Str ''NOLINT'', opt (Grp 1 (Str ''NEXTLINE'')), WordB,
    opt (Grp 2 (seq [Str ''('', some (NSet [C (CHR '')'')]), Str '')'']))]"

text \<open>\<^verbatim>\<open>^\s*$\<close>\<close>

definition re_blank :: regex where
  "re_blank =
    seq [Bol, many (Set [Spc]), Eol]"

text \<open>\<^verbatim>\<open>T(EST|est)\<close>\<close>

definition re_test_function :: regex where
  "re_test_function =
    seq [Str ''T'', Grp 1 (alts [Str ''EST'', Str ''est''])]"

text \<open>\<^verbatim>\<open>\\([abfnrtv?"\\\']|\d+|x[0-9a-fA-F]+)\<close>\<close>

definition re_escapes :: regex where
  "re_escapes =
    seq [Str [CHR 0x5C], Grp 1 (alts [Set [C (CHR ''a''), C (CHR ''b''), C (CHR ''f''),
    C (CHR ''n''), C (CHR ''r''), C (CHR ''t''), C (CHR ''v''), C (CHR ''?''),
    C (CHR 0x22), C (CHR 0x5C), C (CHR 0x27)], some (Set [Dig]), seq [Str ''x'',
    some (Set [Rng (CHR ''0'') (CHR ''9''), Rng (CHR ''a'') (CHR ''f''),
    Rng (CHR ''A'') (CHR ''F'')])]])]"

text \<open>\<^verbatim>\<open>(\s*/\*(?:[^*]|\*(?!/))*\*/\s*$|/\*(?:[^*]|\*(?!/))*\*/\s+|\s+/\*(?:[^*]|\*(?!/))*\*/(?=\W)|/\*(?:[^*]|\*(?!/))*\*/)\<close>\<close>

definition re_c_comments :: regex where
  "re_c_comments =
    Grp 1 (alts [seq [many (Set [Spc]), Str ''/*'', many (alts [NSet [C (CHR ''*'')],
    seq [Str ''*'', Look False (Str ''/'')]]), Str ''*/'', many (Set [Spc]), Eol],
    seq [Str ''/*'', many (alts [NSet [C (CHR ''*'')], seq [Str ''*'',
    Look False (Str ''/'')]]), Str ''*/'', some (Set [Spc])], seq [some (Set [Spc]),
    Str ''/*'', many (alts [NSet [C (CHR ''*'')], seq [Str ''*'',
    Look False (Str ''/'')]]), Str ''*/'', Look True (Set [NWrd])], seq [Str ''/*'',
    many (alts [NSet [C (CHR ''*'')], seq [Str ''*'', Look False (Str ''/'')]]),
    Str ''*/'']])"

text \<open>\<^verbatim>\<open>^(\s*)\S\<close>\<close>

definition re_leading_space :: regex where
  "re_leading_space =
    seq [Bol, Grp 1 (many (Set [Spc])), Set [NSpc]]"

text \<open>\<^verbatim>\<open>^(.*)\b(?:R|u8R|uR|UR|LR)"([^\s\\()]*)\((.*)$\<close>\<close>

definition re_raw_string :: regex where
  "re_raw_string =
    seq [Bol, Grp 1 (many Dot), WordB, alts [Str ''R'', Str ''u8R'', Str ''uR'',
    Str ''UR'', Str ''LR''], Str [CHR 0x22], Grp 2 (many (NSet [Spc, C (CHR 0x5C),
    C (CHR ''(''), C (CHR '')'')])), Str ''('', Grp 3 (many Dot), Eol]"

text \<open>\<^verbatim>\<open>^([^\'"]*)([\'"])(.*)$\<close>\<close>

definition re_quote :: regex where
  "re_quote =
    seq [Bol, Grp 1 (many (NSet [C (CHR 0x27), C (CHR 0x22)])), Grp 2 (Set [C (CHR 0x27),
    C (CHR 0x22)]), Grp 3 (many Dot), Eol]"

text \<open>\<^verbatim>\<open>\b(?:0[bBxX]?|[1-9])[0-9a-fA-F]*$\<close>\<close>

definition re_number_end :: regex where
  "re_number_end =
    seq [WordB, alts [seq [Str ''0'', opt (Set [C (CHR ''b''), C (CHR ''B''),
    C (CHR ''x''), C (CHR ''X'')])], Set [Rng (CHR ''1'') (CHR ''9'')]],
    many (Set [Rng (CHR ''0'') (CHR ''9''), Rng (CHR ''a'') (CHR ''f''),
    Rng (CHR ''A'') (CHR ''F'')]), Eol]"

text \<open>\<^verbatim>\<open>^((?:\'?[0-9a-zA-Z_])*)(.*)$\<close>\<close>

definition re_digits_rest :: regex where
  "re_digits_rest =
    seq [Bol, Grp 1 (many (seq [opt (Str [CHR 0x27]), Set [Rng (CHR ''0'') (CHR ''9''),
    Rng (CHR ''a'') (CHR ''z''), Rng (CHR ''A'') (CHR ''Z''), C (CHR ''_'')]])),
    Grp 2 (many Dot), Eol]"

text \<open>\<^verbatim>\<open>^\s*#\s*include\s*([<"])([^>"]*)[>"].*$\<close>\<close>

definition re_include :: regex where
  "re_include =
    seq [Bol, many (Set [Spc]), Str ''#'', many (Set [Spc]), Str ''include'',
    many (Set [Spc]), Grp 1 (Set [C (CHR ''<''), C (CHR 0x22)]),
    Grp 2 (many (NSet [C (CHR ''>''), C (CHR 0x22)])), Set [C (CHR ''>''), C (CHR 0x22)],
    many Dot, Eol]"

text \<open>\<^verbatim>\<open>\boperator\s*$\<close>\<close>

definition re_operator_end :: regex where
  "re_operator_end =
    seq [WordB, Str ''operator'', many (Set [Spc]), Eol]"

text \<open>\<^verbatim>\<open><[<=]\<close>\<close>

definition re_shift :: regex where
  "re_shift =
    seq [Str ''<'', Set [C (CHR ''<''), C (CHR ''='')]]"

text \<open>\<^verbatim>\<open>\s>=\s\<close>\<close>

definition re_ge_operator :: regex where
  "re_ge_operator =
    seq [Set [Spc], Str ''>='', Set [Spc]]"

text \<open>\<^verbatim>\<open>Copyright\<close> ignoring case\<close>

definition re_copyright :: regex where
  "re_copyright =
    seq [Set [C (CHR ''C''), C (CHR ''c'')], Set [C (CHR ''O''), C (CHR ''o'')],
    Set [C (CHR ''P''), C (CHR ''p'')], Set [C (CHR ''Y''), C (CHR ''y'')],
    Set [C (CHR ''R''), C (CHR ''r'')], Set [C (CHR ''I''), C (CHR ''i'')],
    Set [C (CHR ''G''), C (CHR ''g'')], Set [C (CHR ''H''), C (CHR ''h'')],
    Set [C (CHR ''T''), C (CHR ''t'')]]"

text \<open>\<^verbatim>\<open>^( *)\S\<close>\<close>

definition re_indent :: regex where
  "re_indent =
    seq [Bol, Grp 1 (many (Str '' '')), Set [NSpc]]"

text \<open>\<^verbatim>\<open>_flymake\.h$\<close>\<close>

definition re_flymake_h :: regex where
  "re_flymake_h =
    seq [Str ''_flymake.h'', Eol]"

text \<open>\<^verbatim>\<open>/\.flymake/([^/]*)$\<close>\<close>

definition re_flymake_dir :: regex where
  "re_flymake_dir =
    seq [Str ''/.flymake/'', Grp 1 (many (NSet [C (CHR ''/'')])), Eol]"

text \<open>\<^verbatim>\<open>[-./\s]\<close>\<close>

definition re_guard_chars :: regex where
  "re_guard_chars =
    Set [C (CHR ''-''), C (CHR ''.''), C (CHR ''/''), Spc]"

text \<open>\<^verbatim>\<open>//\s*NOLINT\(build/header_guard\)\<close>\<close>

definition re_nolint_guard :: regex where
  "re_nolint_guard =
    seq [Str ''//'', many (Set [Spc]), Str ''NOLINT(build/header_guard)'']"

text \<open>\<^verbatim>\<open>(?:[-+*/=%^&|(<]\s*|>\s+)asctime\([^)]+\)\<close>\<close>

definition re_unsafe_asctime :: regex where
  "re_unsafe_asctime =
    seq [alts [seq [Set [C (CHR ''-''), C (CHR ''+''), C (CHR ''*''), C (CHR ''/''),
    C (CHR ''=''), C (CHR ''%''), C (CHR ''^''), C (CHR ''&''), C (CHR ''|''),
    C (CHR ''(''), C (CHR ''<'')], many (Set [Spc])], seq [Str ''>'', some (Set [Spc])]],
    Str ''asctime('', some (NSet [C (CHR '')'')]), Str '')'']"

text \<open>\<^verbatim>\<open>(?:[-+*/=%^&|(<]\s*|>\s+)ctime\([^)]+\)\<close>\<close>

definition re_unsafe_ctime :: regex where
  "re_unsafe_ctime =
    seq [alts [seq [Set [C (CHR ''-''), C (CHR ''+''), C (CHR ''*''), C (CHR ''/''),
    C (CHR ''=''), C (CHR ''%''), C (CHR ''^''), C (CHR ''&''), C (CHR ''|''),
    C (CHR ''(''), C (CHR ''<'')], many (Set [Spc])], seq [Str ''>'', some (Set [Spc])]],
    Str ''ctime('', some (NSet [C (CHR '')'')]), Str '')'']"

text \<open>\<^verbatim>\<open>(?:[-+*/=%^&|(<]\s*|>\s+)getgrgid\([^)]+\)\<close>\<close>

definition re_unsafe_getgrgid :: regex where
  "re_unsafe_getgrgid =
    seq [alts [seq [Set [C (CHR ''-''), C (CHR ''+''), C (CHR ''*''), C (CHR ''/''),
    C (CHR ''=''), C (CHR ''%''), C (CHR ''^''), C (CHR ''&''), C (CHR ''|''),
    C (CHR ''(''), C (CHR ''<'')], many (Set [Spc])], seq [Str ''>'', some (Set [Spc])]],
    Str ''getgrgid('', some (NSet [C (CHR '')'')]), Str '')'']"

text \<open>\<^verbatim>\<open>(?:[-+*/=%^&|(<]\s*|>\s+)getgrnam\([^)]+\)\<close>\<close>

definition re_unsafe_getgrnam :: regex where
  "re_unsafe_getgrnam =
    seq [alts [seq [Set [C (CHR ''-''), C (CHR ''+''), C (CHR ''*''), C (CHR ''/''),
    C (CHR ''=''), C (CHR ''%''), C (CHR ''^''), C (CHR ''&''), C (CHR ''|''),
    C (CHR ''(''), C (CHR ''<'')], many (Set [Spc])], seq [Str ''>'', some (Set [Spc])]],
    Str ''getgrnam('', some (NSet [C (CHR '')'')]), Str '')'']"

text \<open>\<^verbatim>\<open>(?:[-+*/=%^&|(<]\s*|>\s+)getlogin\(\)\<close>\<close>

definition re_unsafe_getlogin :: regex where
  "re_unsafe_getlogin =
    seq [alts [seq [Set [C (CHR ''-''), C (CHR ''+''), C (CHR ''*''), C (CHR ''/''),
    C (CHR ''=''), C (CHR ''%''), C (CHR ''^''), C (CHR ''&''), C (CHR ''|''),
    C (CHR ''(''), C (CHR ''<'')], many (Set [Spc])], seq [Str ''>'', some (Set [Spc])]],
    Str ''getlogin()'']"

text \<open>\<^verbatim>\<open>(?:[-+*/=%^&|(<]\s*|>\s+)getpwnam\([^)]+\)\<close>\<close>

definition re_unsafe_getpwnam :: regex where
  "re_unsafe_getpwnam =
    seq [alts [seq [Set [C (CHR ''-''), C (CHR ''+''), C (CHR ''*''), C (CHR ''/''),
    C (CHR ''=''), C (CHR ''%''), C (CHR ''^''), C (CHR ''&''), C (CHR ''|''),
    C (CHR ''(''), C (CHR ''<'')], many (Set [Spc])], seq [Str ''>'', some (Set [Spc])]],
    Str ''getpwnam('', some (NSet [C (CHR '')'')]), Str '')'']"

text \<open>\<^verbatim>\<open>(?:[-+*/=%^&|(<]\s*|>\s+)getpwuid\([^)]+\)\<close>\<close>

definition re_unsafe_getpwuid :: regex where
  "re_unsafe_getpwuid =
    seq [alts [seq [Set [C (CHR ''-''), C (CHR ''+''), C (CHR ''*''), C (CHR ''/''),
    C (CHR ''=''), C (CHR ''%''), C (CHR ''^''), C (CHR ''&''), C (CHR ''|''),
    C (CHR ''(''), C (CHR ''<'')], many (Set [Spc])], seq [Str ''>'', some (Set [Spc])]],
    Str ''getpwuid('', some (NSet [C (CHR '')'')]), Str '')'']"

text \<open>\<^verbatim>\<open>(?:[-+*/=%^&|(<]\s*|>\s+)gmtime\([^)]+\)\<close>\<close>

definition re_unsafe_gmtime :: regex where
  "re_unsafe_gmtime =
    seq [alts [seq [Set [C (CHR ''-''), C (CHR ''+''), C (CHR ''*''), C (CHR ''/''),
    C (CHR ''=''), C (CHR ''%''), C (CHR ''^''), C (CHR ''&''), C (CHR ''|''),
    C (CHR ''(''), C (CHR ''<'')], many (Set [Spc])], seq [Str ''>'', some (Set [Spc])]],
    Str ''gmtime('', some (NSet [C (CHR '')'')]), Str '')'']"

text \<open>\<^verbatim>\<open>(?:[-+*/=%^&|(<]\s*|>\s+)localtime\([^)]+\)\<close>\<close>

definition re_unsafe_localtime :: regex where
  "re_unsafe_localtime =
    seq [alts [seq [Set [C (CHR ''-''), C (CHR ''+''), C (CHR ''*''), C (CHR ''/''),
    C (CHR ''=''), C (CHR ''%''), C (CHR ''^''), C (CHR ''&''), C (CHR ''|''),
    C (CHR ''(''), C (CHR ''<'')], many (Set [Spc])], seq [Str ''>'', some (Set [Spc])]],
    Str ''localtime('', some (NSet [C (CHR '')'')]), Str '')'']"

text \<open>\<^verbatim>\<open>(?:[-+*/=%^&|(<]\s*|>\s+)rand\(\)\<close>\<close>

definition re_unsafe_rand :: regex where
  "re_unsafe_rand =
    seq [alts [seq [Set [C (CHR ''-''), C (CHR ''+''), C (CHR ''*''), C (CHR ''/''),
    C (CHR ''=''), C (CHR ''%''), C (CHR ''^''), C (CHR ''&''), C (CHR ''|''),
    C (CHR ''(''), C (CHR ''<'')], many (Set [Spc])], seq [Str ''>'', some (Set [Spc])]],
    Str ''rand()'']"

text \<open>\<^verbatim>\<open>(?:[-+*/=%^&|(<]\s*|>\s+)strtok\([^)]+\)\<close>\<close>

definition re_unsafe_strtok :: regex where
  "re_unsafe_strtok =
    seq [alts [seq [Set [C (CHR ''-''), C (CHR ''+''), C (CHR ''*''), C (CHR ''/''),
    C (CHR ''=''), C (CHR ''%''), C (CHR ''^''), C (CHR ''&''), C (CHR ''|''),
    C (CHR ''(''), C (CHR ''<'')], many (Set [Spc])], seq [Str ''>'', some (Set [Spc])]],
    Str ''strtok('', some (NSet [C (CHR '')'')]), Str '')'']"

text \<open>\<^verbatim>\<open>(?:[-+*/=%^&|(<]\s*|>\s+)ttyname\([^)]+\)\<close>\<close>

definition re_unsafe_ttyname :: regex where
  "re_unsafe_ttyname =
    seq [alts [seq [Set [C (CHR ''-''), C (CHR ''+''), C (CHR ''*''), C (CHR ''/''),
    C (CHR ''=''), C (CHR ''%''), C (CHR ''^''), C (CHR ''&''), C (CHR ''|''),
    C (CHR ''(''), C (CHR ''<'')], many (Set [Spc])], seq [Str ''>'', some (Set [Spc])]],
    Str ''ttyname('', some (NSet [C (CHR '')'')]), Str '')'']"

text \<open>\<^verbatim>\<open>\bVLOG\((INFO|ERROR|WARNING|DFATAL|FATAL)\)\<close>\<close>

definition re_vlog :: regex where
  "re_vlog =
    seq [WordB, Str ''VLOG('', Grp 1 (alts [Str ''INFO'', Str ''ERROR'', Str ''WARNING'',
    Str ''DFATAL'', Str ''FATAL'']), Str '')'']"

text \<open>\<^verbatim>\<open>^\s*\*\w+(\+\+|--);\<close>\<close>

definition re_invalid_increment :: regex where
  "re_invalid_increment =
    seq [Bol, many (Set [Spc]), Str ''*'', some (Set [Wrd]), Grp 1 (alts [Str ''++'',
    Str ''--'']), Str '';'']"

text \<open>\<^verbatim>\<open>^#define\<close>\<close>

definition re_define :: regex where
  "re_define =
    seq [Bol, Str ''#define'']"

text \<open>\<^verbatim>\<open>\\$\<close>\<close>

definition re_backslash_end :: regex where
  "re_backslash_end =
    seq [Str [CHR 0x5C], Eol]"

text \<open>\<^verbatim>\<open>^\s*(\btemplate\b)*.*class\s+\w+;\s*$\<close>\<close>

definition re_forward_class :: regex where
  "re_forward_class =
    seq [Bol, many (Set [Spc]), many (Grp 1 (seq [WordB, Str ''template'', WordB])),
    many Dot, Str ''class'', some (Set [Spc]), some (Set [Wrd]), Str '';'',
    many (Set [Spc]), Eol]"

text \<open>\<^verbatim>\<open>(^|[^:]):($|[^:])\<close>\<close>

definition re_bare_colon :: regex where
  "re_bare_colon =
    seq [Grp 1 (alts [Bol, NSet [C (CHR '':'')]]), Str '':'', Grp 2 (alts [Eol,
    NSet [C (CHR '':'')]])]"

text \<open>\<^verbatim>\<open>^( *)\}\<close>\<close>

definition re_brace_indent :: regex where
  "re_brace_indent =
    seq [Bol, Grp 1 (many (Str '' '')), Str ''}'']"

text \<open>\<^verbatim>\<open>};*\s*(//|/\*).*\bnamespace\b\<close>\<close>

definition re_namespace_comment :: regex where
  "re_namespace_comment =
    seq [Str ''}'', many (Str '';''), many (Set [Spc]), Grp 1 (seq [Str ''/'',
    Set [C (CHR ''/''), C (CHR ''*'')]]), many Dot, WordB, Str ''namespace'', WordB]"

text \<open>\<^verbatim>\<open>};*\s*(//|/\*).*\bnamespace[\*/\.\\\s]*$\<close>\<close>

definition re_anonymous_end :: regex where
  "re_anonymous_end =
    seq [Str ''}'', many (Str '';''), many (Set [Spc]), Grp 1 (seq [Str ''/'',
    Set [C (CHR ''/''), C (CHR ''*'')]]), many Dot, WordB, Str ''namespace'',
    many (Set [C (CHR ''*''), C (CHR ''/''), C (CHR ''.''), C (CHR 0x5C), Spc]), Eol]"

text \<open>\<^verbatim>\<open>}.*\b(namespace anonymous|anonymous namespace)\b\<close>\<close>

definition re_anonymous_words :: regex where
  "re_anonymous_words =
    seq [Str ''}'', many Dot, WordB, Grp 1 (alts [Str ''namespace anonymous'',
    Str ''anonymous namespace'']), WordB]"

text \<open>\<^verbatim>\<open>^[^{};=\[\]\.<>]*(.)\<close>\<close>

definition re_template_token :: regex where
  "re_template_token =
    seq [Bol, many (NSet [C (CHR ''{''), C (CHR ''}''), C (CHR '';''), C (CHR ''=''),
    C (CHR ''[''), C (CHR '']''), C (CHR ''.''), C (CHR ''<''), C (CHR ''>'')]), Grp 1 Dot]"

text \<open>\<^verbatim>\<open>^\s*#\s*(if|ifdef|ifndef)\b\<close>\<close>

definition re_pp_if :: regex where
  "re_pp_if =
    seq [Bol, many (Set [Spc]), Str ''#'', many (Set [Spc]), Grp 1 (seq [Str ''if'',
    alts [Eps, Str ''def'', Str ''ndef'']]), WordB]"

text \<open>\<^verbatim>\<open>^\s*#\s*(else|elif)\b\<close>\<close>

definition re_pp_else :: regex where
  "re_pp_else =
    seq [Bol, many (Set [Spc]), Str ''#'', many (Set [Spc]), Grp 1 (seq [Str ''el'',
    alts [Str ''se'', Str ''if'']]), WordB]"

text \<open>\<^verbatim>\<open>^\s*#\s*endif\b\<close>\<close>

definition re_pp_endif :: regex where
  "re_pp_endif =
    seq [Bol, many (Set [Spc]), Str ''#'', many (Set [Spc]), Str ''endif'', WordB]"

text \<open>\<^verbatim>\<open>^\s*namespace\b\s*([:\w]+)?(.*)$\<close>\<close>

definition re_namespace_decl :: regex where
  "re_namespace_decl =
    seq [Bol, many (Set [Spc]), Str ''namespace'', WordB, many (Set [Spc]),
    opt (Grp 1 (some (Set [C (CHR '':''), Wrd]))), Grp 2 (many Dot), Eol]"

text \<open>\<^verbatim>\<open>^(\s*(?:template\s*<[\w\s<>,:]*>\s*)?(class|struct)\s+(?:[A-Z_]+\s+)*(\w+(?:::\w+)*))(.*)$\<close>\<close>

definition re_class_decl :: regex where
  "re_class_decl =
    seq [Bol, Grp 1 (seq [many (Set [Spc]), opt (seq [Str ''template'', many (Set [Spc]),
    Str ''<'', many (Set [Wrd, Spc, C (CHR ''<''), C (CHR ''>''), C (CHR '',''),
    C (CHR '':'')]), Str ''>'', many (Set [Spc])]), Grp 2 (alts [Str ''class'',
    Str ''struct'']), some (Set [Spc]), many (seq [some (Set [Rng (CHR ''A'') (CHR ''Z''),
    C (CHR ''_'')]), some (Set [Spc])]), Grp 3 (seq [some (Set [Wrd]),
    many (seq [Str ''::'', some (Set [Wrd])])])]), Grp 4 (many Dot), Eol]"

text \<open>\<^verbatim>\<open>^(.*)\b(public|private|protected|signals)(\s+(?:slots\s*)?)?:(?:[^:]|$)\<close>\<close>

definition re_access :: regex where
  "re_access =
    seq [Bol, Grp 1 (many Dot), WordB, Grp 2 (alts [Str ''public'', Str ''private'',
    Str ''protected'', Str ''signals'']), opt (Grp 3 (seq [some (Set [Spc]),
    opt (seq [Str ''slots'', many (Set [Spc])])])), Str '':'', alts [NSet [C (CHR '':'')],
    Eol]]"

text \<open>\<^verbatim>\<open>^[^{;)}]*([{;)}])(.*)$\<close>\<close>

definition re_block_token :: regex where
  "re_block_token =
    seq [Bol, many (NSet [C (CHR ''{''), C (CHR '';''), C (CHR '')''), C (CHR ''}'')]),
    Grp 1 (Set [C (CHR ''{''), C (CHR '';''), C (CHR '')''), C (CHR ''}'')]),
    Grp 2 (many Dot), Eol]"

text \<open>\<^verbatim>\<open>^extern\s*"[^"]*"\s*\{\<close>\<close>

definition re_extern_c :: regex where
  "re_extern_c =
    seq [Bol, Str ''extern'', many (Set [Spc]), Str [CHR 0x22], many (NSet [C (CHR 0x22)]),
    Str [CHR 0x22], many (Set [Spc]), Str ''{'']"

text \<open>\<^verbatim>\<open>(\w(\w|::|\*|\&|\s)*)\(\<close>\<close>

definition re_function_start :: regex where
  "re_function_start =
    seq [Grp 1 (seq [Set [Wrd], many (Grp 2 (alts [Set [Wrd], Str ''::'', Str ''*'',
    Str ''&'', Set [Spc]]))]), Str ''('']"

text \<open>\<^verbatim>\<open>[A-Z_]+$\<close>\<close>

definition re_upper_name :: regex where
  "re_upper_name =
    seq [some (Set [Rng (CHR ''A'') (CHR ''Z''), C (CHR ''_'')]), Eol]"

text \<open>\<^verbatim>\<open>(;|})\<close>\<close>

definition re_semi_or_brace :: regex where
  "re_semi_or_brace =
    Grp 1 (Set [C (CHR '';''), C (CHR ''}'')])"

text \<open>\<^verbatim>\<open>{\<close>\<close>

definition re_open_brace :: regex where
  "re_open_brace =
    Str ''{''"

text \<open>\<^verbatim>\<open>((\w|:)*)\(\<close>\<close>

definition re_function_name :: regex where
  "re_function_name =
    seq [Grp 1 (many (Grp 2 (Set [Wrd, C (CHR '':'')]))), Str ''('']"

text \<open>\<^verbatim>\<open>TEST\<close>\<close>

definition re_test_macro :: regex where
  "re_test_macro =
    Str ''TEST''"

text \<open>\<^verbatim>\<open>(\(.*\))\<close>\<close>

definition re_parameters :: regex where
  "re_parameters =
    Grp 1 (seq [Str ''('', many Dot, Str '')''])"

text \<open>\<^verbatim>\<open>^\}\s*$\<close>\<close>

definition re_function_end :: regex where
  "re_function_end =
    seq [Bol, Str ''}'', many (Set [Spc]), Eol]"

text \<open>\<^verbatim>\<open>^//(\s*)TODO(\(.+?\))?:?(\s|$)?\<close>\<close>

definition re_todo :: regex where
  "re_todo =
    seq [Bol, Str ''//'', Grp 1 (many (Set [Spc])), Str ''TODO'',
    opt (Grp 2 (seq [Str ''('', Rep False 1 None Dot, Str '')''])), opt (Str '':''),
    opt (Grp 3 (alts [Set [Spc], Eol]))]"

text \<open>\<^verbatim>\<open>^.*{ *//\<close>\<close>

definition re_scope_comment :: regex where
  "re_scope_comment =
    seq [Bol, many Dot, Str ''{'', many (Str '' ''), Str ''//'']"

text \<open>\<^verbatim>\<open>//[^ ]*\w\<close>\<close>

definition re_comment_word :: regex where
  "re_comment_word =
    seq [Str ''//'', many (NSet [C (CHR '' '')]), Set [Wrd]]"

text \<open>\<^verbatim>\<open>\s*(DISALLOW_COPY_AND_ASSIGN|DISALLOW_IMPLICIT_CONSTRUCTORS)\<close>\<close>

definition re_disallow :: regex where
  "re_disallow =
    seq [many (Set [Spc]), Grp 1 (seq [Str ''DISALLOW_'', alts [Str ''COPY_AND_ASSIGN'',
    Str ''IMPLICIT_CONSTRUCTORS'']])]"

text \<open>\<^verbatim>\<open>\s*(public|protected|private):\<close>\<close>

definition re_section :: regex where
  "re_section =
    seq [many (Set [Spc]), Grp 1 (seq [Str ''p'', alts [Str ''ublic'', Str ''rotected'',
    Str ''rivate'']]), Str '':'']"

text \<open>\<^verbatim>\<open>\b(class|struct)\b\<close>\<close>

definition re_class_or_struct :: regex where
  "re_class_or_struct =
    seq [WordB, Grp 1 (alts [Str ''class'', Str ''struct'']), WordB]"

text \<open>\<^verbatim>\<open>\{\s*$\<close>\<close>

definition re_brace_end :: regex where
  "re_brace_end =
    seq [Str ''{'', many (Set [Spc]), Eol]"

text \<open>\<^verbatim>\<open>\s*(for|while|if)\s*\(\<close>\<close>

definition re_loop_or_if :: regex where
  "re_loop_or_if =
    seq [many (Set [Spc]), Grp 1 (alts [Str ''for'', Str ''while'', Str ''if'']),
    many (Set [Spc]), Str ''('']"

text \<open>\<^verbatim>\<open>;\<close>\<close>

definition re_semicolon :: regex where
  "re_semicolon =
    Str '';''"

text \<open>\<^verbatim>\<open>^\s*#\<close>\<close>

definition re_preprocessor :: regex where
  "re_preprocessor =
    seq [Bol, many (Set [Spc]), Str ''#'']"

text \<open>\<^verbatim>\<open>#include\s*"([^/]+\.h)"\<close>\<close>

definition re_include_bare :: regex where
  "re_include_bare =
    seq [Str ''#include'', many (Set [Spc]), Str [CHR 0x22],
    Grp 1 (seq [some (NSet [C (CHR ''/'')]), Str ''.h'']), Str [CHR 0x22]]"

text \<open>\<^verbatim>\<open>(f|ind|io|i|o|parse|pf|stdio|str|)?stream$\<close>\<close>

definition re_stream_header :: regex where
  "re_stream_header =
    seq [opt (Grp 1 (alts [Str ''f'', Str ''ind'', Str ''io'', Str ''i'', Str ''o'',
    Str ''parse'', Str ''pf'', Str ''stdio'', Str ''str'', Eps])), Str ''stream'', Eol]"

text \<open>\<^verbatim>\<open>^[^-_.]+\<close>\<close>

definition re_first_component :: regex where
  "re_first_component =
    seq [Bol, some (NSet [C (CHR ''-''), C (CHR ''_''), C (CHR ''.'')])]"

text \<open>\<^verbatim>\<open>\bmake_pair\s*<\<close>\<close>

definition re_make_pair :: regex where
  "re_make_pair =
    seq [WordB, Str ''make_pair'', many (Set [Spc]), Str ''<'']"

text \<open>\<^verbatim>\<open>^(.*)\[\s*(?:=|&[^\w])\<close>\<close>

definition re_default_capture :: regex where
  "re_default_capture =
    seq [Bol, Grp 1 (many Dot), Str ''['', many (Set [Spc]), alts [Str ''='',
    seq [Str ''&'', NSet [Wrd]]]]"

text \<open>\<^verbatim>\<open>^\s*[{(]\<close>\<close>

definition re_lambda_rest :: regex where
  "re_lambda_rest =
    seq [Bol, many (Set [Spc]), Set [C (CHR ''{''), C (CHR ''('')]]"

text \<open>\<^verbatim>\<open>^(.*\bvirtual\b)\<close>\<close>

definition re_virtual :: regex where
  "re_virtual =
    seq [Bol, Grp 1 (seq [many Dot, WordB, Str ''virtual'', WordB])]"

text \<open>\<^verbatim>\<open>^([^(]*)\(\<close>\<close>

definition re_parameter_list :: regex where
  "re_parameter_list =
    seq [Bol, Grp 1 (many (NSet [C (CHR ''('')])), Str ''('']"

text \<open>\<^verbatim>\<open>\b(override|final)\b\<close>\<close>

definition re_override_or_final :: regex where
  "re_override_or_final =
    seq [WordB, Grp 1 (alts [Str ''override'', Str ''final'']), WordB]"

text \<open>\<^verbatim>\<open>[^\w]\s*$\<close>\<close>

definition re_not_word_end :: regex where
  "re_not_word_end =
    seq [NSet [Wrd], many (Set [Spc]), Eol]"

text \<open>\<^verbatim>\<open>\boverride\b\<close>\<close>

definition re_override :: regex where
  "re_override =
    seq [WordB, Str ''override'', WordB]"

text \<open>\<^verbatim>\<open>\bfinal\b\<close>\<close>

definition re_final :: regex where
  "re_final =
    seq [WordB, Str ''final'', WordB]"

text \<open>\<^verbatim>\<open>^\s+\<close>\<close>

definition re_indented :: regex where
  "re_indented =
    seq [Bol, some (Set [Spc])]"

text \<open>\<^verbatim>\<open>\s*#\s*include\s+[<"]([^<"]+)[">]\<close>\<close>

definition re_cxx11_include :: regex where
  "re_cxx11_include =
    seq [many (Set [Spc]), Str ''#'', many (Set [Spc]), Str ''include'', some (Set [Spc]),
    Set [C (CHR ''<''), C (CHR 0x22)], Grp 1 (some (NSet [C (CHR ''<''), C (CHR 0x22)])),
    Set [C (CHR 0x22), C (CHR ''>'')]]"

text \<open>\<^verbatim>\<open>\s*#\<close>\<close>

definition re_preprocessor_any :: regex where
  "re_preprocessor_any =
    seq [many (Set [Spc]), Str ''#'']"

text \<open>\<^verbatim>\<open>\s*#\s*define\b\<close>\<close>

definition re_pp_define :: regex where
  "re_pp_define =
    seq [many (Set [Spc]), Str ''#'', many (Set [Spc]), Str ''define'', WordB]"

text \<open>\<^verbatim>\<open>printf\s*\(.*".*%[-+ ]?\d*q\<close>\<close>

definition re_printf_q :: regex where
  "re_printf_q =
    seq [Str ''printf'', many (Set [Spc]), Str ''('', many Dot, Str [CHR 0x22], many Dot,
    Str ''%'', opt (Set [C (CHR ''-''), C (CHR ''+''), C (CHR '' '')]), many (Set [Dig]),
    Str ''q'']"

text \<open>\<^verbatim>\<open>printf\s*\(.*".*%\d+\$\<close>\<close>

definition re_printf_n :: regex where
  "re_printf_n =
    seq [Str ''printf'', many (Set [Spc]), Str ''('', many Dot, Str [CHR 0x22], many Dot,
    Str ''%'', some (Set [Dig]), Str ''$'']"

text \<open>\<^verbatim>\<open>("|\').*\\(%|\[|\(|{)\<close>\<close>

definition re_undefined_escape :: regex where
  "re_undefined_escape =
    seq [Grp 1 (Set [C (CHR 0x22), C (CHR 0x27)]), many Dot, Str [CHR 0x5C],
    Grp 2 (Set [C (CHR ''%''), C (CHR ''[''), C (CHR ''(''), C (CHR ''{'')])]"

text \<open>\<^verbatim>\<open>\b(const|volatile|void|char|short|int|long|float|double|signed|unsigned|schar|u?int8|u?int16|u?int32|u?int64)\s+(register|static|extern|typedef)\b\<close>\<close>

definition re_storage_class :: regex where
  "re_storage_class =
    seq [WordB, Grp 1 (alts [Str ''const'', Str ''volatile'', Str ''void'', Str ''char'',
    Str ''short'', Str ''int'', Str ''long'', Str ''float'', Str ''double'',
    Str ''signed'', Str ''unsigned'', Str ''schar'', seq [opt (Str ''u''), Str ''int8''],
    seq [opt (Str ''u''), Str ''int16''], seq [opt (Str ''u''), Str ''int32''],
    seq [opt (Str ''u''), Str ''int64'']]), some (Set [Spc]),
    Grp 2 (alts [Str ''register'', Str ''static'', Str ''extern'', Str ''typedef'']), WordB]"

text \<open>\<^verbatim>\<open>\s*#\s*endif\s*[^/\s]+\<close>\<close>

definition re_endif_text :: regex where
  "re_endif_text =
    seq [many (Set [Spc]), Str ''#'', many (Set [Spc]), Str ''endif'', many (Set [Spc]),
    some (NSet [C (CHR ''/''), Spc])]"

text \<open>\<^verbatim>\<open>\s*class\s+(\w+\s*::\s*)+\w+\s*;\<close>\<close>

definition re_inner_forward :: regex where
  "re_inner_forward =
    seq [many (Set [Spc]), Str ''class'', some (Set [Spc]),
    some (Grp 1 (seq [some (Set [Wrd]), many (Set [Spc]), Str ''::'', many (Set [Spc])])),
    some (Set [Wrd]), many (Set [Spc]), Str '';'']"

text \<open>\<^verbatim>\<open>(\w+|[+-]?\d+(\.\d*)?)\s*(<|>)\?=?\s*(\w+|[+-]?\d+)(\.\d*)?\<close>\<close>

definition re_min_max :: regex where
  "re_min_max =
    seq [Grp 1 (alts [some (Set [Wrd]), seq [opt (Set [C (CHR ''+''), C (CHR ''-'')]),
    some (Set [Dig]), opt (Grp 2 (seq [Str ''.'', many (Set [Dig])]))]]), many (Set [Spc]),
    Grp 3 (Set [C (CHR ''<''), C (CHR ''>'')]), Str ''?'', opt (Str ''=''),
    many (Set [Spc]), Grp 4 (alts [some (Set [Wrd]), seq [opt (Set [C (CHR ''+''),
    C (CHR ''-'')]), some (Set [Dig])]]), opt (Grp 5 (seq [Str ''.'', many (Set [Dig])]))]"

text \<open>\<^verbatim>\<open>^\s*const\s*string\s*&\s*\w+\s*;\<close>\<close>

definition re_string_member :: regex where
  "re_string_member =
    seq [Bol, many (Set [Spc]), Str ''const'', many (Set [Spc]), Str ''string'',
    many (Set [Spc]), Str ''&'', many (Set [Spc]), some (Set [Wrd]), many (Set [Spc]),
    Str '';'']"

text \<open>\<^verbatim>\<open>\s+(?:inline\s+)?(explicit\s+)?(?:inline\s+)?NAME\s*\(((?:[^()]|\([^()]*\))*)\)\<close>\<close>

definition re_constructor :: "string \<Rightarrow> regex" where
  "re_constructor name =
    seq [some (Set [Spc]), opt (seq [Str ''inline'', some (Set [Spc])]),
    opt (Grp 1 (seq [Str ''explicit'', some (Set [Spc])])), opt (seq [Str ''inline'',
    some (Set [Spc])]), Str name, many (Set [Spc]), Str ''('',
    Grp 2 (many (alts [NSet [C (CHR ''(''), C (CHR '')'')], seq [Str ''('',
    many (NSet [C (CHR ''(''), C (CHR '')'')]), Str '')'']])), Str '')'']"

text \<open>\<^verbatim>\<open>\bstd\s*::\s*initializer_list\b\<close>\<close>

definition re_initializer_list :: regex where
  "re_initializer_list =
    seq [WordB, Str ''std'', many (Set [Spc]), Str ''::'', many (Set [Spc]),
    Str ''initializer_list'', WordB]"

text \<open>\<^verbatim>\<open>(const\s+)?NAME(\s*<[^>]*>)?(\s+const)?\s*(?:<\w+>\s*)?&\<close>\<close>

definition re_copy_constructor :: "string \<Rightarrow> regex" where
  "re_copy_constructor name =
    seq [opt (Grp 1 (seq [Str ''const'', some (Set [Spc])])), Str name,
    opt (Grp 2 (seq [many (Set [Spc]), Str ''<'', many (NSet [C (CHR ''>'')]),
    Str ''>''])), opt (Grp 3 (seq [some (Set [Spc]), Str ''const''])), many (Set [Spc]),
    opt (seq [Str ''<'', some (Set [Wrd]), Str ''>'', many (Set [Spc])]), Str ''&'']"

text \<open>\<^verbatim>\<open>\bif\s*\((.*)\)\s*{\<close>\<close>

definition re_if_call :: regex where
  "re_if_call =
    seq [WordB, Str ''if'', many (Set [Spc]), Str ''('', Grp 1 (many Dot), Str '')'',
    many (Set [Spc]), Str ''{'']"

text \<open>\<^verbatim>\<open>\bfor\s*\((.*)\)\s*{\<close>\<close>

definition re_for_call :: regex where
  "re_for_call =
    seq [WordB, Str ''for'', many (Set [Spc]), Str ''('', Grp 1 (many Dot), Str '')'',
    many (Set [Spc]), Str ''{'']"

text \<open>\<^verbatim>\<open>\bwhile\s*\((.*)\)\s*[{;]\<close>\<close>

definition re_while_call :: regex where
  "re_while_call =
    seq [WordB, Str ''while'', many (Set [Spc]), Str ''('', Grp 1 (many Dot), Str '')'',
    many (Set [Spc]), Set [C (CHR ''{''), C (CHR '';'')]]"

text \<open>\<^verbatim>\<open>\bswitch\s*\((.*)\)\s*{\<close>\<close>

definition re_switch_call :: regex where
  "re_switch_call =
    seq [WordB, Str ''switch'', many (Set [Spc]), Str ''('', Grp 1 (many Dot), Str '')'',
    many (Set [Spc]), Str ''{'']"

text \<open>\<^verbatim>\<open>\b(if|for|while|switch|return|new|delete|catch|sizeof)\b\<close>\<close>

definition re_control :: regex where
  "re_control =
    seq [WordB, Grp 1 (alts [Str ''if'', Str ''for'', Str ''while'', Str ''switch'',
    Str ''return'', Str ''new'', Str ''delete'', Str ''catch'', Str ''sizeof'']), WordB]"

text \<open>\<^verbatim>\<open> \([^)]+\)\([^)]*(\)|,$)\<close>\<close>

definition re_function_reference :: regex where
  "re_function_reference =
    seq [Str '' ('', some (NSet [C (CHR '')'')]), Str '')('', many (NSet [C (CHR '')'')]),
    Grp 1 (alts [Str '')'', seq [Str '','', Eol]])]"

text \<open>\<^verbatim>\<open> \([^)]+\)\[[^\]]+\]\<close>\<close>

definition re_array_reference :: regex where
  "re_array_reference =
    seq [Str '' ('', some (NSet [C (CHR '')'')]), Str '')['', some (NSet [C (CHR '']'')]),
    Str '']'']"

text \<open>\<^verbatim>\<open>\w\s*\(\s(?!\s*\\$)\<close>\<close>

definition re_call_space :: regex where
  "re_call_space =
    seq [Set [Wrd], many (Set [Spc]), Str ''('', Set [Spc],
    Look False (seq [many (Set [Spc]), Str [CHR 0x5C], Eol])]"

text \<open>\<^verbatim>\<open>\(\s+(?!(\s*\\)|\()\<close>\<close>

definition re_paren_space :: regex where
  "re_paren_space =
    seq [Str ''('', some (Set [Spc]), Look False (alts [Grp 1 (seq [many (Set [Spc]),
    Str [CHR 0x5C]]), Str ''(''])]"

text \<open>\<^verbatim>\<open>\w\s+\(\<close>\<close>

definition re_space_before_call :: regex where
  "re_space_before_call =
    seq [Set [Wrd], some (Set [Spc]), Str ''('']"

text \<open>\<^verbatim>\<open>#\s*define|typedef|using\s+\w+\s*=\<close>\<close>

definition re_define_typedef :: regex where
  "re_define_typedef =
    alts [seq [Str ''#'', many (Set [Spc]), Str ''define''], Str ''typedef'',
    seq [Str ''using'', some (Set [Spc]), some (Set [Wrd]), many (Set [Spc]), Str ''='']]"

text \<open>\<^verbatim>\<open>\w\s+\((\w+::)*\*\w+\)\(\<close>\<close>

definition re_function_pointer_call :: regex where
  "re_function_pointer_call =
    seq [Set [Wrd], some (Set [Spc]), Str ''('', many (Grp 1 (seq [some (Set [Wrd]),
    Str ''::''])), Str ''*'', some (Set [Wrd]), Str '')('']"

text \<open>\<^verbatim>\<open>\boperator_*\b\<close>\<close>

definition re_operator_word :: regex where
  "re_operator_word =
    seq [WordB, Str ''operator'', many (Str ''_''), WordB]"

text \<open>\<^verbatim>\<open>[^)]\s+\)\s*[^{\s]\<close>\<close>

definition re_space_before_close :: regex where
  "re_space_before_close =
    seq [NSet [C (CHR '')'')], some (Set [Spc]), Str '')'', many (Set [Spc]),
    NSet [C (CHR ''{''), Spc]]"

text \<open>\<^verbatim>\<open>^\s+\)\<close>\<close>

definition re_leading_close :: regex where
  "re_leading_close =
    seq [Bol, some (Set [Spc]), Str '')'']"

text \<open>\<^verbatim>\<open> {6}\w\<close>\<close>

definition re_indent6 :: regex where
  "re_indent6 =
    seq [Rep True 6 (Some 6) (Str '' ''), Set [Wrd]]"

text \<open>\<^verbatim>\<open> {4}\w[^\(]*\)\s*(const\s*)?(\{\s*$|:)\<close>\<close>

definition re_function_head :: regex where
  "re_function_head =
    seq [Rep True 4 (Some 4) (Str '' ''), Set [Wrd], many (NSet [C (CHR ''('')]),
    Str '')'', many (Set [Spc]), opt (Grp 1 (seq [Str ''const'', many (Set [Spc])])),
    Grp 2 (alts [seq [Str ''{'', many (Set [Spc]), Eol], Str '':''])]"

text \<open>\<^verbatim>\<open> {4}:\<close>\<close>

definition re_indent4_colon :: regex where
  "re_indent4_colon =
    seq [Rep True 4 (Some 4) (Str '' ''), Str '':'']"

text \<open>\<^verbatim>\<open>\s*}\<close>\<close>

definition re_close_brace :: regex where
  "re_close_brace =
    seq [many (Set [Spc]), Str ''}'']"

text \<open>\<^verbatim>\<open>\s*(public|protected|private):\<close>\<close>

definition re_access_label :: regex where
  "re_access_label =
    seq [many (Set [Spc]), Grp 1 (seq [Str ''p'', alts [Str ''ublic'', Str ''rotected'',
    Str ''rivate'']]), Str '':'']"

text \<open>\<^verbatim>\<open>\w\s+\[\<close>\<close>

definition re_space_bracket :: regex where
  "re_space_bracket =
    seq [Set [Wrd], some (Set [Spc]), Str ''['']"

text \<open>\<^verbatim>\<open>(?:delete|return)\s+\[\<close>\<close>

definition re_delete_return :: regex where
  "re_delete_return =
    seq [alts [Str ''delete'', Str ''return''], some (Set [Spc]), Str ''['']"

text \<open>\<^verbatim>\<open>for *\(.*[^:]:[^: ]\<close>\<close>

definition re_for_colon_after :: regex where
  "re_for_colon_after =
    seq [Str ''for'', many (Str '' ''), Str ''('', many Dot, NSet [C (CHR '':'')],
    Str '':'', NSet [C (CHR '':''), C (CHR '' '')]]"

text \<open>\<^verbatim>\<open>for *\(.*[^: ]:[^:]\<close>\<close>

definition re_for_colon_before :: regex where
  "re_for_colon_before =
    seq [Str ''for'', many (Str '' ''), Str ''('', many Dot, NSet [C (CHR '':''),
    C (CHR '' '')], Str '':'', NSet [C (CHR '':'')]]"

text \<open>\<^verbatim>\<open>^(.*\boperator\b)(\S+)(\s*\(.*)$\<close>\<close>

definition re_operator_call :: regex where
  "re_operator_call =
    seq [Bol, Grp 1 (seq [many Dot, WordB, Str ''operator'', WordB]),
    Grp 2 (some (Set [NSpc])), Grp 3 (seq [many (Set [Spc]), Str ''('', many Dot]), Eol]"

text \<open>\<^verbatim>\<open>[\w.]=[\w.]\<close>\<close>

definition re_assign_tight :: regex where
  "re_assign_tight =
    seq [Set [Wrd, C (CHR ''.'')], Str ''='', Set [Wrd, C (CHR ''.'')]]"

text \<open>\<^verbatim>\<open>\b(if|while) \<close>\<close>

definition re_if_while :: regex where
  "re_if_while =
    seq [WordB, Grp 1 (alts [Str ''if'', Str ''while'']), Str '' '']"

text \<open>\<^verbatim>\<open>[^<>=!\s](==|!=|<=|>=|\|\|)[^<>=!\s,;\)]\<close>\<close>

definition re_tight_operator :: regex where
  "re_tight_operator =
    seq [NSet [C (CHR ''<''), C (CHR ''>''), C (CHR ''=''), C (CHR ''!''), Spc],
    Grp 1 (alts [Str ''=='', Str ''!='', Str ''<='', Str ''>='', Str ''||'']),
    NSet [C (CHR ''<''), C (CHR ''>''), C (CHR ''=''), C (CHR ''!''), Spc, C (CHR '',''),
    C (CHR '';''), C (CHR '')'')]]"

text \<open>\<^verbatim>\<open>#.*include\<close>\<close>

definition re_hash_include :: regex where
  "re_hash_include =
    seq [Str ''#'', many Dot, Str ''include'']"

text \<open>\<^verbatim>\<open>^(.*[^\s<])<[^\s=<,]\<close>\<close>

definition re_tight_less :: regex where
  "re_tight_less =
    seq [Bol, Grp 1 (seq [many Dot, NSet [Spc, C (CHR ''<'')]]), Str ''<'', NSet [Spc,
    C (CHR ''=''), C (CHR ''<''), C (CHR '','')]]"

text \<open>\<^verbatim>\<open>^(.*[^-\s>])>[^\s=>,]\<close>\<close>

definition re_tight_greater :: regex where
  "re_tight_greater =
    seq [Bol, Grp 1 (seq [many Dot, NSet [C (CHR ''-''), Spc, C (CHR ''>'')]]), Str ''>'',
    NSet [Spc, C (CHR ''=''), C (CHR ''>''), C (CHR '','')]]"

text \<open>\<^verbatim>\<open>(operator|\S)(?:L|UL|ULL|l|ul|ull)?<<([^\s,=])\<close>\<close>

definition re_tight_shift :: regex where
  "re_tight_shift =
    seq [Grp 1 (alts [Str ''operator'', Set [NSpc]]), opt (alts [Str ''L'', Str ''UL'',
    Str ''ULL'', Str ''l'', Str ''ul'', Str ''ull'']), Str ''<<'', Grp 2 (NSet [Spc,
    C (CHR '',''), C (CHR ''='')])]"

text \<open>\<^verbatim>\<open>>>[a-zA-Z_]\<close>\<close>

definition re_shift_alpha :: regex where
  "re_shift_alpha =
    seq [Str ''>>'', Set [Rng (CHR ''a'') (CHR ''z''), Rng (CHR ''A'') (CHR ''Z''),
    C (CHR ''_'')]]"

text \<open>\<^verbatim>\<open>(!\s|~\s|[\s]--[\s;]|[\s]\+\+[\s;])\<close>\<close>

definition re_unary_space :: regex where
  "re_unary_space =
    Grp 1 (alts [seq [Str ''!'', Set [Spc]], seq [Str ''~'', Set [Spc]], seq [Set [Spc],
    Str ''--'', Set [Spc, C (CHR '';'')]], seq [Set [Spc], Str ''++'', Set [Spc,
    C (CHR '';'')]]])"

text \<open>\<^verbatim>\<open> (if\(|for\(|while\(|switch\()\<close>\<close>

definition re_keyword_paren :: regex where
  "re_keyword_paren =
    seq [Str '' '', Grp 1 (alts [Str ''if('', Str ''for('', Str ''while('',
    Str ''switch(''])]"

text \<open>\<^verbatim>\<open>\b(if|for|while|switch)\s*\(([ ]*)(.).*[^ ]+([ ]*)\)\s*{\s*$\<close>\<close>

definition re_paren_sides :: regex where
  "re_paren_sides =
    seq [WordB, Grp 1 (alts [Str ''if'', Str ''for'', Str ''while'', Str ''switch'']),
    many (Set [Spc]), Str ''('', Grp 2 (many (Str '' '')), Grp 3 Dot, many Dot,
    some (NSet [C (CHR '' '')]), Grp 4 (many (Str '' '')), Str '')'', many (Set [Spc]),
    Str ''{'', many (Set [Spc]), Eol]"

text \<open>\<^verbatim>\<open>\bfor\s*\(.*; \)\<close>\<close>

definition re_for_empty :: regex where
  "re_for_empty =
    seq [WordB, Str ''for'', many (Set [Spc]), Str ''('', many Dot, Str ''; )'']"

text \<open>\<^verbatim>\<open>,[^,\s]\<close>\<close>

definition re_comma_tight :: regex where
  "re_comma_tight =
    seq [Str '','', NSet [C (CHR '',''), Spc]]"

text \<open>\<^verbatim>\<open>\boperator\s*,\s*\(\<close>\<close>

definition re_operator_comma :: regex where
  "re_operator_comma =
    seq [WordB, Str ''operator'', many (Set [Spc]), Str '','', many (Set [Spc]), Str ''('']"

text \<open>\<^verbatim>\<open>;[^\s};\\)/]\<close>\<close>

definition re_semicolon_tight :: regex where
  "re_semicolon_tight =
    seq [Str '';'', NSet [Spc, C (CHR ''}''), C (CHR '';''), C (CHR 0x5C), C (CHR '')''),
    C (CHR ''/'')]]"

text \<open>\<^verbatim>\<open>^(.*[^ ({]){\<close>\<close>

definition re_tight_brace :: regex where
  "re_tight_brace =
    seq [Bol, Grp 1 (seq [many Dot, NSet [C (CHR '' ''), C (CHR ''(''), C (CHR ''{'')]]),
    Str ''{'']"

text \<open>\<^verbatim>\<open>^[\s}]*[{.;,)<>\]:]\<close>\<close>

definition re_brace_trailer :: regex where
  "re_brace_trailer =
    seq [Bol, many (Set [Spc, C (CHR ''}'')]), Set [C (CHR ''{''), C (CHR ''.''),
    C (CHR '';''), C (CHR '',''), C (CHR '')''), C (CHR ''<''), C (CHR ''>''),
    C (CHR '']''), C (CHR '':'')]]"

text \<open>\<^verbatim>\<open>}else\<close>\<close>

definition re_brace_else :: regex where
  "re_brace_else =
    Str ''}else''"

text \<open>\<^verbatim>\<open>:\s*;\s*$\<close>\<close>

definition re_colon_semicolon :: regex where
  "re_colon_semicolon =
    seq [Str '':'', many (Set [Spc]), Str '';'', many (Set [Spc]), Eol]"

text \<open>\<^verbatim>\<open>^\s*;\s*$\<close>\<close>

definition re_only_semicolon :: regex where
  "re_only_semicolon =
    seq [Bol, many (Set [Spc]), Str '';'', many (Set [Spc]), Eol]"

text \<open>\<^verbatim>\<open>\s+;\s*$\<close>\<close>

definition re_space_semicolon :: regex where
  "re_space_semicolon =
    seq [some (Set [Spc]), Str '';'', many (Set [Spc]), Eol]"

text \<open>\<^verbatim>\<open>\bfor\b\<close>\<close>

definition re_for_word :: regex where
  "re_for_word =
    seq [WordB, Str ''for'', WordB]"

text \<open>\<^verbatim>\<open>\bdecltype\s*$\<close>\<close>

definition re_decltype_end :: regex where
  "re_decltype_end =
    seq [WordB, Str ''decltype'', many (Set [Spc]), Eol]"

text \<open>\<^verbatim>\<open>\btemplate\s*$\<close>\<close>

definition re_template_end :: regex where
  "re_template_end =
    seq [WordB, Str ''template'', many (Set [Spc]), Eol]"

text \<open>\<^verbatim>\<open>^(.*)(\b\w+|[>*)&])\s*$\<close>\<close>

definition re_type_token :: regex where
  "re_type_token =
    seq [Bol, Grp 1 (many Dot), Grp 2 (alts [seq [WordB, some (Set [Wrd])],
    Set [C (CHR ''>''), C (CHR ''*''), C (CHR '')''), C (CHR ''&'')]]), many (Set [Spc]),
    Eol]"

text \<open>\<^verbatim>\<open>&&\s*(?:[>,]|\.\.\.)\<close>\<close>

definition re_rvalue_suffix :: regex where
  "re_rvalue_suffix =
    seq [Str ''&&'', many (Set [Spc]), alts [Set [C (CHR ''>''), C (CHR '','')],
    Str ''...'']]"

text \<open>\<^verbatim>\<open>\b(?:const_cast\s*<|static_cast\s*<|dynamic_cast\s*<|reinterpret_cast\s*<|\w+\s)\s*$\<close>\<close>

definition re_cast_or_word :: regex where
  "re_cast_or_word =
    seq [WordB, alts [seq [Str ''const_cast'', many (Set [Spc]), Str ''<''],
    seq [Str ''static_cast'', many (Set [Spc]), Str ''<''], seq [Str ''dynamic_cast'',
    many (Set [Spc]), Str ''<''], seq [Str ''reinterpret_cast'', many (Set [Spc]),
    Str ''<''], seq [some (Set [Wrd]), Set [Spc]]], many (Set [Spc]), Eol]"

text \<open>\<^verbatim>\<open>^(.*)([^\w\s,])[\w\s,]*$\<close>\<close>

definition re_last_symbol :: regex where
  "re_last_symbol =
    seq [Bol, Grp 1 (many Dot), Grp 2 (NSet [Wrd, Spc, C (CHR '','')]), many (Set [Wrd,
    Spc, C (CHR '','')]), Eol]"

text \<open>\<^verbatim>\<open>for\s*\([^{};]*$\<close>\<close>

definition re_for_init :: regex where
  "re_for_init =
    seq [Str ''for'', many (Set [Spc]), Str ''('', many (NSet [C (CHR ''{''),
    C (CHR ''}''), C (CHR '';'')]), Eol]"

text \<open>\<^verbatim>\<open>(?:\]|\bfor|\bsizeof|\boperator\s*\S+\s*)\s*$\<close>\<close>

definition re_type_context :: regex where
  "re_type_context =
    seq [alts [Str '']'', seq [WordB, Str ''for''], seq [WordB, Str ''sizeof''],
    seq [WordB, Str ''operator'', many (Set [Spc]), some (Set [NSpc]), many (Set [Spc])]],
    many (Set [Spc]), Eol]"

text \<open>\<^verbatim>\<open>(?:\bif|\bwhile|[-+=%^(<!?:,&*]\s*)$\<close>\<close>

definition re_expression_context :: regex where
  "re_expression_context =
    seq [alts [seq [WordB, Str ''if''], seq [WordB, Str ''while''],
    seq [Set [C (CHR ''-''), C (CHR ''+''), C (CHR ''=''), C (CHR ''%''), C (CHR ''^''),
    C (CHR ''(''), C (CHR ''<''), C (CHR ''!''), C (CHR ''?''), C (CHR '':''),
    C (CHR '',''), C (CHR ''&''), C (CHR ''*'')], many (Set [Spc])]], Eol]"

text \<open>\<^verbatim>\<open>^(.*)\s+\w(?:\w|::)*(?:<[^<>]*>)?\s*$\<close>\<close>

definition re_return_type_name :: regex where
  "re_return_type_name =
    seq [Bol, Grp 1 (many Dot), some (Set [Spc]), Set [Wrd], many (alts [Set [Wrd],
    Str ''::'']), opt (seq [Str ''<'', many (NSet [C (CHR ''<''), C (CHR ''>'')]),
    Str ''>'']), many (Set [Spc]), Eol]"

text \<open>\<^verbatim>\<open>\b(?:explicit|inline)$\<close>\<close>

definition re_explicit_inline_end :: regex where
  "re_explicit_inline_end =
    seq [WordB, alts [Str ''explicit'', Str ''inline''], Eol]"

text \<open>\<^verbatim>\<open>\s*(\w+)\((?:const\s+)?(\w+)\<close>\<close>

definition re_implicit_constructor :: regex where
  "re_implicit_constructor =
    seq [many (Set [Spc]), Grp 1 (some (Set [Wrd])), Str ''('', opt (seq [Str ''const'',
    some (Set [Spc])]), Grp 2 (some (Set [Wrd]))]"

text \<open>\<^verbatim>\<open>\s*=\s*(?:delete|default)\b\<close>\<close>

definition re_deleted_default :: regex where
  "re_deleted_default =
    seq [many (Set [Spc]), Str ''='', many (Set [Spc]), Str ''de'', alts [Str ''lete'',
    Str ''fault''], WordB]"

text \<open>\<^verbatim>\<open>GOOGLE_ALLOW_RVALUE_REFERENCES_(?:PUSH|POP)\<close>\<close>

definition re_allow_rvalue :: regex where
  "re_allow_rvalue =
    seq [Str ''GOOGLE_ALLOW_RVALUE_REFERENCES_P'', alts [Str ''USH'', Str ''OP'']]"

text \<open>\<^verbatim>\<open>\boperator\s*=\s*\(\<close>\<close>

definition re_operator_assign :: regex where
  "re_operator_assign =
    seq [WordB, Str ''operator'', many (Set [Spc]), Str ''='', many (Set [Spc]), Str ''('']"

text \<open>\<^verbatim>\<open>\s*([\w<>]+)\s*::\s*([\w<>]+)\s*\(\<close>\<close>

definition re_qualified_constructor :: regex where
  "re_qualified_constructor =
    seq [many (Set [Spc]), Grp 1 (some (Set [Wrd, C (CHR ''<''), C (CHR ''>'')])),
    many (Set [Spc]), Str ''::'', many (Set [Spc]), Grp 2 (some (Set [Wrd, C (CHR ''<''),
    C (CHR ''>'')])), many (Set [Spc]), Str ''('']"

text \<open>\<^verbatim>\<open>\b(?:explicit|inline)\s+[\w<>]+\s*\(\<close>\<close>

definition re_explicit_inline :: regex where
  "re_explicit_inline =
    seq [WordB, alts [Str ''explicit'', Str ''inline''], some (Set [Spc]), some (Set [Wrd,
    C (CHR ''<''), C (CHR ''>'')]), many (Set [Spc]), Str ''('']"

text \<open>\<^verbatim>\<open>\s*[\w<>]+\s*\(\<close>\<close>

definition re_plain_constructor :: regex where
  "re_plain_constructor =
    seq [many (Set [Spc]), some (Set [Wrd, C (CHR ''<''), C (CHR ''>'')]),
    many (Set [Spc]), Str ''('']"

text \<open>\<^verbatim>\<open>[{}:;]\s*$\<close>\<close>

definition re_statement_end :: regex where
  "re_statement_end =
    seq [Set [C (CHR ''{''), C (CHR ''}''), C (CHR '':''), C (CHR '';'')],
    many (Set [Spc]), Eol]"

text \<open>\<^verbatim>\<open>^(.*\S)&&\<close>\<close>

definition re_and_tight_left :: regex where
  "re_and_tight_left =
    seq [Bol, Grp 1 (seq [many Dot, Set [NSpc]]), Str ''&&'']"

text \<open>\<^verbatim>\<open>(.*)&&\S\<close>\<close>

definition re_and_tight_right :: regex where
  "re_and_tight_right =
    seq [Grp 1 (many Dot), Str ''&&'', Set [NSpc]]"

text \<open>\<^verbatim>\<open>\boperator\s*$\<close>\<close>

definition re_operator_end_word :: regex where
  "re_operator_end_word =
    seq [WordB, Str ''operator'', many (Set [Spc]), Eol]"

text \<open>\<^verbatim>\<open>\s*{\s*$\<close>\<close>

definition re_lone_brace :: regex where
  "re_lone_brace =
    seq [many (Set [Spc]), Str ''{'', many (Set [Spc]), Eol]"

text \<open>\<^verbatim>\<open>[,;:}{(]\s*$\<close>\<close>

definition re_continues :: regex where
  "re_continues =
    seq [Set [C (CHR '',''), C (CHR '';''), C (CHR '':''), C (CHR ''}''), C (CHR ''{''),
    C (CHR ''('')], many (Set [Spc]), Eol]"

text \<open>\<^verbatim>\<open>\s*#\<close>\<close>

definition re_hash :: regex where
  "re_hash =
    seq [many (Set [Spc]), Str ''#'']"

text \<open>\<^verbatim>\<open>\s*else\b\s*(?:if\b|\{|$)\<close>\<close>

definition re_else_start :: regex where
  "re_else_start =
    seq [many (Set [Spc]), Str ''else'', WordB, many (Set [Spc]), alts [seq [Str ''if'',
    WordB], Str ''{'', Eol]]"

text \<open>\<^verbatim>\<open>\s*}\s*$\<close>\<close>

definition re_lone_close :: regex where
  "re_lone_close =
    seq [many (Set [Spc]), Str ''}'', many (Set [Spc]), Eol]"

text \<open>\<^verbatim>\<open>else if\s*\(\<close>\<close>

definition re_else_if_paren :: regex where
  "re_else_if_paren =
    seq [Str ''else if'', many (Set [Spc]), Str ''('']"

text \<open>\<^verbatim>\<open>}\s*else if\s*\(\<close>\<close>

definition re_brace_else_if :: regex where
  "re_brace_else_if =
    seq [Str ''}'', many (Set [Spc]), Str ''else if'', many (Set [Spc]), Str ''('']"

text \<open>\<^verbatim>\<open>}\s*else[^{]*$\<close>\<close>

definition re_brace_else_end :: regex where
  "re_brace_else_end =
    seq [Str ''}'', many (Set [Spc]), Str ''else'', many (NSet [C (CHR ''{'')]), Eol]"

text \<open>\<^verbatim>\<open>[^}]*else\s*{\<close>\<close>

definition re_else_brace :: regex where
  "re_else_brace =
    seq [many (NSet [C (CHR ''}'')]), Str ''else'', many (Set [Spc]), Str ''{'']"

text \<open>\<^verbatim>\<open>\belse [^\s{]\<close>\<close>

definition re_else_clause :: regex where
  "re_else_clause =
    seq [WordB, Str ''else '', NSet [Spc, C (CHR ''{'')]]"

text \<open>\<^verbatim>\<open>\belse if\b\<close>\<close>

definition re_else_if_word :: regex where
  "re_else_if_word =
    seq [WordB, Str ''else if'', WordB]"

text \<open>\<^verbatim>\<open>\s*do [^\s{]\<close>\<close>

definition re_do_clause :: regex where
  "re_do_clause =
    seq [many (Set [Spc]), Str ''do '', NSet [Spc, C (CHR ''{'')]]"

text \<open>\<^verbatim>\<open>\b(if\s*\(|else\b)\<close>\<close>

definition re_if_else :: regex where
  "re_if_else =
    seq [WordB, Grp 1 (alts [seq [Str ''if'', many (Set [Spc]), Str ''(''],
    seq [Str ''else'', WordB]])]"

text \<open>\<^verbatim>\<open>\bif\s*\(\<close>\<close>

definition re_if_paren :: regex where
  "re_if_paren =
    seq [WordB, Str ''if'', many (Set [Spc]), Str ''('']"

text \<open>\<^verbatim>\<open>\s*{\<close>\<close>

definition re_then_brace :: regex where
  "re_then_brace =
    seq [many (Set [Spc]), Str ''{'']"

text \<open>\<^verbatim>\<open>\s*$\<close>\<close>

definition re_only_space :: regex where
  "re_only_space =
    seq [many (Set [Spc]), Eol]"

text \<open>\<^verbatim>\<open>;[\s}]*(\\?)$\<close>\<close>

definition re_statement_tail :: regex where
  "re_statement_tail =
    seq [Str '';'', many (Set [Spc, C (CHR ''}'')]), Grp 1 (opt (Str [CHR 0x5C])), Eol]"

text \<open>\<^verbatim>\<open>^[^{};]*\[[^\[\]]*\][^{}]*\{[^{}]*\}\s*\)*[;,]\s*$\<close>\<close>

definition re_lambda_statement :: regex where
  "re_lambda_statement =
    seq [Bol, many (NSet [C (CHR ''{''), C (CHR ''}''), C (CHR '';'')]), Str ''['',
    many (NSet [C (CHR ''[''), C (CHR '']'')]), Str '']'', many (NSet [C (CHR ''{''),
    C (CHR ''}'')]), Str ''{'', many (NSet [C (CHR ''{''), C (CHR ''}'')]), Str ''}'',
    many (Set [Spc]), many (Str '')''), Set [C (CHR '';''), C (CHR '','')],
    many (Set [Spc]), Eol]"

text \<open>\<^verbatim>\<open>\s*else\b\<close>\<close>

definition re_else_line :: regex where
  "re_else_line =
    seq [many (Set [Spc]), Str ''else'', WordB]"

text \<open>\<^verbatim>\<open>^(.*\)\s*)\{\<close>\<close>

definition re_paren_block :: regex where
  "re_paren_block =
    seq [Bol, Grp 1 (seq [many Dot, Str '')'', many (Set [Spc])]), Str ''{'']"

text \<open>\<^verbatim>\<open>\b([A-Z_]+)\s*$\<close>\<close>

definition re_macro_end :: regex where
  "re_macro_end =
    seq [WordB, Grp 1 (some (Set [Rng (CHR ''A'') (CHR ''Z''), C (CHR ''_'')])),
    many (Set [Spc]), Eol]"

text \<open>\<^verbatim>\<open>^(.*\])\s*$\<close>\<close>

definition re_lambda_end :: regex where
  "re_lambda_end =
    seq [Bol, Grp 1 (seq [many Dot, Str '']'']), many (Set [Spc]), Eol]"

text \<open>\<^verbatim>\<open>\boperator\s*\[\s*\]\<close>\<close>

definition re_operator_index :: regex where
  "re_operator_index =
    seq [WordB, Str ''operator'', many (Set [Spc]), Str ''['', many (Set [Spc]), Str '']'']"

text \<open>\<^verbatim>\<open>\s+=\s*$\<close>\<close>

definition re_assigned :: regex where
  "re_assigned =
    seq [some (Set [Spc]), Str ''='', many (Set [Spc]), Eol]"

text \<open>\<^verbatim>\<open>\]\s*$\<close>\<close>

definition re_bracket_end :: regex where
  "re_bracket_end =
    seq [Str '']'', many (Set [Spc]), Eol]"

text \<open>\<^verbatim>\<open>^(.*(?:else|\)\s*const)\s*)\{\<close>\<close>

definition re_else_block :: regex where
  "re_else_block =
    seq [Bol, Grp 1 (seq [many Dot, alts [Str ''else'', seq [Str '')'', many (Set [Spc]),
    Str ''const'']], many (Set [Spc])]), Str ''{'']"

text \<open>\<^verbatim>\<open>[;{}]\s*$\<close>\<close>

definition re_block_end :: regex where
  "re_block_end =
    seq [Set [C (CHR '';''), C (CHR ''{''), C (CHR ''}'')], many (Set [Spc]), Eol]"

text \<open>\<^verbatim>\<open>^(\s*)\{\<close>\<close>

definition re_block_start :: regex where
  "re_block_start =
    seq [Bol, Grp 1 (many (Set [Spc])), Str ''{'']"

text \<open>\<^verbatim>\<open>^\s*;\<close>\<close>

definition re_then_semicolon :: regex where
  "re_then_semicolon =
    seq [Bol, many (Set [Spc]), Str '';'']"

text \<open>\<^verbatim>\<open>^(.*\bNAME\s*)\(\<close>\<close>

definition re_check_macro :: "string \<Rightarrow> regex" where
  "re_check_macro name =
    seq [Bol, Grp 1 (seq [many Dot, WordB, Str name, many (Set [Spc])]), Str ''('']"

text \<open>\<^verbatim>\<open>\s*;\<close>\<close>

definition re_statement_ends :: regex where
  "re_statement_ends =
    seq [many (Set [Spc]), Str '';'']"

text \<open>\<^verbatim>\<open>^\s*(<<|<<=|>>|>>=|->\*|->|&&|\|\||==|!=|>=|>|<=|<|\()(.*)$\<close>\<close>

definition re_check_operator :: regex where
  "re_check_operator =
    seq [Bol, many (Set [Spc]), Grp 1 (alts [Str ''<<'', Str ''<<='', Str ''>>'',
    Str ''>>='', Str ''->*'', Str ''->'', Str ''&&'', Str ''||'', Str ''=='', Str ''!='',
    Str ''>='', Str ''>'', Str ''<='', Str ''<'', Str ''('']), Grp 2 (many Dot), Eol]"

text \<open>\<^verbatim>\<open>^([^-=!<>()&|]+)(.*)$\<close>\<close>

definition re_check_operand :: regex where
  "re_check_operand =
    seq [Bol, Grp 1 (some (NSet [C (CHR ''-''), C (CHR ''=''), C (CHR ''!''),
    C (CHR ''<''), C (CHR ''>''), C (CHR ''(''), C (CHR '')''), C (CHR ''&''),
    C (CHR ''|'')])), Grp 2 (many Dot), Eol]"

text \<open>\<^verbatim>\<open>^(\s*\S)(.*)$\<close>\<close>

definition re_check_char :: regex where
  "re_check_char =
    seq [Bol, Grp 1 (seq [many (Set [Spc]), Set [NSpc]]), Grp 2 (many Dot), Eol]"

text \<open>\<^verbatim>\<open>^([-+]?(\d+|0[xX][0-9a-fA-F]+)[lLuU]{0,3}|".*"|\'.*\')$\<close>\<close>

definition re_constant :: regex where
  "re_constant =
    seq [Bol, Grp 1 (alts [seq [opt (Set [C (CHR ''-''), C (CHR ''+'')]),
    Grp 2 (alts [some (Set [Dig]), seq [Str ''0'', Set [C (CHR ''x''), C (CHR ''X'')],
    some (Set [Rng (CHR ''0'') (CHR ''9''), Rng (CHR ''a'') (CHR ''f''),
    Rng (CHR ''A'') (CHR ''F'')])]]), Rep True 0 (Some 3) (Set [C (CHR ''l''),
    C (CHR ''L''), C (CHR ''u''), C (CHR ''U'')])], seq [Str [CHR 0x22], many Dot,
    Str [CHR 0x22]], seq [Str [CHR 0x27], many Dot, Str [CHR 0x27]]]), Eol]"

text \<open>\<^verbatim>\<open>\s*\w+\s*:\s*\\?$\<close>\<close>

definition re_scope_or_label :: regex where
  "re_scope_or_label =
    seq [many (Set [Spc]), some (Set [Wrd]), many (Set [Spc]), Str '':'', many (Set [Spc]),
    opt (Str [CHR 0x5C]), Eol]"

text \<open>\<^verbatim>\<open>^\s*""\<close>\<close>

definition re_empty_string_start :: regex where
  "re_empty_string_start =
    seq [Bol, many (Set [Spc]), Str ([CHR 0x22] @ [CHR 0x22])]"

text \<open>\<^verbatim>\<open>^\s*//.*http(s?)://\S*$\<close>\<close>

definition re_url_comment :: regex where
  "re_url_comment =
    seq [Bol, many (Set [Spc]), Str ''//'', many Dot, Str ''http'',
    Grp 1 (opt (Str ''s'')), Str ''://'', many (Set [NSpc]), Eol]"

text \<open>\<^verbatim>\<open>^// \$Id:.*#[0-9]+ \$$\<close>\<close>

definition re_id_comment :: regex where
  "re_id_comment =
    seq [Bol, Str ''// $Id:'', many Dot, Str ''#'',
    some (Set [Rng (CHR ''0'') (CHR ''9'')]), Str '' $'', Eol]"

text \<open>\<^verbatim>\<open>((?:const\s+)?(?:typename\s+|class\s+|struct\s+|union\s+|enum\s+)?(?:\w|\s*<(?:<(?:<[^<>]*>|[^<>])*>|[^<>])*>|::)+(?:\s*(?:\bconst\b|[*]))*\s*&\s*[_a-zA-Z]\w*)\s*(?:=[^,()]+)?[,)]\<close>\<close>

definition re_ref_param :: regex where
  "re_ref_param =
    seq [Grp 1 (seq [opt (seq [Str ''const'', some (Set [Spc])]),
    opt (alts [seq [Str ''typename'', some (Set [Spc])], seq [Str ''class'',
    some (Set [Spc])], seq [Str ''struct'', some (Set [Spc])], seq [Str ''union'',
    some (Set [Spc])], seq [Str ''enum'', some (Set [Spc])]]), some (alts [Set [Wrd],
    seq [many (Set [Spc]), Str ''<'', many (alts [seq [Str ''<'',
    many (alts [seq [Str ''<'', many (NSet [C (CHR ''<''), C (CHR ''>'')]), Str ''>''],
    NSet [C (CHR ''<''), C (CHR ''>'')]]), Str ''>''], NSet [C (CHR ''<''),
    C (CHR ''>'')]]), Str ''>''], Str ''::'']), many (seq [many (Set [Spc]),
    alts [seq [WordB, Str ''const'', WordB], Str ''*'']]), many (Set [Spc]), Str ''&'',
    many (Set [Spc]), Set [C (CHR ''_''), Rng (CHR ''a'') (CHR ''z''),
    Rng (CHR ''A'') (CHR ''Z'')], many (Set [Wrd])]), many (Set [Spc]),
    opt (seq [Str ''='', some (NSet [C (CHR '',''), C (CHR ''(''), C (CHR '')'')])]),
    Set [C (CHR '',''), C (CHR '')'')]]"

text \<open>\<^verbatim>\<open>(?:.*\s*\bconst\s*&\s*[_a-zA-Z]\w*|const\s+(?:const\s+)?(?:typename\s+|class\s+|struct\s+|union\s+|enum\s+)?(?:\w|\s*<(?:<(?:<[^<>]*>|[^<>])*>|[^<>])*>|::)+\s*&\s*[_a-zA-Z]\w*)\<close>\<close>

definition re_const_ref_param :: regex where
  "re_const_ref_param =
    alts [seq [many Dot, many (Set [Spc]), WordB, Str ''const'', many (Set [Spc]),
    Str ''&'', many (Set [Spc]), Set [C (CHR ''_''), Rng (CHR ''a'') (CHR ''z''),
    Rng (CHR ''A'') (CHR ''Z'')], many (Set [Wrd])], seq [Str ''const'', some (Set [Spc]),
    opt (seq [Str ''const'', some (Set [Spc])]), opt (alts [seq [Str ''typename'',
    some (Set [Spc])], seq [Str ''class'', some (Set [Spc])], seq [Str ''struct'',
    some (Set [Spc])], seq [Str ''union'', some (Set [Spc])], seq [Str ''enum'',
    some (Set [Spc])]]), some (alts [Set [Wrd], seq [many (Set [Spc]), Str ''<'',
    many (alts [seq [Str ''<'', many (alts [seq [Str ''<'', many (NSet [C (CHR ''<''),
    C (CHR ''>'')]), Str ''>''], NSet [C (CHR ''<''), C (CHR ''>'')]]), Str ''>''],
    NSet [C (CHR ''<''), C (CHR ''>'')]]), Str ''>''], Str ''::'']), many (Set [Spc]),
    Str ''&'', many (Set [Spc]), Set [C (CHR ''_''), Rng (CHR ''a'') (CHR ''z''),
    Rng (CHR ''A'') (CHR ''Z'')], many (Set [Wrd])]]"

text \<open>\<^verbatim>\<open>^\s*#\s*(if|ifdef|ifndef|elif|else|endif)\b\<close>\<close>

definition re_conditional :: regex where
  "re_conditional =
    seq [Bol, many (Set [Spc]), Str ''#'', many (Set [Spc]), Grp 1 (alts [Str ''if'',
    Str ''ifdef'', Str ''ifndef'', Str ''elif'', Str ''else'', Str ''endif'']), WordB]"

text \<open>\<^verbatim>\<open>\bshort port\b\<close>\<close>

definition re_short_port :: regex where
  "re_short_port =
    seq [WordB, Str ''short port'', WordB]"

text \<open>\<^verbatim>\<open>\bunsigned short port\b\<close>\<close>

definition re_unsigned_port :: regex where
  "re_unsigned_port =
    seq [WordB, Str ''unsigned short port'', WordB]"

text \<open>\<^verbatim>\<open>\b(short|long(?! +double)|long long)\b\<close>\<close>

definition re_c_integer :: regex where
  "re_c_integer =
    seq [WordB, Grp 1 (alts [Str ''short'', seq [Str ''long'',
    Look False (seq [some (Str '' ''), Str ''double''])], Str ''long long'']), WordB]"

text \<open>\<^verbatim>\<open>\boperator\s*&\s*\(\s*\)\<close>\<close>

definition re_unary_and :: regex where
  "re_unary_and =
    seq [WordB, Str ''operator'', many (Set [Spc]), Str ''&'', many (Set [Spc]), Str ''('',
    many (Set [Spc]), Str '')'']"

text \<open>\<^verbatim>\<open>\}\s*if\s*\(\<close>\<close>

definition re_brace_if :: regex where
  "re_brace_if =
    seq [Str ''}'', many (Set [Spc]), Str ''if'', many (Set [Spc]), Str ''('']"

text \<open>\<^verbatim>\<open>\b(string)?printf\s*\(\<close> ignoring case\<close>

definition re_printf_start :: regex where
  "re_printf_start =
    seq [WordB, opt (Grp 1 (seq [Set [C (CHR ''S''), C (CHR ''s'')], Set [C (CHR ''T''),
    C (CHR ''t'')], Set [C (CHR ''R''), C (CHR ''r'')], Set [C (CHR ''I''), C (CHR ''i'')],
    Set [C (CHR ''N''), C (CHR ''n'')], Set [C (CHR ''G''), C (CHR ''g'')]])),
    Set [C (CHR ''P''), C (CHR ''p'')], Set [C (CHR ''R''), C (CHR ''r'')],
    Set [C (CHR ''I''), C (CHR ''i'')], Set [C (CHR ''N''), C (CHR ''n'')],
    Set [C (CHR ''T''), C (CHR ''t'')], Set [C (CHR ''F''), C (CHR ''f'')],
    many (Set [Spc]), Str ''('']"

text \<open>\<^verbatim>\<open>([\w.\->()]+)$\<close>\<close>

definition re_printf_args :: regex where
  "re_printf_args =
    seq [Grp 1 (some (Set [Wrd, C (CHR ''.''), C (CHR ''-''), C (CHR ''>''), C (CHR ''(''),
    C (CHR '')'')])), Eol]"

text \<open>\<^verbatim>\<open>\b((?:string)?printf)\s*\(\<close> ignoring case\<close>

definition re_printf_name :: regex where
  "re_printf_name =
    seq [WordB, Grp 1 (seq [opt (seq [Set [C (CHR ''S''), C (CHR ''s'')],
    Set [C (CHR ''T''), C (CHR ''t'')], Set [C (CHR ''R''), C (CHR ''r'')],
    Set [C (CHR ''I''), C (CHR ''i'')], Set [C (CHR ''N''), C (CHR ''n'')],
    Set [C (CHR ''G''), C (CHR ''g'')]]), Set [C (CHR ''P''), C (CHR ''p'')],
    Set [C (CHR ''R''), C (CHR ''r'')], Set [C (CHR ''I''), C (CHR ''i'')],
    Set [C (CHR ''N''), C (CHR ''n'')], Set [C (CHR ''T''), C (CHR ''t'')],
    Set [C (CHR ''F''), C (CHR ''f'')]]), many (Set [Spc]), Str ''('']"

text \<open>\<^verbatim>\<open>memset\s*\(([^,]*),\s*([^,]*),\s*0\s*\)\<close>\<close>

definition re_memset :: regex where
  "re_memset =
    seq [Str ''memset'', many (Set [Spc]), Str ''('', Grp 1 (many (NSet [C (CHR '','')])),
    Str '','', many (Set [Spc]), Grp 2 (many (NSet [C (CHR '','')])), Str '','',
    many (Set [Spc]), Str ''0'', many (Set [Spc]), Str '')'']"

text \<open>\<^verbatim>\<open>^''|-?[0-9]+|0x[0-9A-Fa-f]$\<close>\<close>

definition re_memset_value :: regex where
  "re_memset_value =
    alts [seq [Bol, Str ([CHR 0x27] @ [CHR 0x27])], seq [opt (Str ''-''),
    some (Set [Rng (CHR ''0'') (CHR ''9'')])], seq [Str ''0x'',
    Set [Rng (CHR ''0'') (CHR ''9''), Rng (CHR ''A'') (CHR ''F''),
    Rng (CHR ''a'') (CHR ''f'')], Eol]]"

text \<open>\<^verbatim>\<open>\busing namespace\b\<close>\<close>

definition re_using_namespace :: regex where
  "re_using_namespace =
    seq [WordB, Str ''using namespace'', WordB]"

text \<open>\<^verbatim>\<open>\s*(.+::)?(\w+) [a-z]\w*\[(.+)];\<close>\<close>

definition re_array_declaration :: regex where
  "re_array_declaration =
    seq [many (Set [Spc]), opt (Grp 1 (seq [some Dot, Str ''::''])),
    Grp 2 (some (Set [Wrd])), Str '' '', Set [Rng (CHR ''a'') (CHR ''z'')],
    many (Set [Wrd]), Str ''['', Grp 3 (some Dot), Str ''];'']"

text \<open>\<^verbatim>\<open>\s|\+|\-|\*|\/|<<|>>]\<close>\<close>

definition re_size_separator :: regex where
  "re_size_separator =
    alts [Set [Spc], Str ''+'', Str ''-'', Str ''*'', Str ''/'', Str ''<<'', Str ''>>]'']"

text \<open>\<^verbatim>\<open>sizeof\(.+\)\<close>\<close>

definition re_sizeof :: regex where
  "re_sizeof =
    seq [Str ''sizeof('', some Dot, Str '')'']"

text \<open>\<^verbatim>\<open>arraysize\(\w+\)\<close>\<close>

definition re_arraysize :: regex where
  "re_arraysize =
    seq [Str ''arraysize('', some (Set [Wrd]), Str '')'']"

text \<open>\<^verbatim>\<open>\d+\<close>\<close>

definition re_digits :: regex where
  "re_digits =
    some (Set [Dig])"

text \<open>\<^verbatim>\<open>0[xX][0-9a-fA-F]+\<close>\<close>

definition re_hex :: regex where
  "re_hex =
    seq [Str ''0'', Set [C (CHR ''x''), C (CHR ''X'')],
    some (Set [Rng (CHR ''0'') (CHR ''9''), Rng (CHR ''a'') (CHR ''f''),
    Rng (CHR ''A'') (CHR ''F'')])]"

text \<open>\<^verbatim>\<open>k[A-Z0-9]\w*\<close>\<close>

definition re_k_constant :: regex where
  "re_k_constant =
    seq [Str ''k'', Set [Rng (CHR ''A'') (CHR ''Z''), Rng (CHR ''0'') (CHR ''9'')],
    many (Set [Wrd])]"

text \<open>\<^verbatim>\<open>(.+::)?k[A-Z0-9]\w*\<close>\<close>

definition re_scoped_k_constant :: regex where
  "re_scoped_k_constant =
    seq [opt (Grp 1 (seq [some Dot, Str ''::''])), Str ''k'',
    Set [Rng (CHR ''A'') (CHR ''Z''), Rng (CHR ''0'') (CHR ''9'')], many (Set [Wrd])]"

text \<open>\<^verbatim>\<open>(.+::)?[A-Z][A-Z0-9_]*\<close>\<close>

definition re_scoped_constant :: regex where
  "re_scoped_constant =
    seq [opt (Grp 1 (seq [some Dot, Str ''::''])), Set [Rng (CHR ''A'') (CHR ''Z'')],
    many (Set [Rng (CHR ''A'') (CHR ''Z''), Rng (CHR ''0'') (CHR ''9''), C (CHR ''_'')])]"

text \<open>\<^verbatim>\<open>\s*(DISALLOW_(COPY_AND_ASSIGN|IMPLICIT_CONSTRUCTORS))\(.*\);$\<close>\<close>

definition re_disallow_line :: regex where
  "re_disallow_line =
    seq [many (Set [Spc]), Grp 1 (seq [Str ''DISALLOW_'',
    Grp 2 (alts [Str ''COPY_AND_ASSIGN'', Str ''IMPLICIT_CONSTRUCTORS''])]), Str ''('',
    many Dot, Str '');'', Eol]"

text \<open>\<^verbatim>\<open>^\s*}[\w\*,\s]*;\<close>\<close>

definition re_class_tail :: regex where
  "re_class_tail =
    seq [Bol, many (Set [Spc]), Str ''}'', many (Set [Wrd, C (CHR ''*''), C (CHR '',''),
    Spc]), Str '';'']"

text \<open>\<^verbatim>\<open>\bnamespace\s*{\<close>\<close>

definition re_unnamed_namespace :: regex where
  "re_unnamed_namespace =
    seq [WordB, Str ''namespace'', many (Set [Spc]), Str ''{'']"

text \<open>\<^verbatim>\<open>[;({]\<close>\<close>

definition re_declares :: regex where
  "re_declares =
    Set [C (CHR '';''), C (CHR ''(''), C (CHR ''{'')]"

text \<open>\<^verbatim>\<open>((?:|static +)(?:|const +))string +([a-zA-Z0-9_:]+)\b(.*)\<close>\<close>

definition re_global_string :: regex where
  "re_global_string =
    seq [Grp 1 (seq [alts [Eps, seq [Str ''static'', some (Str '' '')]], alts [Eps,
    seq [Str ''const'', some (Str '' '')]]]), Str ''string'', some (Str '' ''),
    Grp 2 (some (Set [Rng (CHR ''a'') (CHR ''z''), Rng (CHR ''A'') (CHR ''Z''),
    Rng (CHR ''0'') (CHR ''9''), C (CHR ''_''), C (CHR '':'')])), WordB, Grp 3 (many Dot)]"

text \<open>\<^verbatim>\<open>\bstring\b(\s+const)?\s*\*\s*(const\s+)?\w\<close>\<close>

definition re_string_pointer :: regex where
  "re_string_pointer =
    seq [WordB, Str ''string'', WordB, opt (Grp 1 (seq [some (Set [Spc]), Str ''const''])),
    many (Set [Spc]), Str ''*'', many (Set [Spc]), opt (Grp 2 (seq [Str ''const'',
    some (Set [Spc])])), Set [Wrd]]"

text \<open>\<^verbatim>\<open>\boperator\W\<close>\<close>

definition re_operator_symbol :: regex where
  "re_operator_symbol =
    seq [WordB, Str ''operator'', Set [NWrd]]"

text \<open>\<^verbatim>\<open>\s*(<.*>)?(::[a-zA-Z0-9_]+)*\s*\(([^"]|$)\<close>\<close>

definition re_string_function :: regex where
  "re_string_function =
    seq [many (Set [Spc]), opt (Grp 1 (seq [Str ''<'', many Dot, Str ''>''])),
    many (Grp 2 (seq [Str ''::'', some (Set [Rng (CHR ''a'') (CHR ''z''),
    Rng (CHR ''A'') (CHR ''Z''), Rng (CHR ''0'') (CHR ''9''), C (CHR ''_'')])])),
    many (Set [Spc]), Str ''('', Grp 3 (alts [NSet [C (CHR 0x22)], Eol])]"

text \<open>\<^verbatim>\<open>\b([A-Za-z0-9_]*_)\(\1\)\<close>\<close>

definition re_self_init :: regex where
  "re_self_init =
    seq [WordB, Grp 1 (seq [many (Set [Rng (CHR ''A'') (CHR ''Z''),
    Rng (CHR ''a'') (CHR ''z''), Rng (CHR ''0'') (CHR ''9''), C (CHR ''_'')]), Str ''_'']),
    Str ''('', Ref 1, Str '')'']"

text \<open>\<^verbatim>\<open>snprintf\s*\(([^,]*),\s*([0-9]*)\s*,\<close>\<close>

definition re_snprintf :: regex where
  "re_snprintf =
    seq [Str ''snprintf'', many (Set [Spc]), Str ''('',
    Grp 1 (many (NSet [C (CHR '','')])), Str '','', many (Set [Spc]),
    Grp 2 (many (Set [Rng (CHR ''0'') (CHR ''9'')])), many (Set [Spc]), Str '','']"

text \<open>\<^verbatim>\<open>\bsprintf\s*\(\<close>\<close>

definition re_sprintf :: regex where
  "re_sprintf =
    seq [WordB, Str ''sprintf'', many (Set [Spc]), Str ''('']"

text \<open>\<^verbatim>\<open>\b(strcpy|strcat)\s*\(\<close>\<close>

definition re_strcpy :: regex where
  "re_strcpy =
    seq [WordB, Grp 1 (seq [Str ''strc'', alts [Str ''py'', Str ''at'']]),
    many (Set [Spc]), Str ''('']"

text \<open>\<^verbatim>\<open>^([^()]*\w+)\(\<close>\<close>

definition re_function_open :: regex where
  "re_function_open =
    seq [Bol, Grp 1 (seq [many (NSet [C (CHR ''(''), C (CHR '')'')]), some (Set [Wrd])]),
    Str ''('']"

text \<open>\<^verbatim>\<open>^(.*)\{\s*$\<close>\<close>

definition re_body_open :: regex where
  "re_body_open =
    seq [Bol, Grp 1 (many Dot), Str ''{'', many (Set [Spc]), Eol]"

text \<open>\<^verbatim>\<open>\s:\s*\w+[({]\<close>\<close>

definition re_initializer_colon :: regex where
  "re_initializer_colon =
    seq [Set [Spc], Str '':'', many (Set [Spc]), some (Set [Wrd]), Set [C (CHR ''(''),
    C (CHR ''{'')]]"

text \<open>\<^verbatim>\<open>\}\s*,\s*$\<close>\<close>

definition re_initializer_comma :: regex where
  "re_initializer_comma =
    seq [Str ''}'', many (Set [Spc]), Str '','', many (Set [Spc]), Eol]"

text \<open>\<^verbatim>\<open>[{};]\s*$\<close>\<close>

definition re_definition_end :: regex where
  "re_definition_end =
    seq [Set [C (CHR ''{''), C (CHR ''}''), C (CHR '';'')], many (Set [Spc]), Eol]"

text \<open>\<^verbatim>\<open>\s*::(?:[\w<>]|::)+\s*&\s*\S\<close>\<close>

definition re_type_continued :: regex where
  "re_type_continued =
    seq [many (Set [Spc]), Str ''::'', some (alts [Set [Wrd, C (CHR ''<''), C (CHR ''>'')],
    Str ''::'']), many (Set [Spc]), Str ''&'', many (Set [Spc]), Set [NSpc]]"

text \<open>\<^verbatim>\<open>\b((?:const\s*)?(?:[\w<>]|::)+[\w<>])\s*$\<close>\<close>

definition re_type_broken :: regex where
  "re_type_broken =
    seq [WordB, Grp 1 (seq [opt (seq [Str ''const'', many (Set [Spc])]),
    some (alts [Set [Wrd, C (CHR ''<''), C (CHR ''>'')], Str ''::'']), Set [Wrd,
    C (CHR ''<''), C (CHR ''>'')]]), many (Set [Spc]), Eol]"

text \<open>\<^verbatim>\<open>\s*[a-zA-Z_]([\w<>]|::)+\s*&\s*\S\<close>\<close>

definition re_type_end :: regex where
  "re_type_end =
    seq [many (Set [Spc]), Set [Rng (CHR ''a'') (CHR ''z''), Rng (CHR ''A'') (CHR ''Z''),
    C (CHR ''_'')], some (Grp 1 (alts [Set [Wrd, C (CHR ''<''), C (CHR ''>'')],
    Str ''::''])), many (Set [Spc]), Str ''&'', many (Set [Spc]), Set [NSpc]]"

text \<open>\<^verbatim>\<open>\b((?:const\s*)?(?:[\w<>]|::)+::)\s*$\<close>\<close>

definition re_type_broken_colons :: regex where
  "re_type_broken_colons =
    seq [WordB, Grp 1 (seq [opt (seq [Str ''const'', many (Set [Spc])]),
    some (alts [Set [Wrd, C (CHR ''<''), C (CHR ''>'')], Str ''::'']), Str ''::'']),
    many (Set [Spc]), Eol]"

text \<open>\<^verbatim>\<open>[),]\s*$\<close>\<close>

definition re_list_continues :: regex where
  "re_list_continues =
    seq [Set [C (CHR '')''), C (CHR '','')], many (Set [Spc]), Eol]"

text \<open>\<^verbatim>\<open>^\s*:\s+\S\<close>\<close>

definition re_colon_start :: regex where
  "re_colon_start =
    seq [Bol, many (Set [Spc]), Str '':'', some (Set [Spc]), Set [NSpc]]"

text \<open>\<^verbatim>\<open>\\\s*$\<close>\<close>

definition re_backslash_line :: regex where
  "re_backslash_line =
    seq [Str [CHR 0x5C], many (Set [Spc]), Eol]"

text \<open>\<^verbatim>\<open>(?:[sS]wap(?:<\w:+>)?|operator\s*[<>][<>]|static_assert|COMPILE_ASSERT)\s*\(\<close>\<close>

definition re_whitelisted :: regex where
  "re_whitelisted =
    seq [alts [seq [Set [C (CHR ''s''), C (CHR ''S'')], Str ''wap'', opt (seq [Str ''<'',
    Set [Wrd], some (Str '':''), Str ''>''])], seq [Str ''operator'', many (Set [Spc]),
    Set [C (CHR ''<''), C (CHR ''>'')], Set [C (CHR ''<''), C (CHR ''>'')]],
    Str ''static_assert'', Str ''COMPILE_ASSERT''], many (Set [Spc]), Str ''('']"

text \<open>\<^verbatim>\<open>\S+\([^)]*$\<close>\<close>

definition re_open_call :: regex where
  "re_open_call =
    seq [some (Set [NSpc]), Str ''('', many (NSet [C (CHR '')'')]), Eol]"

text \<open>\<^verbatim>\<open>{[^}]*}\<close>\<close>

definition re_inline_body :: regex where
  "re_inline_body =
    seq [Str ''{'', many (NSet [C (CHR ''}'')]), Str ''}'']"

text \<open>\<^verbatim>\<open> *<\<close>\<close>

definition re_spaces_less :: regex where
  "re_spaces_less =
    seq [many (Str '' ''), Str ''<'']"

text \<open>\<^verbatim>\<open>(\bnew\s+|\S<\s*(?:const\s+)?)?\b(int|float|double|bool|char|int32|uint32|int64|uint64)(\([^)].*)\<close>\<close>

definition re_function_cast :: regex where
  "re_function_cast =
    seq [opt (Grp 1 (alts [seq [WordB, Str ''new'', some (Set [Spc])], seq [Set [NSpc],
    Str ''<'', many (Set [Spc]), opt (seq [Str ''const'', some (Set [Spc])])]])), WordB,
    Grp 2 (alts [Str ''int'', Str ''float'', Str ''double'', Str ''bool'', Str ''char'',
    Str ''int32'', Str ''uint32'', Str ''int64'', Str ''uint64'']), Grp 3 (seq [Str ''('',
    NSet [C (CHR '')'')], many Dot])]"

text \<open>\<^verbatim>\<open>\([^()]+\)\s*\[\<close>\<close>

definition re_array_behind :: regex where
  "re_array_behind =
    seq [Str ''('', some (NSet [C (CHR ''(''), C (CHR '')'')]), Str '')'',
    many (Set [Spc]), Str ''['']"

text \<open>\<^verbatim>\<open>\((?:[^() ]+::\s*\*\s*)?[^() ]+\)\s*\(\<close>\<close>

definition re_function_pointer :: regex where
  "re_function_pointer =
    seq [Str ''('', opt (seq [some (NSet [C (CHR ''(''), C (CHR '')''), C (CHR '' '')]),
    Str ''::'', many (Set [Spc]), Str ''*'', many (Set [Spc])]), some (NSet [C (CHR ''(''),
    C (CHR '')''), C (CHR '' '')]), Str '')'', many (Set [Spc]), Str ''('']"

text \<open>\<^verbatim>\<open>\s*using\s+\S+\s*=\s*NAME\<close>\<close>

definition re_using_alias :: "string \<Rightarrow> regex" where
  "re_using_alias name =
    seq [many (Set [Spc]), Str ''using'', some (Set [Spc]), some (Set [NSpc]),
    many (Set [Spc]), Str ''='', many (Set [Spc]), Str name]"

text \<open>\<^verbatim>\<open>new\(\S+\)\s*NAME\<close>\<close>

definition re_placement_new :: "string \<Rightarrow> regex" where
  "re_placement_new name =
    seq [Str ''new('', some (Set [NSpc]), Str '')'', many (Set [Spc]), Str name]"

text \<open>\<^verbatim>\<open>\((int|float|double|bool|char|u?int(16|32|64))\)\<close>\<close>

definition re_static_cast_c :: regex where
  "re_static_cast_c =
    seq [Str ''('', Grp 1 (alts [Str ''int'', Str ''float'', Str ''double'', Str ''bool'',
    Str ''char'', seq [opt (Str ''u''), Str ''int'', Grp 2 (alts [Str ''16'', Str ''32'',
    Str ''64''])]]), Str '')'']"

text \<open>\<^verbatim>\<open>\((char\s?\*+\s?)\)\s*"\<close>\<close>

definition re_const_cast_c :: regex where
  "re_const_cast_c =
    seq [Str ''('', Grp 1 (seq [Str ''char'', opt (Set [Spc]), some (Str ''*''),
    opt (Set [Spc])]), Str '')'', many (Set [Spc]), Str [CHR 0x22]]"

text \<open>\<^verbatim>\<open>\((\w+\s?\*+\s?)\)\<close>\<close>

definition re_reinterpret_cast_c :: regex where
  "re_reinterpret_cast_c =
    seq [Str ''('', Grp 1 (seq [some (Set [Wrd]), opt (Set [Spc]), some (Str ''*''),
    opt (Set [Spc])]), Str '')'']"

text \<open>\<^verbatim>\<open>(?:[^\w]&\(([^)]+)\)[\w(])|(?:[^\w]&(static|dynamic|down|reinterpret)_cast\b)\<close>\<close>

definition re_address_of_cast :: regex where
  "re_address_of_cast =
    seq [NSet [Wrd], Str ''&'', alts [seq [Str ''('', Grp 1 (some (NSet [C (CHR '')'')])),
    Str '')'', Set [Wrd, C (CHR ''('')]], seq [Grp 2 (alts [Str ''static'',
    Str ''dynamic'', Str ''down'', Str ''reinterpret'']), Str ''_cast'', WordB]]]"

text \<open>\<^verbatim>\<open>^(.*&(?:static|dynamic|down|reinterpret)_cast\b)<\<close>\<close>

definition re_cast_template :: regex where
  "re_cast_template =
    seq [Bol, Grp 1 (seq [many Dot, Str ''&'', alts [Str ''static'', Str ''dynamic'',
    Str ''down'', Str ''reinterpret''], Str ''_cast'', WordB]), Str ''<'']"

text \<open>\<^verbatim>\<open>\s*(?:->|\[)\<close>\<close>

definition re_dereferenced :: regex where
  "re_dereferenced =
    seq [many (Set [Spc]), alts [Str ''->'', Str ''['']]"

text \<open>\<^verbatim>\<open>.*\b(?:sizeof|alignof|alignas|[_A-Z][_A-Z0-9]*)\s*$\<close>\<close>

definition re_sizeof_context :: regex where
  "re_sizeof_context =
    seq [many Dot, WordB, alts [Str ''sizeof'', Str ''alignof'', Str ''alignas'',
    seq [Set [C (CHR ''_''), Rng (CHR ''A'') (CHR ''Z'')], many (Set [C (CHR ''_''),
    Rng (CHR ''A'') (CHR ''Z''), Rng (CHR ''0'') (CHR ''9'')])]], many (Set [Spc]), Eol]"

text \<open>\<^verbatim>\<open>.*\b[_A-Z][_A-Z0-9]*\s*\((?:\([^()]*\)|[^()])*$\<close>\<close>

definition re_macro_context :: regex where
  "re_macro_context =
    seq [many Dot, WordB, Set [C (CHR ''_''), Rng (CHR ''A'') (CHR ''Z'')],
    many (Set [C (CHR ''_''), Rng (CHR ''A'') (CHR ''Z''), Rng (CHR ''0'') (CHR ''9'')]),
    many (Set [Spc]), Str ''('', many (alts [seq [Str ''('', many (NSet [C (CHR ''(''),
    C (CHR '')'')]), Str '')''], NSet [C (CHR ''(''), C (CHR '')'')]]), Eol]"

text \<open>\<^verbatim>\<open>^\s*(?:;|const\b|throw\b|final\b|override\b|[=>{),])\<close>\<close>

definition re_unnamed_parameter :: regex where
  "re_unnamed_parameter =
    seq [Bol, many (Set [Spc]), alts [Str '';'', seq [Str ''const'', WordB],
    seq [Str ''throw'', WordB], seq [Str ''final'', WordB], seq [Str ''override'', WordB],
    Set [C (CHR ''=''), C (CHR ''>''), C (CHR ''{''), C (CHR '')''), C (CHR '','')]]]"

text \<open>\<^verbatim>\<open>^\s*>\<close>\<close>

definition re_template_tail :: regex where
  "re_template_tail =
    seq [Bol, many (Set [Spc]), Str ''>'']"

text \<open>\<^verbatim>\<open>^\s=\s*(\S+)\s*;\<close>\<close>

definition re_assigned_value :: regex where
  "re_assigned_value =
    seq [Bol, Set [Spc], Str ''='', many (Set [Spc]), Grp 1 (some (Set [NSpc])),
    many (Set [Spc]), Str '';'']"

text \<open>\<^verbatim>\<open>.*\)\s*$\<close>\<close>

definition re_close_end :: regex where
  "re_close_end =
    seq [many Dot, Str '')'', many (Set [Spc]), Eol]"

text \<open>\<^verbatim>\<open>^\s*MOCK_(CONST_)?METHOD\d+(_T)?\(\<close>\<close>

definition re_mock_method :: regex where
  "re_mock_method =
    seq [Bol, many (Set [Spc]), Str ''MOCK_'', opt (Grp 1 (Str ''CONST_'')),
    Str ''METHOD'', some (Set [Dig]), opt (Grp 2 (Str ''_T'')), Str ''('']"

text \<open>\<^verbatim>\<open>^\s*MOCK_(?:CONST_)?METHOD\d+(?:_T)?\((?:\S+,)?\s*$\<close>\<close>

definition re_mock_open_arg :: regex where
  "re_mock_open_arg =
    seq [Bol, many (Set [Spc]), Str ''MOCK_'', opt (Str ''CONST_''), Str ''METHOD'',
    some (Set [Dig]), opt (Str ''_T''), Str ''('', opt (seq [some (Set [NSpc]),
    Str '','']), many (Set [Spc]), Eol]"

text \<open>\<^verbatim>\<open>^\s*MOCK_(?:CONST_)?METHOD\d+(?:_T)?\(\s*$\<close>\<close>

definition re_mock_open :: regex where
  "re_mock_open =
    seq [Bol, many (Set [Spc]), Str ''MOCK_'', opt (Str ''CONST_''), Str ''METHOD'',
    some (Set [Dig]), opt (Str ''_T''), Str ''('', many (Set [Spc]), Eol]"

text \<open>\<^verbatim>\<open>\bstd::m?function\s*<\s*$\<close>\<close>

definition re_std_function :: regex where
  "re_std_function =
    seq [WordB, Str ''std::'', opt (Str ''m''), Str ''function'', many (Set [Spc]),
    Str ''<'', many (Set [Spc]), Eol]"

text \<open>\<^verbatim>\<open>\bstring\b\<close>\<close>

definition re_string_word :: regex where
  "re_string_word =
    seq [WordB, Str ''string'', WordB]"

text \<open>\<^verbatim>\<open>[^>.]\bNAME(<.*?>)?\([^\)]\<close>\<close>

definition re_algorithm :: "string \<Rightarrow> regex" where
  "re_algorithm name =
    seq [NSet [C (CHR ''>''), C (CHR ''.'')], WordB, Str name, opt (Grp 1 (seq [Str ''<'',
    Rep False 0 None Dot, Str ''>''])), Str ''('', NSet [C (CHR '')'')]]"

text \<open>\<^verbatim>\<open>(<|\b)NAME\s*<\<close>\<close>

definition re_template_use :: "string \<Rightarrow> regex" where
  "re_template_use name =
    seq [Grp 1 (alts [Str ''<'', WordB]), Str name, many (Set [Spc]), Str ''<'']"

text \<open>\<^verbatim>\<open>_flymake\.cc$\<close>\<close>

definition re_flymake_cc :: regex where
  "re_flymake_cc =
    seq [Str ''_flymake.cc'', Eol]"

end
