(* ===== verification/Lint_State.thy ===== *)
theory Lint_State
  imports Lint_Patterns
begin

text \<open>
  The module-wide state of \<^verbatim>\<open>tools/cpplint.py\<close>: the NOLINT suppressions, the options and
  error counts of \<^verbatim>\<open>_CppLintState\<close>, what has been written to standard error, the function
  being tracked (\<^verbatim>\<open>_FunctionState\<close>) and \<^verbatim>\<open>Error\<close>, which every check reports to.
\<close>

section \<open>Categories\<close>

definition ERROR_CATEGORIES :: "string list" where
  "ERROR_CATEGORIES =
    [''build/class'', ''build/c++11'', ''build/deprecated'', ''build/endif_comment'',
     ''build/explicit_make_pair'', ''build/forward_decl'', ''build/header_guard'',
     ''build/include'', ''build/include_alpha'', ''build/include_order'',
     ''build/include_what_you_use'', ''build/namespaces'', ''build/printf_format'',
     ''build/storage_class'', ''legal/copyright'', ''readability/alt_tokens'',
     ''readability/braces'', ''readability/casting'', ''readability/check'',
     ''readability/constructors'', ''readability/fn_size'', ''readability/function'',
     ''readability/inheritance'', ''readability/multiline_comment'',
     ''readability/multiline_string'', ''readability/namespace'', ''readability/nolint'',
     ''readability/nul'', ''readability/streams'', ''readability/todo'',
     ''readability/utf8'', ''runtime/arrays'', ''runtime/casting'', ''runtime/explicit'',
     ''runtime/int'', ''runtime/init'', ''runtime/invalid_increment'',
     ''runtime/member_string_references'', ''runtime/memset'',
     ''runtime/indentation_namespace'', ''runtime/operator'', ''runtime/printf'',
     ''runtime/printf_format'', ''runtime/references'', ''runtime/string'',
     ''runtime/threadsafe_fn'', ''runtime/vlog'', ''whitespace/blank_line'',
     ''whitespace/braces'', ''whitespace/comma'', ''whitespace/comments'',
     ''whitespace/empty_conditional_body'', ''whitespace/empty_loop_body'',
     ''whitespace/end_of_line'', ''whitespace/ending_newline'', ''whitespace/forcolon'',
     ''whitespace/indent'', ''whitespace/line_length'', ''whitespace/newline'',
     ''whitespace/operators'', ''whitespace/parens'', ''whitespace/semicolon'',
     ''whitespace/tab'', ''whitespace/todo'']"

definition DEFAULT_FILTERS :: "string list" where
  "DEFAULT_FILTERS = [''-build/include_alpha'']"

section \<open>State\<close>

text \<open>
  \<^verbatim>\<open>_error_suppressions\<close>: for a category, or for \<open>None\<close>, the lines it is suppressed on; a
  missing key is the empty set, which is how every reader treats it.
\<close>

type_synonym suppressions = "string option \<Rightarrow> nat set"

record cpplint_state =
  verbose_level :: int
  error_count :: nat
  filters :: "string list"
  filters_backup :: "string list"
  counting :: string
  errors_by_category :: "string \<Rightarrow> nat option"
  output_format :: string

record lint =
  cpplint :: cpplint_state
  suppressed :: suppressions
  stderr :: "string list"

definition CppLintState_init :: cpplint_state where
  "CppLintState_init =
     \<lparr>verbose_level = 1, error_count = 0, filters = DEFAULT_FILTERS,
      filters_backup = DEFAULT_FILTERS, counting = ''total'',
      errors_by_category = (\<lambda>_. None), output_format = ''emacs''\<rparr>"

definition lint_init :: lint where
  "lint_init = \<lparr>cpplint = CppLintState_init, suppressed = (\<lambda>_. {}), stderr = []\<rparr>"

section \<open>Options\<close>

definition SetOutputFormat :: "string \<Rightarrow> cpplint_state \<Rightarrow> cpplint_state" where
  "SetOutputFormat f s = s\<lparr>output_format := f\<rparr>"

definition SetVerboseLevel :: "int \<Rightarrow> cpplint_state \<Rightarrow> int \<times> cpplint_state" where
  "SetVerboseLevel level s = (verbose_level s, s\<lparr>verbose_level := level\<rparr>)"

definition SetCountingStyle :: "string \<Rightarrow> cpplint_state \<Rightarrow> cpplint_state" where
  "SetCountingStyle c s = s\<lparr>counting := c\<rparr>"

definition signed :: "string \<Rightarrow> bool" where
  "signed f \<longleftrightarrow> starts_with f ''+'' \<or> starts_with f ''-''"

text \<open>
  The filters are appended first and checked afterwards, so the list keeps them when the
  check raises: the second component is the filter the \<^verbatim>\<open>ValueError\<close> names.
\<close>

definition AddFilters :: "string \<Rightarrow> cpplint_state \<Rightarrow> cpplint_state \<times> string option" where
  "AddFilters fs s =
     (let s = s\<lparr>filters := filters s @ filter (\<lambda>f. f \<noteq> []) (map bstrip (split_on (CHR '','') fs))\<rparr>
      in (s, find (\<lambda>f. \<not> signed f) (filters s)))"

definition SetFilters :: "string \<Rightarrow> cpplint_state \<Rightarrow> cpplint_state \<times> string option" where
  "SetFilters fs s = AddFilters fs (s\<lparr>filters := DEFAULT_FILTERS\<rparr>)"

definition BackupFilters :: "cpplint_state \<Rightarrow> cpplint_state" where
  "BackupFilters s = s\<lparr>filters_backup := filters s\<rparr>"

definition RestoreFilters :: "cpplint_state \<Rightarrow> cpplint_state" where
  "RestoreFilters s = s\<lparr>filters := filters_backup s\<rparr>"

definition ResetErrorCounts :: "cpplint_state \<Rightarrow> cpplint_state" where
  "ResetErrorCounts s = s\<lparr>error_count := 0, errors_by_category := (\<lambda>_. None)\<rparr>"

definition IncrementErrorCount :: "string \<Rightarrow> cpplint_state \<Rightarrow> cpplint_state" where
  "IncrementErrorCount category s =
     (let s = s\<lparr>error_count := error_count s + 1\<rparr>
      in if counting s \<in> {''toplevel'', ''detailed''} then
           let c = (if counting s \<noteq> ''detailed'' then hd (split_on (CHR ''/'') category)
                    else category);
               n = (case errors_by_category s c of None \<Rightarrow> 0 | Some n \<Rightarrow> n)
           in s\<lparr>errors_by_category := (errors_by_category s)(c \<mapsto> n + 1)\<rparr>
         else s)"

text \<open>The lines of the summary.\<close>

definition category_line :: "string \<Rightarrow> nat \<Rightarrow> string" where
  "category_line c n =
     ''Category '' @ [CHR 0x27] @ c @ [CHR 0x27] @ '' errors found: '' @ show_nat n @ ''\<newline>''"

definition total_line :: "nat \<Rightarrow> string" where
  "total_line n = ''Total errors found: '' @ show_nat n @ ''\<newline>''"

text \<open>
  \<^verbatim>\<open>iteritems\<close> goes through the keys in the order of the hash table, which is the parameter
  \<open>order\<close>: an enumeration of the keys.
\<close>

definition PrintErrorCounts :: "string list \<Rightarrow> lint \<Rightarrow> lint" where
  "PrintErrorCounts order L =
     L\<lparr>stderr := stderr L
        @ map (\<lambda>c. category_line c (the (errors_by_category (cpplint L) c))) order
        @ [total_line (error_count (cpplint L))]\<rparr>"

section \<open>Reporting\<close>

text \<open>A call of the error handler: line, category, confidence and message.\<close>

record diag =
  d_line :: nat
  d_category :: string
  d_confidence :: int
  d_message :: string

definition diag :: "nat \<Rightarrow> string \<Rightarrow> int \<Rightarrow> string \<Rightarrow> diag" where
  "diag n c k m = \<lparr>d_line = n, d_category = c, d_confidence = k, d_message = m\<rparr>"

definition ResetNolintSuppressions :: "lint \<Rightarrow> lint" where
  "ResetNolintSuppressions L = L\<lparr>suppressed := (\<lambda>_. {})\<rparr>"

definition IsErrorSuppressedByNolint :: "string \<Rightarrow> nat \<Rightarrow> lint \<Rightarrow> bool" where
  "IsErrorSuppressedByNolint category linenum L \<longleftrightarrow>
     linenum \<in> suppressed L (Some category) \<or> linenum \<in> suppressed L None"

definition suppress :: "string option \<Rightarrow> nat \<Rightarrow> lint \<Rightarrow> lint" where
  "suppress key n L = L\<lparr>suppressed := (suppressed L)(key := insert n (suppressed L key))\<rparr>"

definition ParseNolintSuppressions :: "string \<Rightarrow> nat \<Rightarrow> lint \<Rightarrow> diag list \<times> lint" where
  "ParseNolintSuppressions raw_line linenum L =
     (case re_search re_nolint raw_line of
        None \<Rightarrow> ([], L)
      | Some m \<Rightarrow>
          let suppressed_line = (if group 1 m \<noteq> None then linenum + 1 else linenum)
          in case group 2 m of
               None \<Rightarrow> ([], suppress None suppressed_line L)
             | Some category \<Rightarrow>
                 if category = ''(*)'' then ([], suppress None suppressed_line L)
                 else if starts_with category ''('' \<and> ends_with category '')'' then
                   let category = drop 1 (but_last category)
                   in if category \<in> set ERROR_CATEGORIES
                      then ([], suppress (Some category) suppressed_line L)
                      else ([diag linenum ''readability/nolint'' 5
                               (''Unknown NOLINT error category: '' @ category)], L)
                 else ([], L))"

text \<open>The filters in force for a category; \<open>None\<close> is the failed \<^verbatim>\<open>assert\<close>.\<close>

fun filtered :: "string \<Rightarrow> bool \<Rightarrow> string list \<Rightarrow> bool option" where
  "filtered category is_filtered [] = Some is_filtered"
| "filtered category is_filtered (f # fs) =
     (if starts_with f ''-'' then
        filtered category (if starts_with category (drop 1 f) then True else is_filtered) fs
      else if starts_with f ''+'' then
        filtered category (if starts_with category (drop 1 f) then False else is_filtered) fs
      else None)"

definition ShouldPrintError :: "string \<Rightarrow> int \<Rightarrow> nat \<Rightarrow> lint \<Rightarrow> bool option" where
  "ShouldPrintError category confidence linenum L =
     (if IsErrorSuppressedByNolint category linenum L then Some False
      else if confidence < verbose_level (cpplint L) then Some False
      else map_option Not (filtered category False (filters (cpplint L))))"

definition error_text :: "string \<Rightarrow> string \<Rightarrow> diag \<Rightarrow> string" where
  "error_text fmt filename d =
     (let tail = d_message d @ ''  ['' @ d_category d @ ''] ['' @ show_int (d_confidence d) @ '']\<newline>''
      in if fmt = ''vs7'' then filename @ ''('' @ show_nat (d_line d) @ ''):  '' @ tail
         else if fmt = ''eclipse''
         then filename @ '':'' @ show_nat (d_line d) @ '': warning: '' @ tail
         else filename @ '':'' @ show_nat (d_line d) @ '':  '' @ tail)"

definition Error :: "string \<Rightarrow> diag \<Rightarrow> lint \<Rightarrow> lint option" where
  "Error filename d L =
     (case ShouldPrintError (d_category d) (d_confidence d) (d_line d) L of
        None \<Rightarrow> None
      | Some False \<Rightarrow> Some L
      | Some True \<Rightarrow>
          Some (L\<lparr>cpplint := IncrementErrorCount (d_category d) (cpplint L),
                  stderr := stderr L @ [error_text (output_format (cpplint L)) filename d]\<rparr>))"

text \<open>The calls a check makes, one after the other.\<close>

fun Errors :: "string \<Rightarrow> diag list \<Rightarrow> lint \<Rightarrow> lint option" where
  "Errors filename [] L = Some L"
| "Errors filename (d # ds) L =
     (case Error filename d L of None \<Rightarrow> None | Some L \<Rightarrow> Errors filename ds L)"

section \<open>Filters\<close>

definition filters_ok :: "cpplint_state \<Rightarrow> bool" where
  "filters_ok s \<longleftrightarrow> (\<forall>f \<in> set (filters s). signed f)"

lemma filters_ok_init [simp]: "filters_ok CppLintState_init"
  by (simp add: filters_ok_def CppLintState_init_def DEFAULT_FILTERS_def signed_def)

lemma AddFilters_ok: "snd (AddFilters fs s) = None \<longleftrightarrow> filters_ok (fst (AddFilters fs s))"
  by (auto simp: AddFilters_def Let_def filters_ok_def find_None_iff)

lemma find_skip: "\<forall>x \<in> set xs. \<not> P x \<Longrightarrow> find P (xs @ ys) = find P ys"
  by (induction xs) auto

text \<open>The argument is a list of filters with commas between them, and blanks around them.\<close>

definition given_filters :: "string list \<Rightarrow> string list" where
  "given_filters ps = filter (\<lambda>f. f \<noteq> []) (map bstrip ps)"

lemma AddFilters_join:
  assumes "ps \<noteq> []" and "\<forall>p \<in> set ps. CHR '','' \<notin> set p" and "filters_ok s"
  shows "AddFilters (join '','' ps) s =
    (s\<lparr>filters := filters s @ given_filters ps\<rparr>, find (\<lambda>f. \<not> signed f) (given_filters ps))"
  using assms by (simp add: AddFilters_def split_on_join given_filters_def filters_ok_def find_skip)

lemma filtered_last:
  "\<forall>f \<in> set fs. signed f \<Longrightarrow>
     filtered category b fs =
       Some (case find (\<lambda>f. starts_with category (drop 1 f)) (rev fs) of
               None \<Rightarrow> b | Some f \<Rightarrow> starts_with f ''-'')"
proof (induction fs arbitrary: b)
  case Nil
  show ?case by simp
next
  case (Cons f fs)
  have find_append: "find P (xs @ ys) = (case find P xs of None \<Rightarrow> find P ys | Some x \<Rightarrow> Some x)"
    for P and xs ys :: "string list"
    by (induction xs) auto
  have excl: "\<not> (starts_with f ''-'' \<and> starts_with f ''+'')"
    by (cases f) auto
  from Cons.prems have "starts_with f ''+'' \<or> starts_with f ''-''" by (simp add: signed_def)
  with Cons excl show ?case
    by (auto simp: find_append split: option.splits)
qed

lemma ShouldPrintError_last:
  "filters_ok (cpplint L) \<Longrightarrow> ShouldPrintError category confidence linenum L =
     Some (\<not> IsErrorSuppressedByNolint category linenum L \<and> verbose_level (cpplint L) \<le> confidence \<and>
       (case find (\<lambda>f. starts_with category (drop 1 f)) (rev (filters (cpplint L))) of
          None \<Rightarrow> True | Some f \<Rightarrow> \<not> starts_with f ''-''))"
  by (auto simp: ShouldPrintError_def filters_ok_def filtered_last split: option.split)

lemma ShouldPrintError_total:
  "filters_ok (cpplint L) \<Longrightarrow> ShouldPrintError category confidence linenum L \<noteq> None"
  by (auto simp: ShouldPrintError_def filters_ok_def filtered_last)

lemma Error_total: "filters_ok (cpplint L) \<Longrightarrow> Error filename d L \<noteq> None"
  using ShouldPrintError_total [of L "d_category d" "d_confidence d" "d_line d"]
  by (auto simp: Error_def split: option.splits bool.splits)

section \<open>Error counts\<close>

lemma Increment_fields [simp]:
  "filters (IncrementErrorCount c s) = filters s"
  "filters_backup (IncrementErrorCount c s) = filters_backup s"
  "counting (IncrementErrorCount c s) = counting s"
  "verbose_level (IncrementErrorCount c s) = verbose_level s"
  "output_format (IncrementErrorCount c s) = output_format s"
  "error_count (IncrementErrorCount c s) = Suc (error_count s)"
  by (simp_all add: IncrementErrorCount_def Let_def)

text \<open>
  What reporting leaves alone and what it changes: the options and suppressions stay, and
  every error that is counted is printed and the other way round.
\<close>

definition reported :: "lint \<Rightarrow> lint \<Rightarrow> string list \<Rightarrow> bool" where
  "reported L L' out \<longleftrightarrow>
     suppressed L' = suppressed L \<and> stderr L' = stderr L @ out \<and>
     error_count (cpplint L') = error_count (cpplint L) + length out \<and>
     filters (cpplint L') = filters (cpplint L) \<and> counting (cpplint L') = counting (cpplint L) \<and>
     filters_backup (cpplint L') = filters_backup (cpplint L) \<and>
     verbose_level (cpplint L') = verbose_level (cpplint L) \<and>
     output_format (cpplint L') = output_format (cpplint L)"

lemma reported_refl: "reported L L []"
  by (simp add: reported_def)

lemma reported_trans: "reported L L1 xs \<Longrightarrow> reported L1 L2 ys \<Longrightarrow> reported L L2 (xs @ ys)"
  by (simp add: reported_def)

lemma Error_reported:
  assumes "Error filename d L = Some L'"
  shows "reported L L'
    (if ShouldPrintError (d_category d) (d_confidence d) (d_line d) L = Some True
     then [error_text (output_format (cpplint L)) filename d] else [])"
  using assms by (auto simp: Error_def reported_def split: option.splits bool.splits if_splits)

lemma ShouldPrintError_reported:
  "reported L L' out \<Longrightarrow> ShouldPrintError c k n L' = ShouldPrintError c k n L"
  by (simp add: reported_def ShouldPrintError_def IsErrorSuppressedByNolint_def)

lemma Errors_reported:
  "Errors filename ds L = Some L' \<Longrightarrow>
     reported L L' (map (error_text (output_format (cpplint L)) filename)
       (filter (\<lambda>d. ShouldPrintError (d_category d) (d_confidence d) (d_line d) L = Some True) ds))"
proof (induction ds arbitrary: L)
  case Nil
  then show ?case by (simp add: reported_refl)
next
  case (Cons d ds)
  then obtain L1 where L1: "Error filename d L = Some L1" "Errors filename ds L1 = Some L'"
    by (auto split: option.splits)
  note r1 = Error_reported [OF L1(1)]
  then have "output_format (cpplint L1) = output_format (cpplint L)" by (simp add: reported_def)
  with reported_trans [OF r1 Cons.IH [OF L1(2)]] show ?case
    by (simp add: ShouldPrintError_reported [OF r1] split: if_splits)
qed

lemma Errors_total: "filters_ok (cpplint L) \<Longrightarrow> \<exists>L'. Errors filename ds L = Some L'"
proof (induction ds arbitrary: L)
  case Nil
  show ?case by simp
next
  case (Cons d ds)
  obtain L1 where L1: "Error filename d L = Some L1"
    using Error_total [OF Cons.prems] by blast
  then have "filters_ok (cpplint L1)"
    using Cons.prems Error_reported [OF L1] by (simp add: reported_def filters_ok_def)
  with Cons.IH L1 show ?case by auto
qed

lemma Errors_append:
  "Errors filename (xs @ ys) L =
     (case Errors filename xs L of None \<Rightarrow> None | Some L \<Rightarrow> Errors filename ys L)"
  by (induction xs arbitrary: L) (auto split: option.splits)

text \<open>The counts by category add up to the total, when categories are counted at all.\<close>

definition counts_ok :: "cpplint_state \<Rightarrow> bool" where
  "counts_ok s \<longleftrightarrow> finite (dom (errors_by_category s)) \<and>
     (counting s \<in> {''toplevel'', ''detailed''} \<longrightarrow>
        (\<Sum>c \<in> dom (errors_by_category s). the (errors_by_category s c)) = error_count s)"

lemma counts_ok_reset: "counts_ok (ResetErrorCounts s)"
  by (simp add: counts_ok_def ResetErrorCounts_def)

lemma sum_bump:
  assumes "finite (dom m)"
  shows "(\<Sum>c \<in> dom (m(k \<mapsto> (case m k of None \<Rightarrow> 0 | Some n \<Rightarrow> n) + 1)).
      the ((m(k \<mapsto> (case m k of None \<Rightarrow> 0 | Some n \<Rightarrow> n) + 1)) c)) = (\<Sum>c \<in> dom m. the (m c)) + (1 :: nat)"
proof -
  have rest: "(\<Sum>c \<in> dom m - {k}. the ((m(k \<mapsto> v)) c)) = (\<Sum>c \<in> dom m - {k}. the (m c))" for v
    by (rule sum.cong) auto
  show ?thesis
  proof (cases "m k")
    case None
    then have "dom m - {k} = dom m" by auto
    with rest [of 1] None assms show ?thesis by (simp add: sum.insert_remove)
  next
    case (Some n)
    then have "k \<in> dom m" by auto
    with rest [of "n + 1"] Some assms show ?thesis
      by (simp add: sum.insert_remove sum.remove [of "dom m" k] insert_absorb)
  qed
qed

lemma counts_ok_increment: "counts_ok s \<Longrightarrow> counts_ok (IncrementErrorCount c s)"
  using sum_bump [of "errors_by_category s"]
  by (auto simp: counts_ok_def IncrementErrorCount_def Let_def)

lemma Error_counts: "Error filename d L = Some L' \<Longrightarrow> counts_ok (cpplint L) \<Longrightarrow> counts_ok (cpplint L')"
  by (auto simp: Error_def counts_ok_increment split: option.splits bool.splits)

lemma Errors_counts:
  "Errors filename ds L = Some L' \<Longrightarrow> counts_ok (cpplint L) \<Longrightarrow> counts_ok (cpplint L')"
  by (induction ds arbitrary: L) (auto split: option.splits dest: Error_counts)

section \<open>Suppressions\<close>

lemma suppress_iff:
  "IsErrorSuppressedByNolint c n (suppress key k L) \<longleftrightarrow>
     (n = k \<and> (key = None \<or> key = Some c)) \<or> IsErrorSuppressedByNolint c n L"
  by (auto simp: IsErrorSuppressedByNolint_def suppress_def)

lemma suppressed_not_printed:
  "IsErrorSuppressedByNolint (d_category d) (d_line d) L \<Longrightarrow> Error filename d L = Some L"
  by (simp add: Error_def ShouldPrintError_def)

section \<open>What a check may report\<close>

text \<open>
  The contract between a check and \<^verbatim>\<open>Error\<close>: a known category and a confidence from 0 to 5;
  for most checks also the line they were called for.
\<close>

definition well_formed_diag :: "diag \<Rightarrow> bool" where
  "well_formed_diag d \<longleftrightarrow>
     d_category d \<in> set ERROR_CATEGORIES \<and> 0 \<le> d_confidence d \<and> d_confidence d \<le> 5"

definition silent :: "diag list \<Rightarrow> lint \<Rightarrow> bool" where
  "silent ds L \<longleftrightarrow> (\<forall>filename. Errors filename ds L = Some L)"

lemma silent_Nil [simp]: "silent [] L"
  by (simp add: silent_def)

lemma silentI: "\<forall>d \<in> set ds. ShouldPrintError (d_category d) (d_confidence d) (d_line d) L = Some False \<Longrightarrow>
    silent ds L"
  unfolding silent_def by (induction ds) (auto simp: Error_def)

lemma silent_append: "silent xs L \<Longrightarrow> silent ys L \<Longrightarrow> silent (xs @ ys) L"
  by (simp add: silent_def Errors_append)

locale reporter =
  fixes check :: "'a \<Rightarrow> nat \<Rightarrow> diag list"
  assumes reports: "d \<in> set (check x n) \<Longrightarrow> well_formed_diag d"
begin

lemma category: "d \<in> set (check x n) \<Longrightarrow> d_category d \<in> set ERROR_CATEGORIES"
  using reports by (simp add: well_formed_diag_def)

lemma confidence: "d \<in> set (check x n) \<Longrightarrow> 0 \<le> d_confidence d \<and> d_confidence d \<le> 5"
  using reports by (simp add: well_formed_diag_def)

text \<open>Above verbosity 5 nothing is printed; at 0, and with no filters, everything is.\<close>

lemma quiet: "5 < verbose_level (cpplint L) \<Longrightarrow> silent (check x n) L"
proof (rule silentI, rule ballI)
  fix d assume "5 < verbose_level (cpplint L)" "d \<in> set (check x n)"
  with confidence [of d x n] show
    "ShouldPrintError (d_category d) (d_confidence d) (d_line d) L = Some False"
    by (simp add: ShouldPrintError_def)
qed

lemma loud:
  assumes "verbose_level (cpplint L) \<le> 0" and "filters (cpplint L) = []"
    and "suppressed L = (\<lambda>_. {})"
  shows "\<exists>L'. Errors filename (check x n) L = Some L' \<and>
    stderr L' = stderr L @ map (error_text (output_format (cpplint L)) filename) (check x n)"
proof -
  have "filters_ok (cpplint L)" using assms by (simp add: filters_ok_def)
  then obtain L' where L': "Errors filename (check x n) L = Some L'" using Errors_total by blast
  have "ShouldPrintError (d_category d) (d_confidence d) (d_line d) L = Some True"
    if "d \<in> set (check x n)" for d
    using confidence [OF that] assms
    by (simp add: ShouldPrintError_def IsErrorSuppressedByNolint_def)
  then have "filter (\<lambda>d. ShouldPrintError (d_category d) (d_confidence d) (d_line d) L = Some True)
      (check x n) = check x n" by simp
  with Errors_reported [OF L'] L' show ?thesis by (simp add: reported_def)
qed

end

locale line_check = reporter +
  assumes own_line: "d \<in> set (check x n) \<Longrightarrow> d_line d = n"
begin

text \<open>A bare \<^verbatim>\<open>NOLINT\<close> for the line silences the check.\<close>

lemma nolint: "n \<in> suppressed L None \<Longrightarrow> silent (check x n) L"
  by (rule silentI) (auto simp: ShouldPrintError_def IsErrorSuppressedByNolint_def own_line)

end

end
