(* ===== verification/Lint_Cleanse.thy ===== *)
theory Lint_Cleanse
  imports Lint_State
begin

text \<open>
  Removing comments, strings and raw strings: the functions from \<^verbatim>\<open>IsCppString\<close> to
  \<^verbatim>\<open>CleansedLines\<close> of \<^verbatim>\<open>tools/cpplint.py\<close>, which give every check its view of the file.
\<close>

section \<open>Strings\<close>

definition IsCppString :: "string \<Rightarrow> bool" where
  "IsCppString line =
     (let line = replace_str [CHR 0x5C, CHR 0x5C] ''XX'' line
      in odd (int (count_str [CHR 0x22] line) - int (count_str [CHR 0x5C, CHR 0x22] line)
              - int (count_str [CHR 0x27, CHR 0x22, CHR 0x27] line)))"

definition empty_string :: string where
  "empty_string = [CHR 0x22, CHR 0x22]"

definition empty_char :: string where
  "empty_char = [CHR 0x27, CHR 0x27]"

section \<open>Raw strings\<close>

lemmas group_defs = grp_def group_def

lemma re_raw_string_groups:
  assumes "re_match re_raw_string line = Some m"
  shows "length (grp 1 m) + length (grp 2 m) + length (grp 3 m) + 3 \<le> length line"
proof -
  obtain ws rest where ws: "line = concat ws @ rest"
      "list_all2 lang [Bol, Grp 1 (many Dot), WordB, alts [Str ''R'', Str ''u8R'', Str ''uR'',
        Str ''UR'', Str ''LR''], Str [CHR 0x22], Grp 2 (many (NSet [Spc, C (CHR 0x5C),
        C (CHR ''(''), C (CHR '')'')])), Str ''('', Grp 3 (many Dot), Eol] ws"
      "captures m = (0, 0, concat ws) # seq_caps [Bol, Grp 1 (many Dot), WordB, alts [Str ''R'',
        Str ''u8R'', Str ''uR'', Str ''UR'', Str ''LR''], Str [CHR 0x22],
        Grp 2 (many (NSet [Spc, C (CHR 0x5C), C (CHR ''(''), C (CHR '')'')])), Str ''('',
        Grp 3 (many Dot), Eol] 0 ws []"
    using assms unfolding re_raw_string_def by (rule re_match_pieces) (simp_all add: many_def)
  from ws(2) obtain v r w1 w2 w3 where
      "ws = [[], w1, [], r, [CHR 0x22], w2, ''('', w3, []]" "1 \<le> length r"
    by (auto simp: list_all2_Cons1)
  with ws show ?thesis by (simp add: group_defs)
qed

text \<open>
  The loop that replaces the raw strings which end on a line; the second component is the
  delimiter of one that goes on.
\<close>

function cleanse_raw_line :: "string \<Rightarrow> string \<times> string option" where
  "cleanse_raw_line line =
     (case re_match re_raw_string line of
        None \<Rightarrow> (line, None)
      | Some m \<Rightarrow>
          let delimiter = '')'' @ grp 2 m @ [CHR 0x22]
          in case find_str delimiter (grp 3 m) of
               Some e \<Rightarrow> cleanse_raw_line
                 (grp 1 m @ empty_string @ drop (e + length delimiter) (grp 3 m))
             | None \<Rightarrow> (grp 1 m @ empty_string, Some delimiter))"
  by pat_completeness auto
termination
proof (relation "measure length", goal_cases)
  case 1
  show ?case by simp
next
  case (2 line m delimiter e)
  from re_raw_string_groups [OF 2(1)] find_str_Some [OF 2(3)] 2(2)
  show ?case by (simp add: empty_string_def)
qed

declare cleanse_raw_line.simps [simp del]

text \<open>\<^verbatim>\<open>delimiter\<close> is what ends the raw string the line starts in, if it starts in one.\<close>

fun cleanse_raw :: "string option \<Rightarrow> string list \<Rightarrow> string list" where
  "cleanse_raw delimiter [] = []"
| "cleanse_raw None (line # lines) =
     (case cleanse_raw_line line of (line, delimiter) \<Rightarrow> line # cleanse_raw delimiter lines)"
| "cleanse_raw (Some delimiter) (line # lines) =
     (case find_str delimiter line of
        None \<Rightarrow> empty_string # cleanse_raw (Some delimiter) lines
      | Some e \<Rightarrow>
          let leading_space = (case re_match re_leading_space line of Some m \<Rightarrow> grp 1 m)
          in case cleanse_raw_line
                    (leading_space @ empty_string @ drop (e + length delimiter) line) of
               (line, delimiter) \<Rightarrow> line # cleanse_raw delimiter lines)"

definition CleanseRawStrings :: "string list \<Rightarrow> string list" where
  "CleanseRawStrings raw_lines = cleanse_raw None raw_lines"

section \<open>Multi-line comments\<close>

function FindNextMultiLineCommentStart :: "string list \<Rightarrow> nat \<Rightarrow> nat" where
  "FindNextMultiLineCommentStart lines lineix =
     (if lineix < length lines then
        if starts_with (strip (lines ! lineix)) ''/*''
           \<and> find_str ''*/'' (drop 2 (strip (lines ! lineix))) = None
        then lineix
        else FindNextMultiLineCommentStart lines (lineix + 1)
      else length lines)"
  by pat_completeness auto
termination by (relation "measure (\<lambda>(lines, lineix). length lines - lineix)") auto

function FindNextMultiLineCommentEnd :: "string list \<Rightarrow> nat \<Rightarrow> nat" where
  "FindNextMultiLineCommentEnd lines lineix =
     (if lineix < length lines then
        if ends_with (strip (lines ! lineix)) ''*/'' then lineix
        else FindNextMultiLineCommentEnd lines (lineix + 1)
      else length lines)"
  by pat_completeness auto
termination by (relation "measure (\<lambda>(lines, lineix). length lines - lineix)") auto

declare FindNextMultiLineCommentStart.simps [simp del] FindNextMultiLineCommentEnd.simps [simp del]

definition RemoveMultiLineCommentsFromRange :: "string list \<Rightarrow> nat \<Rightarrow> nat \<Rightarrow> string list" where
  "RemoveMultiLineCommentsFromRange lines b e = foldl (\<lambda>ls i. ls[i := ''// dummy'']) lines [b..<e]"

lemma length_RemoveRange [simp]: "length (RemoveMultiLineCommentsFromRange lines b e) = length lines"
proof -
  have "length (foldl (\<lambda>ls i. ls[i := ''// dummy'']) lines is) = length lines" for "is"
    by (induction "is" arbitrary: lines) auto
  then show ?thesis by (simp add: RemoveMultiLineCommentsFromRange_def)
qed

lemma nth_RemoveRange:
  assumes "e \<le> length lines" and "i < length lines"
  shows "RemoveMultiLineCommentsFromRange lines b e ! i
    = (if b \<le> i \<and> i < e then ''// dummy'' else lines ! i)"
proof -
  have "foldl (\<lambda>ls i. ls[i := v]) lines is ! i = (if i \<in> set is then v else lines ! i)"
    if "\<forall>j \<in> set is. j < length lines" for "is" v
    using that assms(2) by (induction "is" arbitrary: lines) (auto simp: nth_list_update)
  with assms(1) show ?thesis by (simp add: RemoveMultiLineCommentsFromRange_def)
qed

lemma Start_bounds:
  "lineix \<le> length lines \<Longrightarrow> lineix \<le> FindNextMultiLineCommentStart lines lineix \<and>
     FindNextMultiLineCommentStart lines lineix \<le> length lines"
  by (induction lines lineix rule: FindNextMultiLineCommentStart.induct)
     (subst (1 2) FindNextMultiLineCommentStart.simps, auto)

lemma End_bounds:
  "lineix \<le> length lines \<Longrightarrow> lineix \<le> FindNextMultiLineCommentEnd lines lineix \<and>
     FindNextMultiLineCommentEnd lines lineix \<le> length lines"
  by (induction lines lineix rule: FindNextMultiLineCommentEnd.induct)
     (subst (1 2) FindNextMultiLineCommentEnd.simps, auto)

function remove_comments :: "string list \<Rightarrow> nat \<Rightarrow> diag list \<times> string list" where
  "remove_comments lines lineix =
     (if lineix < length lines then
        let lineix_begin = FindNextMultiLineCommentStart lines lineix
        in if length lines \<le> lineix_begin then ([], lines)
           else let lineix_end = FindNextMultiLineCommentEnd lines lineix_begin
                in if length lines \<le> lineix_end then
                     ([diag (lineix_begin + 1) ''readability/multiline_comment'' 5
                         ''Could not find end of multi-line comment''], lines)
                   else remove_comments
                     (RemoveMultiLineCommentsFromRange lines lineix_begin (lineix_end + 1))
                     (lineix_end + 1)
      else ([], lines))"
  by pat_completeness auto
termination
proof (relation "measure (\<lambda>(lines, lineix). length lines - lineix)", goal_cases)
  case 1
  show ?case by simp
next
  case (2 lines lineix b e)
  then show ?case using Start_bounds [of lineix lines] End_bounds [of b lines] by simp
qed

declare remove_comments.simps [simp del]

definition RemoveMultiLineComments :: "string list \<Rightarrow> diag list \<times> string list" where
  "RemoveMultiLineComments lines = remove_comments lines 0"

section \<open>Comments and strings of a line\<close>

definition CleanseComments :: "string \<Rightarrow> string" where
  "CleanseComments line =
     (let line =
        (case find_str ''//'' line of
           Some commentpos \<Rightarrow>
             if \<not> IsCppString (take commentpos line) then rstrip (take commentpos line) else line
         | None \<Rightarrow> line)
      in re_sub re_c_comments (\<lambda>_. []) line)"

lemma re_quote_groups:
  assumes "re_match re_quote s = Some m"
  shows "\<exists>rest. s = grp 1 m @ grp 2 m @ grp 3 m @ rest \<and> length (grp 2 m) = 1"
proof -
  obtain ws rest where ws: "s = concat ws @ rest"
      "list_all2 lang [Bol, Grp 1 (many (NSet [C (CHR 0x27), C (CHR 0x22)])),
        Grp 2 (Set [C (CHR 0x27), C (CHR 0x22)]), Grp 3 (many Dot), Eol] ws"
      "captures m = (0, 0, concat ws) # seq_caps [Bol, Grp 1 (many (NSet [C (CHR 0x27),
        C (CHR 0x22)])), Grp 2 (Set [C (CHR 0x27), C (CHR 0x22)]), Grp 3 (many Dot), Eol] 0 ws []"
    using assms unfolding re_quote_def by (rule re_match_pieces) (simp_all add: many_def)
  from ws(2) obtain w1 c w3 where "ws = [[], w1, [c], w3, []]"
    by (auto simp: list_all2_Cons1)
  with ws show ?thesis by (simp add: group_defs)
qed

lemma re_digits_rest_groups:
  assumes "re_match re_digits_rest s = Some m"
  shows "\<exists>rest. s = grp 1 m @ grp 2 m @ rest"
proof -
  let ?d = "seq [opt (Str [CHR 0x27]), Set [Rng (CHR ''0'') (CHR ''9''), Rng (CHR ''a'') (CHR ''z''),
    Rng (CHR ''A'') (CHR ''Z''), C (CHR ''_'')]]"
  obtain ws rest where ws: "s = concat ws @ rest"
      "list_all2 lang [Bol, Grp 1 (many ?d), Grp 2 (many Dot), Eol] ws"
      "captures m = (0, 0, concat ws) # seq_caps [Bol, Grp 1 (many ?d), Grp 2 (many Dot), Eol] 0 ws []"
    using assms unfolding re_digits_rest_def
    by (rule re_match_pieces) (simp_all add: many_def opt_def)
  from ws(2) obtain w1 w2 where "ws = [[], w1, w2, []]" by (auto simp: list_all2_Cons1)
  with ws show ?thesis by (simp add: group_defs)
qed

text \<open>The loop of \<^verbatim>\<open>_CollapseStrings\<close>; its result is what it appends to \<^verbatim>\<open>collapsed\<close>.\<close>

function collapse :: "string \<Rightarrow> string" where
  "collapse elided =
     (case re_match re_quote elided of
        None \<Rightarrow> elided
      | Some m \<Rightarrow>
          let head = grp 1 m; quote = grp 2 m; tail = grp 3 m
          in if quote = [CHR 0x22] then
               case find_str [CHR 0x22] tail of
                 Some second_quote \<Rightarrow> head @ empty_string @ collapse (drop (second_quote + 1) tail)
               | None \<Rightarrow> elided
             else if searches re_number_end head then
               (case re_match re_digits_rest (CHR 0x27 # tail) of
                  Some d \<Rightarrow> head @ replace_str [CHR 0x27] [] (grp 1 d) @ collapse (grp 2 d))
             else
               case find_str [CHR 0x27] tail of
                 Some second_quote \<Rightarrow> head @ empty_char @ collapse (drop (second_quote + 1) tail)
               | None \<Rightarrow> elided)"
  by pat_completeness auto
termination
proof (relation "measure length", goal_cases)
  case 1
  show ?case by simp
next
  case (2 elided m head quote tail second_quote)
  from re_quote_groups [OF 2(1)] obtain rest where "elided = head @ quote @ tail @ rest"
      "length quote = 1" using 2 by blast
  then show ?case by simp
next
  case (3 elided m head quote tail d)
  from re_quote_groups [OF 3(1)] obtain rest where e: "elided = head @ quote @ tail @ rest"
      "length quote = 1" using 3 by blast
  have "head \<noteq> []"
  proof
    assume "head = []"
    moreover have "\<not> searches re_number_end []" by code_simp
    ultimately show False using 3 by simp
  qed
  moreover from re_digits_rest_groups [OF 3(7)] have "length (grp 2 d) \<le> length (CHR 0x27 # tail)"
    by (metis length_append le_add1 le_add2 le_trans)
  ultimately show ?case using e by (cases head) auto
next
  case (4 elided m head quote tail second_quote)
  from re_quote_groups [OF 4(1)] obtain rest where "elided = head @ quote @ tail @ rest"
      "length quote = 1" using 4 by blast
  then show ?case by simp
qed

declare collapse.simps [simp del]

definition CollapseStrings :: "string \<Rightarrow> string" where
  "CollapseStrings elided =
     (if matches re_include elided then elided else collapse (re_sub re_escapes (\<lambda>_. []) elided))"

section \<open>The views of a file\<close>

record cleansed =
  elided :: "string list"
  lines :: "string list"
  raw_lines :: "string list"
  lines_without_raw_strings :: "string list"

definition CleansedLines :: "string list \<Rightarrow> cleansed" where
  "CleansedLines ls =
     (let raw = CleanseRawStrings ls
      in \<lparr>elided = map (\<lambda>l. CleanseComments (CollapseStrings l)) raw,
          lines = map CleanseComments raw,
          raw_lines = ls,
          lines_without_raw_strings = raw\<rparr>)"

definition NumLines :: "cleansed \<Rightarrow> nat" where
  "NumLines c = length (raw_lines c)"

section \<open>The views have the lines of the file\<close>

lemma length_cleanse_raw: "length (cleanse_raw d ls) = length ls"
  by (induction d ls rule: cleanse_raw.induct) (auto simp: Let_def split: prod.splits option.splits)

lemma length_CleanseRawStrings [simp]: "length (CleanseRawStrings ls) = length ls"
  by (simp add: CleanseRawStrings_def length_cleanse_raw)

lemma CleansedLines_lengths [simp]:
  "length (elided (CleansedLines ls)) = length ls"
  "length (lines (CleansedLines ls)) = length ls"
  "length (raw_lines (CleansedLines ls)) = length ls"
  "length (lines_without_raw_strings (CleansedLines ls)) = length ls"
  "NumLines (CleansedLines ls) = length ls"
  by (simp_all add: CleansedLines_def NumLines_def Let_def)

section \<open>What multi-line comment removal does\<close>

definition opens_comment :: "string \<Rightarrow> bool" where
  "opens_comment l \<longleftrightarrow> starts_with (strip l) ''/*'' \<and> find_str ''*/'' (drop 2 (strip l)) = None"

lemma Start_unfold:
  "FindNextMultiLineCommentStart ls lineix =
     (if lineix < length ls then
        if opens_comment (ls ! lineix) then lineix
        else FindNextMultiLineCommentStart ls (lineix + 1)
      else length ls)"
  by (subst FindNextMultiLineCommentStart.simps) (simp only: opens_comment_def)

lemma Start_spec:
  "lineix \<le> length ls \<Longrightarrow>
     (\<forall>i. lineix \<le> i \<and> i < FindNextMultiLineCommentStart ls lineix \<longrightarrow> \<not> opens_comment (ls ! i)) \<and>
     (FindNextMultiLineCommentStart ls lineix < length ls \<longrightarrow>
        opens_comment (ls ! FindNextMultiLineCommentStart ls lineix))"
proof (induction ls lineix rule: FindNextMultiLineCommentStart.induct)
  case (1 ls lineix)
  show ?case
  proof (cases "lineix < length ls \<and> \<not> opens_comment (ls ! lineix)")
    case True
    then have "FindNextMultiLineCommentStart ls lineix = FindNextMultiLineCommentStart ls (lineix + 1)"
      by (subst Start_unfold) simp
    moreover have "i = lineix \<or> lineix + 1 \<le> i" if "lineix \<le> i" for i using that by linarith
    moreover have "lineix < length ls \<and> \<not> (starts_with (strip (ls ! lineix)) ''/*''
        \<and> find_str ''*/'' (drop 2 (strip (ls ! lineix))) = None)"
      using True by (simp only: opens_comment_def simp_thms)
    moreover have "lineix + 1 \<le> length ls" using True by simp
    ultimately show ?thesis using "1.IH" True by metis
  next
    case False
    with "1.prems" show ?thesis
      by (auto simp: Start_unfold [of ls lineix])
  qed
qed

lemma End_spec:
  "lineix \<le> length ls \<Longrightarrow>
     (\<forall>i. lineix \<le> i \<and> i < FindNextMultiLineCommentEnd ls lineix \<longrightarrow> \<not> ends_with (strip (ls ! i)) ''*/'')"
proof (induction ls lineix rule: FindNextMultiLineCommentEnd.induct)
  case (1 ls lineix)
  have "i = lineix \<or> lineix + 1 \<le> i" if "lineix \<le> i" for i using that by linarith
  with 1 show ?case
    by (subst FindNextMultiLineCommentEnd.simps) auto
qed

lemma not_opens_dummy: "\<not> opens_comment ''// dummy''"
  by code_simp

text \<open>
  With nothing reported, no comment is left open anywhere, and a line is as it was or the
  dummy comment.
\<close>

lemma remove_comments_ok:
  "remove_comments ls lineix = (ds, ls') \<Longrightarrow> lineix \<le> length ls \<Longrightarrow>
     \<forall>i < lineix. \<not> opens_comment (ls ! i) \<Longrightarrow>
     length ls' = length ls \<and>
     (\<forall>i < length ls. ls' ! i = ls ! i \<or> ls' ! i = ''// dummy'') \<and>
     (ds = [] \<longrightarrow> (\<forall>l \<in> set ls'. \<not> opens_comment l))"
proof (induction ls lineix arbitrary: ds ls' rule: remove_comments.induct)
  case (1 ls lineix)
  define b where "b = FindNextMultiLineCommentStart ls lineix"
  define e where "e = FindNextMultiLineCommentEnd ls b"
  define ls1 where "ls1 = RemoveMultiLineCommentsFromRange ls b (Suc e)"
  note b = Start_bounds [OF "1.prems"(2), folded b_def] Start_spec [OF "1.prems"(2), folded b_def]
  show ?case
  proof (cases "lineix < length ls \<and> b < length ls \<and> e < length ls")
    case True
    then have rec: "remove_comments ls lineix = remove_comments ls1 (Suc e)"
      by (simp add: remove_comments.simps [of ls lineix] Let_def b_def [symmetric] e_def [symmetric]
          ls1_def [symmetric] not_le)
    have t: "lineix < length ls" "\<not> length ls \<le> b" "\<not> length ls \<le> e" using True by auto
    note IH = "1.IH" [OF t(1) b_def t(2) e_def t(3), unfolded Suc_eq_plus1 [symmetric], folded ls1_def]
    have e: "b \<le> e" using End_bounds [of b ls] True by (simp add: e_def)
    have nth: "ls1 ! i = (if b \<le> i \<and> i < Suc e then ''// dummy'' else ls ! i)" if "i < length ls" for i
      using that True nth_RemoveRange [of "Suc e" ls i b] by (simp add: ls1_def)
    have "\<not> opens_comment (ls1 ! i)" if "i < Suc e" for i
    proof (cases "b \<le> i")
      case True
      then show ?thesis using nth that \<open>lineix < length ls \<and> b < length ls \<and> e < length ls\<close>
          not_opens_dummy by simp
    next
      case False
      moreover from this have "\<not> opens_comment (ls ! i)"
        using "1.prems"(3) b by (cases "i < lineix") auto
      ultimately show ?thesis using nth that True by simp
    qed
    moreover have "length ls1 = length ls" by (simp add: ls1_def)
    moreover have "remove_comments ls1 (Suc e) = (ds, ls')" using "1.prems"(1) rec by simp
    ultimately have "length ls' = length ls \<and>
       (\<forall>i < length ls. ls' ! i = ls1 ! i \<or> ls' ! i = ''// dummy'') \<and>
       (ds = [] \<longrightarrow> (\<forall>l \<in> set ls'. \<not> opens_comment l))"
      using IH [of ds ls'] True by (simp add: ls1_def)
    then show ?thesis using nth by metis
  next
    case False
    then have "ls' = ls" "ds = [] \<longrightarrow> length ls \<le> lineix \<or> length ls \<le> b"
      using "1.prems"(1)
      by (auto simp: remove_comments.simps [of ls lineix] Let_def b_def [symmetric] e_def [symmetric]
          split: if_splits)
    moreover have "\<forall>i < length ls. \<not> opens_comment (ls ! i)" if "length ls \<le> lineix \<or> length ls \<le> b"
    proof (intro allI impI)
      fix i assume "i < length ls"
      with that b "1.prems"(2,3) show "\<not> opens_comment (ls ! i)" by (cases "i < lineix") auto
    qed
    ultimately show ?thesis by (auto simp: in_set_conv_nth)
  qed
qed

section \<open>What collapsing does\<close>

definition no_quote :: "string \<Rightarrow> bool" where
  "no_quote s \<longleftrightarrow> CHR 0x22 \<notin> set s \<and> CHR 0x27 \<notin> set s"

lemma re_quote_none: "no_quote s \<Longrightarrow> re_match re_quote s = None"
proof (rule ccontr)
  assume q: "no_quote s" and "re_match re_quote s \<noteq> None"
  then obtain m where "re_match re_quote s = Some m" by blast
  from re_match_lang [OF this] re_match_text(2) [OF this] q show False
    by (auto simp: re_quote_def no_quote_def)
qed

lemma re_quote_some:
  assumes h: "no_quote h" and q: "q = CHR 0x22 \<or> q = CHR 0x27" and t: "CHR 0x0A \<notin> set t"
  shows "\<exists>m. re_match re_quote (h @ q # t) = Some m \<and> grp 1 m = h \<and> grp 2 m = [q] \<and> grp 3 m = t"
proof -
  define st where "st = Cursor 0 None (h @ q # t) []"
  define a where "a = NSet [C (CHR 0x27), C (CHR 0x22)]"
  define b where "b = Set [C (CHR 0x27), C (CHR 0x22)]"
  define st1 where "st1 = Cursor (length h) (before (after st h)) (q # t) [(1, 0, h)]"
  define st2 where "st2 = Cursor (Suc (length h)) (Some q) t [(2, length h, [q]), (1, 0, h)]"
  define st3 where "st3 = Cursor (Suc (length h) + length t) (before (after st2 t)) []
    [(3, Suc (length h), t), (2, length h, [q]), (1, 0, h)]"
  have "first (many a) st (after st h)"
    by (rule first_many [where t = "q # t"]) (use h q in \<open>auto simp: st_def a_def no_quote_def\<close>)
  from first_Grp [OF this, of 1] have 1: "first (Grp 1 (many a)) st st1"
    by (simp add: st1_def) (simp add: st_def)
  have "first b st1 (after st1 [q])"
    by (rule first_class [where t = t and p = "\<lambda>c. in_class c [C (CHR 0x27), C (CHR 0x22)]"])
       (use q in \<open>auto simp: st1_def b_def\<close>)
  from first_Grp [OF this, of 2] have 2: "first (Grp 2 b) st1 st2"
    by (simp add: st1_def st2_def after_def)
  have "first (many Dot) st2 (after st2 t)"
    by (rule first_many [where t = "[]"]) (use t in \<open>auto simp: st2_def\<close>)
  from first_Grp [OF this, of 3] have 3: "first (Grp 3 (many Dot)) st2 st3"
    by (simp add: st3_def) (simp add: st2_def)
  have "first re_quote st st3"
    unfolding re_quote_def seq.simps a_def [symmetric] b_def [symmetric]
    by (intro first_Cat [OF _ first_Cat [OF 1 first_Cat [OF 2 first_Cat [OF 3]]]])
       (simp_all add: first_def st_def st3_def)
  from first_match [OF this [unfolded st_def]] show ?thesis
    by (auto simp: st3_def group_defs)
qed

lemma collapse_no_quote: "no_quote s \<Longrightarrow> collapse s = s"
  by (simp add: collapse.simps [of s] re_quote_none)

lemma find_char: "d \<notin> set b \<Longrightarrow> find_str [d] (b @ d # t) = Some (length b)"
  by (induction b) (auto simp: find_str.simps [of "[d]"])

lemma collapse_string:
  assumes "no_quote h" and "CHR 0x22 \<notin> set b" and "CHR 0x0A \<notin> set (b @ t)"
  shows "collapse (h @ CHR 0x22 # b @ CHR 0x22 # t) = h @ empty_string @ collapse t"
proof -
  obtain m where "re_match re_quote (h @ CHR 0x22 # b @ CHR 0x22 # t) = Some m"
      "grp 1 m = h" "grp 2 m = [CHR 0x22]" "grp 3 m = b @ CHR 0x22 # t"
    using re_quote_some [of h "CHR 0x22" "b @ CHR 0x22 # t"] assms by auto
  then show ?thesis using assms(2)
    by (simp add: collapse.simps [of "h @ CHR 0x22 # b @ CHR 0x22 # t"] find_char Let_def)
qed

section \<open>Lines without comments\<close>

lemma c_comment_text: "lang re_c_comments w \<Longrightarrow> \<exists>a b. w = a @ ''/*'' @ b"
  by (auto simp: re_c_comments_def many_def some_def)

lemma CleanseComments_plain:
  assumes "\<not> contains ''//'' l" and "\<not> contains ''/*'' l"
  shows "CleanseComments l = l"
proof -
  have "re_search re_c_comments l = None"
  proof (rule not_found)
    fix w assume "lang re_c_comments w"
    then obtain a b where w: "w = a @ ''/*'' @ b" using c_comment_text by blast
    show "\<not> contains w l"
    proof
      assume "contains w l"
      then obtain u v where "l = (u @ a) @ ''/*'' @ (b @ v)" using w by (auto simp: contains_iff)
      with assms(2) show False unfolding contains_iff by blast
    qed
  qed
  moreover have "find_str ''//'' l = None" using assms(1) by (simp add: contains_def)
  ultimately show ?thesis by (simp add: CleanseComments_def re_sub_not_found)
qed

end
