(* ===== verification/Lint_Expr.thy ===== *)
theory Lint_Expr
  imports Lint_Cleanse
begin

text \<open>
  Matching brackets over lines: \<^verbatim>\<open>FindEndOfExpressionInLine\<close>, \<^verbatim>\<open>CloseExpression\<close> and their
  mirror images of \<^verbatim>\<open>tools/cpplint.py\<close>, against a reference matcher for the three kinds of
  brackets that are never operators.
\<close>

section \<open>Scanning a line\<close>

text \<open>
  The pairs these functions return: \<^verbatim>\<open>(i, None)\<close>, \<^verbatim>\<open>(-1, None)\<close> and \<^verbatim>\<open>(-1, stack)\<close>. The top
  of the stack is the head of the list.
\<close>

datatype scan = Found nat | Unclosed | Open "char list"

definition is_opening :: "char \<Rightarrow> bool" where
  "is_opening c \<longleftrightarrow> c = CHR ''('' \<or> c = CHR ''['' \<or> c = CHR ''{''"

definition is_closing :: "char \<Rightarrow> bool" where
  "is_closing c \<longleftrightarrow> c = CHR '')'' \<or> c = CHR '']'' \<or> c = CHR ''}''"

definition bracket_pair :: "char \<Rightarrow> char \<Rightarrow> bool" where
  "bracket_pair a b \<longleftrightarrow>
     (a = CHR ''('' \<and> b = CHR '')'') \<or> (a = CHR ''['' \<and> b = CHR '']'') \<or> (a = CHR ''{'' \<and> b = CHR ''}'')"

definition drop_top :: "char \<Rightarrow> char list \<Rightarrow> char list" where
  "drop_top d stack = dropWhile (\<lambda>c. c = d) stack"

function FindEndOfExpressionInLine :: "string \<Rightarrow> nat \<Rightarrow> char list \<Rightarrow> scan" where
  "FindEndOfExpressionInLine line i stack =
     (if i < length line then
        let c = line ! i in
        if is_opening c then FindEndOfExpressionInLine line (i + 1) (c # stack)
        else if c = CHR ''<'' then
          if 0 < i \<and> line ! (i - 1) = CHR ''<'' then
            if stack \<noteq> [] \<and> hd stack = CHR ''<'' then
              if tl stack = [] then Unclosed
              else FindEndOfExpressionInLine line (i + 1) (tl stack)
            else FindEndOfExpressionInLine line (i + 1) stack
          else if 0 < i \<and> searches re_operator_end (take i line) then
            FindEndOfExpressionInLine line (i + 1) stack
          else FindEndOfExpressionInLine line (i + 1) (CHR ''<'' # stack)
        else if is_closing c then
          case drop_top (CHR ''<'') stack of
            [] \<Rightarrow> Unclosed
          | t # rest \<Rightarrow>
              if bracket_pair t c then
                if rest = [] then Found (i + 1) else FindEndOfExpressionInLine line (i + 1) rest
              else Unclosed
        else if c = CHR ''>'' then
          if 0 < i \<and> (line ! (i - 1) = CHR ''-'' \<or> searches re_operator_end (take (i - 1) line)) then
            FindEndOfExpressionInLine line (i + 1) stack
          else if stack \<noteq> [] \<and> hd stack = CHR ''<'' then
            if tl stack = [] then Found (i + 1)
            else FindEndOfExpressionInLine line (i + 1) (tl stack)
          else FindEndOfExpressionInLine line (i + 1) stack
        else if c = CHR '';'' then
          if drop_top (CHR ''<'') stack = [] then Unclosed
          else FindEndOfExpressionInLine line (i + 1) (drop_top (CHR ''<'') stack)
        else FindEndOfExpressionInLine line (i + 1) stack
      else Open stack)"
  by pat_completeness auto
termination by (relation "measure (\<lambda>(line, i, stack). length line - i)") auto

text \<open>
  \<^verbatim>\<open>FindStartOfExpressionInLine(line, endpos, stack)\<close> with the number of characters still
  to be looked at, \<open>endpos + 1\<close>, in the place of \<open>endpos\<close>, which is \<^verbatim>\<open>-1\<close> on an empty line.
\<close>

function FindStartOfExpressionInLine :: "string \<Rightarrow> nat \<Rightarrow> char list \<Rightarrow> scan" where
  "FindStartOfExpressionInLine line n stack =
     (if n = 0 then Open stack
      else
        let i = n - 1; c = line ! i in
        if is_closing c then FindStartOfExpressionInLine line (n - 1) (c # stack)
        else if c = CHR ''>'' then
          if 0 < i \<and> (line ! (i - 1) = CHR ''-'' \<or> matches re_ge_operator (drop (i - 1) line)
               \<or> searches re_operator_end (take i line)) then
            FindStartOfExpressionInLine line (n - 2) stack
          else FindStartOfExpressionInLine line (n - 1) (CHR ''>'' # stack)
        else if c = CHR ''<'' then
          if 0 < i \<and> line ! (i - 1) = CHR ''<'' then FindStartOfExpressionInLine line (n - 2) stack
          else if stack \<noteq> [] \<and> hd stack = CHR ''>'' then
            if tl stack = [] then Found i else FindStartOfExpressionInLine line (n - 1) (tl stack)
          else FindStartOfExpressionInLine line (n - 1) stack
        else if is_opening c then
          case drop_top (CHR ''>'') stack of
            [] \<Rightarrow> Unclosed
          | t # rest \<Rightarrow>
              if bracket_pair c t then
                if rest = [] then Found i else FindStartOfExpressionInLine line (n - 1) rest
              else Unclosed
        else if c = CHR '';'' then
          if drop_top (CHR ''>'') stack = [] then Unclosed
          else FindStartOfExpressionInLine line (n - 1) (drop_top (CHR ''>'') stack)
        else FindStartOfExpressionInLine line (n - 1) stack)"
  by pat_completeness auto
termination by (relation "measure (\<lambda>(line, n, stack). n)") auto

declare FindEndOfExpressionInLine.simps [simp del] FindStartOfExpressionInLine.simps [simp del]

section \<open>Scanning the file\<close>

text \<open>
  The loops that go on to the next and the previous lines with an expression still open.
  The result is \<^verbatim>\<open>(line, linenum, pos)\<close>; the position \<^verbatim>\<open>-1\<close> is \<open>None\<close>.
\<close>

function close_lines :: "cleansed \<Rightarrow> nat \<Rightarrow> string \<Rightarrow> scan \<Rightarrow> string \<times> nat \<times> nat option" where
  "close_lines cl linenum line s =
     (case s of
        Found p \<Rightarrow> (line, linenum, Some p)
      | Unclosed \<Rightarrow> (line, NumLines cl, None)
      | Open stack \<Rightarrow>
          if stack \<noteq> [] \<and> linenum + 1 < NumLines cl then
            let line = elided cl ! (linenum + 1)
            in close_lines cl (linenum + 1) line (FindEndOfExpressionInLine line 0 stack)
          else (line, NumLines cl, None))"
  by pat_completeness auto
termination by (relation "measure (\<lambda>(cl, linenum, _). NumLines cl - linenum)") auto

fun open_lines :: "cleansed \<Rightarrow> nat \<Rightarrow> string \<Rightarrow> scan \<Rightarrow> string \<times> nat \<times> nat option" where
  "open_lines cl linenum line (Found p) = (line, linenum, Some p)"
| "open_lines cl linenum line Unclosed = (line, 0, None)"
| "open_lines cl 0 line (Open stack) = (line, 0, None)"
| "open_lines cl (Suc linenum) line (Open stack) =
     (if stack \<noteq> [] then
        let line = elided cl ! linenum
        in open_lines cl linenum line (FindStartOfExpressionInLine line (length line) stack)
      else (line, 0, None))"

declare close_lines.simps [simp del] open_lines.simps [simp del]

definition CloseExpression :: "cleansed \<Rightarrow> nat \<Rightarrow> nat \<Rightarrow> string \<times> nat \<times> nat option" where
  "CloseExpression cl linenum p =
     (let line = elided cl ! linenum
      in if \<not> (is_opening (line ! p) \<or> line ! p = CHR ''<'') \<or> matches re_shift (drop p line)
         then (line, NumLines cl, None)
         else close_lines cl linenum line (FindEndOfExpressionInLine line p []))"

definition ReverseCloseExpression :: "cleansed \<Rightarrow> nat \<Rightarrow> nat \<Rightarrow> string \<times> nat \<times> nat option" where
  "ReverseCloseExpression cl linenum p =
     (let line = elided cl ! linenum
      in if \<not> (is_closing (line ! p) \<or> line ! p = CHR ''>'') then (line, 0, None)
         else open_lines cl linenum line (FindStartOfExpressionInLine line (p + 1) []))"

section \<open>The reference matcher\<close>

text \<open>
  Parentheses, square brackets and braces only; every other character is passed over.
\<close>

fun bracket_step :: "char \<Rightarrow> char list \<Rightarrow> char list option" where
  "bracket_step c stack =
     (if is_opening c then Some (c # stack)
      else if is_closing c then
        (case stack of [] \<Rightarrow> None | t # rest \<Rightarrow> if bracket_pair t c then Some rest else None)
      else Some stack)"

fun bracket_scan :: "nat \<Rightarrow> char list \<Rightarrow> string \<Rightarrow> scan" where
  "bracket_scan i stack [] = Open stack"
| "bracket_scan i stack (c # cs) =
     (case bracket_step c stack of
        None \<Rightarrow> Unclosed
      | Some [] \<Rightarrow> Found (i + 1)
      | Some stack \<Rightarrow> bracket_scan (i + 1) stack cs)"

definition brackets :: "char list \<Rightarrow> char list" where
  "brackets stack = filter is_opening stack"

definition scan_brackets :: "scan \<Rightarrow> scan" where
  "scan_brackets s = (case s of Open stack \<Rightarrow> Open (brackets stack) | _ \<Rightarrow> s)"

text \<open>
  The stacks the scanner works with hold opening brackets and pending \<^verbatim>\<open><\<close>. When it has
  started at a bracket, one lies at the bottom, and what the scanner does with \<^verbatim>\<open><\<close>, \<^verbatim>\<open>>\<close>
  and \<^verbatim>\<open>;\<close> makes no difference to the brackets.
\<close>

definition stack_ok :: "char list \<Rightarrow> bool" where
  "stack_ok stack \<longleftrightarrow>
     (\<forall>c \<in> set stack. is_opening c \<or> c = CHR ''<'') \<and> (stack \<noteq> [] \<longrightarrow> is_opening (last stack))"

lemma not_bracket [simp]:
  "\<not> is_opening (CHR ''<'')" "\<not> is_opening (CHR ''>'')" "\<not> is_opening (CHR '';'')"
  "\<not> is_closing (CHR ''<'')" "\<not> is_closing (CHR ''>'')" "\<not> is_closing (CHR '';'')"
  by (simp_all add: is_opening_def is_closing_def)

lemma is_opening_not_closing: "is_opening c \<Longrightarrow> \<not> is_closing c"
  by (auto simp: is_opening_def is_closing_def)

lemma brackets_Nil: "stack_ok stack \<Longrightarrow> brackets stack = [] \<longleftrightarrow> stack = []"
  by (metis brackets_def filter_empty_conv filter.simps(1) last_in_set stack_ok_def)

lemma stack_ok_tl: "stack_ok (c # stack) \<Longrightarrow> stack_ok stack"
  by (auto simp: stack_ok_def)

lemma drop_top_ok:
  "stack_ok stack \<Longrightarrow> stack_ok (drop_top (CHR ''<'') stack) \<and>
     brackets (drop_top (CHR ''<'') stack) = brackets stack \<and>
     (\<forall>t rest. drop_top (CHR ''<'') stack = t # rest \<longrightarrow> is_opening t)"
proof (induction stack)
  case Nil
  then show ?case by (simp add: drop_top_def)
next
  case (Cons c stack)
  show ?case
  proof (cases "c = CHR ''<''")
    case True
    then have "drop_top (CHR ''<'') (c # stack) = drop_top (CHR ''<'') stack"
        "brackets (c # stack) = brackets stack"
      by (simp_all add: drop_top_def brackets_def)
    then show ?thesis using Cons.IH stack_ok_tl [OF Cons.prems] by simp
  next
    case False
    then show ?thesis using Cons.prems by (auto simp: drop_top_def stack_ok_def)
  qed
qed

definition follows :: "string \<Rightarrow> nat \<Rightarrow> char list \<Rightarrow> char list option \<Rightarrow> bool" where
  "follows line i stack next \<longleftrightarrow>
     (case next of
        None \<Rightarrow> FindEndOfExpressionInLine line i stack = Unclosed
      | Some bs \<Rightarrow>
          if bs = [] then FindEndOfExpressionInLine line i stack = Found (i + 1)
          else \<exists>stack'. stack_ok stack' \<and> brackets stack' = bs \<and>
            FindEndOfExpressionInLine line i stack = FindEndOfExpressionInLine line (i + 1) stack')"

lemma end_step:
  assumes ok: "stack_ok stack" and st: "stack \<noteq> []" and i: "i < length line"
  shows "follows line i stack (bracket_step (line ! i) (brackets stack))"
proof -
  define c where "c = line ! i"
  note unfold = FindEndOfExpressionInLine.simps [of line i stack] Let_def c_def [symmetric]
  have bs: "brackets stack \<noteq> []" using brackets_Nil [OF ok] st by simp
  have pop: "tl stack \<noteq> [] \<and> stack_ok (tl stack) \<and> brackets (tl stack) = brackets stack"
    if "hd stack = CHR ''<''"
    using that ok st bs by (cases stack) (auto simp: stack_ok_def brackets_def)
  consider "is_opening c" | "is_closing c" "\<not> is_opening c" "c \<noteq> CHR ''<''"
    | "c = CHR ''<''" | "c = CHR ''>''" | "c = CHR '';''"
    | "\<not> is_opening c" "\<not> is_closing c" "c \<noteq> CHR ''<''" "c \<noteq> CHR ''>''" "c \<noteq> CHR '';''"
    using is_opening_not_closing by fastforce
  then have "follows line i stack (bracket_step c (brackets stack))"
  proof cases
    case 1
    then have "stack_ok (c # stack) \<and> brackets (c # stack) = c # brackets stack"
      using ok st by (auto simp: stack_ok_def brackets_def)
    then show ?thesis using 1 i by (auto simp: follows_def unfold)
  next
    case 2
    obtain t rest where d: "drop_top (CHR ''<'') stack = t # rest"
      using drop_top_ok [OF ok] brackets_Nil [OF ok] st bs brackets_Nil
      by (cases "drop_top (CHR ''<'') stack") (auto simp: brackets_def)
    then have t: "is_opening t" "stack_ok rest" "brackets stack = t # brackets rest"
      using drop_top_ok [OF ok] stack_ok_tl [of t rest] by (auto simp: brackets_def)
    show ?thesis using 2 d t i brackets_Nil [OF t(2)] by (auto simp: follows_def unfold)
  next
    case 3
    moreover have "stack_ok (CHR ''<'' # stack) \<and> brackets (CHR ''<'' # stack) = brackets stack"
      using ok st by (auto simp: stack_ok_def brackets_def)
    ultimately show ?thesis using ok st bs pop i by (auto simp: follows_def unfold)
  next
    case 4
    then show ?thesis using ok st bs pop i by (auto simp: follows_def unfold)
  next
    case 5
    have "drop_top (CHR ''<'') stack \<noteq> []"
      using drop_top_ok [OF ok] bs by (auto simp: brackets_def)
    with 5 show ?thesis using drop_top_ok [OF ok] bs i by (auto simp: follows_def unfold)
  next
    case 6
    then show ?thesis using ok bs i by (auto simp: follows_def unfold)
  qed
  then show ?thesis by (simp add: c_def)
qed

lemma end_refines:
  "stack_ok stack \<Longrightarrow> stack \<noteq> [] \<Longrightarrow> i \<le> length line \<Longrightarrow>
     scan_brackets (FindEndOfExpressionInLine line i stack)
       = bracket_scan i (brackets stack) (drop i line)"
proof (induction "length line - i" arbitrary: i stack)
  case 0
  then show ?case
    by (simp add: FindEndOfExpressionInLine.simps [of line i stack] scan_brackets_def)
next
  case (Suc k)
  then have i: "i < length line" by simp
  then have drop: "drop i line = line ! i # drop (i + 1) line" by (simp add: Cons_nth_drop_Suc)
  note step = end_step [OF Suc.prems(1,2) i]
  show ?case
  proof (cases "bracket_step (line ! i) (brackets stack)")
    case None
    with step show ?thesis unfolding drop by (simp add: follows_def scan_brackets_def del: bracket_step.simps)
  next
    case (Some bs)
    show ?thesis
    proof (cases bs)
      case Nil
      with step Some show ?thesis unfolding drop
        by (simp add: follows_def scan_brackets_def del: bracket_step.simps)
    next
      case (Cons t ts)
      with step Some obtain stack' where st': "stack_ok stack'" "brackets stack' = bs"
          "FindEndOfExpressionInLine line i stack = FindEndOfExpressionInLine line (i + 1) stack'"
        by (auto simp: follows_def)
      moreover have "stack' \<noteq> []" using st'(2) Cons by (auto simp: brackets_def)
      moreover have "k = length line - (i + 1)" using Suc.hyps(2) by simp
      ultimately show ?thesis using Suc.hyps(1) [of "i + 1" stack'] i Some Cons unfolding drop
        by (simp del: bracket_step.simps)
    qed
  qed
qed

text \<open>What is left open at the end of a line is such a stack again.\<close>

definition open_ok :: "scan \<Rightarrow> bool" where
  "open_ok s \<longleftrightarrow> (case s of Open st \<Rightarrow> stack_ok st \<and> st \<noteq> [] | _ \<Rightarrow> True)"

lemma end_open_ok:
  "stack_ok stack \<Longrightarrow> stack \<noteq> [] \<Longrightarrow> i \<le> length line \<Longrightarrow>
     open_ok (FindEndOfExpressionInLine line i stack)"
proof (induction "length line - i" arbitrary: i stack)
  case 0
  then show ?case by (simp add: FindEndOfExpressionInLine.simps [of line i stack] open_ok_def)
next
  case (Suc k)
  then have i: "i < length line" by simp
  note step = end_step [OF Suc.prems(1,2) i]
  show ?case
  proof (cases "bracket_step (line ! i) (brackets stack)")
    case None
    with step show ?thesis by (simp add: follows_def open_ok_def)
  next
    case (Some bs)
    show ?thesis
    proof (cases bs)
      case Nil
      with step Some show ?thesis by (simp add: follows_def open_ok_def)
    next
      case (Cons t ts)
      with step Some obtain stack' where st': "stack_ok stack'" "brackets stack' = bs"
          "FindEndOfExpressionInLine line i stack = FindEndOfExpressionInLine line (i + 1) stack'"
        by (auto simp: follows_def)
      moreover have "stack' \<noteq> []" using st'(2) Cons by (auto simp: brackets_def)
      moreover have "k = length line - (i + 1)" using Suc.hyps(2) by simp
      ultimately show ?thesis using Suc.hyps(1) [of "i + 1" stack'] i by simp
    qed
  qed
qed

section \<open>Balanced text\<close>

inductive balanced :: "string \<Rightarrow> bool" where
  balanced_Nil: "balanced []"
| balanced_other: "\<not> is_opening c \<Longrightarrow> \<not> is_closing c \<Longrightarrow> balanced s \<Longrightarrow> balanced (c # s)"
| balanced_pair: "bracket_pair a b \<Longrightarrow> balanced s \<Longrightarrow> balanced t \<Longrightarrow> balanced (a # s @ b # t)"

lemma bracket_pair_kinds: "bracket_pair a b \<Longrightarrow> is_opening a \<and> is_closing b \<and> \<not> is_opening b"
  by (auto simp: bracket_pair_def is_opening_def is_closing_def)

lemma scan_balanced:
  "balanced s \<Longrightarrow> stack \<noteq> [] \<Longrightarrow> bracket_scan i stack (s @ cs) = bracket_scan (i + length s) stack cs"
proof (induction s arbitrary: i stack cs rule: balanced.induct)
  case balanced_Nil
  then show ?case by simp
next
  case (balanced_other c s)
  then show ?case by (cases stack) simp_all
next
  case (balanced_pair a b s t)
  note k = bracket_pair_kinds [OF balanced_pair.hyps(1)]
  have "bracket_scan i stack ((a # s @ b # t) @ cs) = bracket_scan (i + 1) (a # stack) (s @ b # t @ cs)"
    using k by simp
  also have "\<dots> = bracket_scan (i + 1 + length s) (a # stack) (b # t @ cs)"
    by (rule balanced_pair.IH(1)) simp
  also have "\<dots> = bracket_scan (i + 2 + length s) stack (t @ cs)"
    using k balanced_pair.hyps(1) balanced_pair.prems by (cases stack) simp_all
  also have "\<dots> = bracket_scan (i + 2 + length s + length t) stack cs"
    by (rule balanced_pair.IH(2)) fact
  finally show ?case by (simp add: ac_simps)
qed

lemma scan_append:
  "bracket_scan i stack (s @ cs) =
     (case bracket_scan i stack s of
        Open st \<Rightarrow> bracket_scan (i + length s) st cs
      | r \<Rightarrow> r)"
proof (induction s arbitrary: i stack)
  case Nil
  show ?case by simp
next
  case (Cons c s)
  show ?case using Cons by (auto simp del: bracket_step.simps split: option.splits list.splits scan.splits)
qed

text \<open>The reference matcher over several lines.\<close>

fun bracket_lines :: "nat \<Rightarrow> string \<Rightarrow> scan \<Rightarrow> string list \<Rightarrow> (string \<times> nat \<times> nat) option" where
  "bracket_lines l line (Found p) rest = Some (line, l, p)"
| "bracket_lines l line Unclosed rest = None"
| "bracket_lines l line (Open st) [] = None"
| "bracket_lines l line (Open st) (next # rest) =
     bracket_lines (l + 1) next (bracket_scan 0 st next) rest"

lemma bracket_lines_balanced:
  "bracket_scan i stack s = Open st \<Longrightarrow> bracket_scan 0 st (concat mid @ sk) = Open [a] \<Longrightarrow>
     bracket_pair a b \<Longrightarrow>
     bracket_lines l line (Open st) (mid @ (sk @ b # post) # rest)
       = Some (sk @ b # post, l + length mid + 1, length sk + 1)"
proof (induction mid arbitrary: l line st i stack s)
  case Nil
  then show ?case using bracket_pair_kinds [of a b] by (simp add: scan_append)
next
  case (Cons m mid)
  have shift: "bracket_scan i stack s = Open st \<Longrightarrow> bracket_scan j stack s = Open st" for i j stack s st
    by (induction s arbitrary: i j stack)
       (auto simp del: bracket_step.simps split: option.splits list.splits)
  from Cons.prems(2) obtain st1 where st1: "bracket_scan 0 st m = Open st1"
      "bracket_scan (length m) st1 (concat mid @ sk) = Open [a]"
    by (auto simp: scan_append [of 0 st m] split: scan.splits)
  from Cons.IH [OF st1(1) shift [OF st1(2)] Cons.prems(3)] st1(1) show ?case by simp
qed

section \<open>Closing an expression\<close>

definition closes :: "cleansed \<Rightarrow> string \<times> nat \<times> nat option \<Rightarrow> (string \<times> nat \<times> nat) option \<Rightarrow> bool" where
  "closes cl r ref \<longleftrightarrow>
     (case ref of
        Some (line, l, p) \<Rightarrow> r = (line, l, Some p)
      | None \<Rightarrow> \<exists>line. r = (line, NumLines cl, None))"

lemma close_lines_refines:
  "NumLines cl = length (elided cl) \<Longrightarrow> l < NumLines cl \<Longrightarrow> open_ok s \<Longrightarrow>
     closes cl (close_lines cl l line s)
       (bracket_lines l line (scan_brackets s) (drop (l + 1) (elided cl)))"
proof (induction cl l line s rule: close_lines.induct)
  case (1 cl l line s)
  show ?case
  proof (cases s)
    case (Open st)
    then have st: "stack_ok st" "st \<noteq> []" using "1.prems"(3) by (simp_all add: open_ok_def)
    show ?thesis
    proof (cases "l + 1 < NumLines cl")
      case True
      define line' where "line' = elided cl ! (l + 1)"
      have "drop (l + 1) (elided cl) = line' # drop (l + 1 + 1) (elided cl)"
        using True "1.prems"(1) by (simp add: line'_def Cons_nth_drop_Suc)
      moreover have "close_lines cl l line s
          = close_lines cl (l + 1) line' (FindEndOfExpressionInLine line' 0 st)"
        using Open st True by (simp add: close_lines.simps [of cl l line "Open st"] line'_def Let_def)
      moreover have "open_ok (FindEndOfExpressionInLine line' 0 st)"
        using end_open_ok [OF st] by simp
      moreover have "scan_brackets (FindEndOfExpressionInLine line' 0 st)
          = bracket_scan 0 (brackets st) line'"
        using end_refines [OF st, of 0 line'] by simp
      ultimately show ?thesis
        using "1.IH" [OF Open _ line'_def] Open st True "1.prems"
        by (simp add: scan_brackets_def)
    next
      case False
      then have "drop (l + 1) (elided cl) = []" using "1.prems"(1) by simp
      then show ?thesis using Open False
        by (simp add: close_lines.simps [of cl l line "Open st"] closes_def scan_brackets_def)
    qed
  qed (simp_all add: close_lines.simps [of cl l line "Found _"] close_lines.simps [of cl l line Unclosed]
      closes_def scan_brackets_def)
qed

lemma CloseExpression_refines:
  assumes n: "NumLines cl = length (elided cl)" and l: "l < NumLines cl"
    and p: "p < length (elided cl ! l)" and c: "is_opening (elided cl ! l ! p)"
  shows "closes cl (CloseExpression cl l p)
    (bracket_lines l (elided cl ! l) (bracket_scan p [] (drop p (elided cl ! l)))
      (drop (l + 1) (elided cl)))"
proof -
  define line where "line = elided cl ! l"
  define a where "a = line ! p"
  have a: "is_opening a" "a \<noteq> CHR ''<''" using c by (auto simp: a_def line_def is_opening_def)
  have drop: "drop p line = a # drop (p + 1) line"
    using p by (simp add: a_def line_def Cons_nth_drop_Suc)
  have "\<not> matches re_shift (drop p line)"
  proof
    assume "matches re_shift (drop p line)"
    then obtain m where m: "re_match re_shift (drop p line) = Some m" by (auto simp: matches_def)
    from re_match_lang [OF m] re_match_text(2) [OF m] drop a(2) show False
      by (auto simp: re_shift_def)
  qed
  then have "CloseExpression cl l p = close_lines cl l line (FindEndOfExpressionInLine line (p + 1) [a])"
    using a p by (simp add: CloseExpression_def Let_def line_def [symmetric] a_def [symmetric]
        FindEndOfExpressionInLine.simps [of line p "[]"])
  moreover have st: "stack_ok [a]" using a by (simp add: stack_ok_def)
  moreover have "scan_brackets (FindEndOfExpressionInLine line (p + 1) [a]) = bracket_scan p [] (drop p line)"
    using end_refines [OF st, of "p + 1" line] p a drop by (simp add: line_def brackets_def)
  moreover have "open_ok (FindEndOfExpressionInLine line (p + 1) [a])"
    using end_open_ok [OF st, of "p + 1" line] p by (simp add: line_def)
  ultimately show ?thesis
    using close_lines_refines [OF n l, of "FindEndOfExpressionInLine line (p + 1) [a]" line]
    by (simp add: line_def)
qed

text \<open>
  From an opening bracket, over any number of lines of balanced text, to the bracket that
  closes it.
\<close>

lemma CloseExpression_line:
  assumes n: "NumLines cl = length (elided cl)" and l: "l < NumLines cl"
    and line: "elided cl ! l = pre @ a # s @ b # post"
    and ab: "bracket_pair a b" and s: "balanced s"
  shows "CloseExpression cl l (length pre) = (elided cl ! l, l, Some (length pre + length s + 2))"
proof -
  have "bracket_scan (length pre) [] (a # s @ b # post) = Found (length pre + length s + 2)"
    using bracket_pair_kinds [OF ab] ab scan_balanced [OF s, of "[a]" "length pre + 1" "b # post"]
    by simp
  with CloseExpression_refines [OF n l, of "length pre"] line bracket_pair_kinds [OF ab]
  show ?thesis by (simp add: closes_def del: bracket_scan.simps)
qed

lemma CloseExpression_lines:
  assumes n: "NumLines cl = length (elided cl)"
    and ls: "elided cl = earlier @ (pre @ a # s0) # mid @ (sk @ b # post) # rest"
    and ab: "bracket_pair a b" and s: "balanced (s0 @ concat mid @ sk)"
  shows "CloseExpression cl (length earlier) (length pre)
    = (sk @ b # post, length earlier + length mid + 1, Some (length sk + 1))"
proof -
  have "bracket_scan 0 [a] (s0 @ concat mid @ sk) = Open [a]"
    using scan_balanced [OF s, of "[a]" 0 "[]"] by simp
  then obtain st where st: "bracket_scan 0 [a] s0 = Open st"
      "bracket_scan (length s0) st (concat mid @ sk) = Open [a]"
    by (auto simp: scan_append [of 0 "[a]" s0] split: scan.splits)
  have shift: "bracket_scan i stack s = Open st \<Longrightarrow> bracket_scan j stack s = Open st" for i j stack s st
    by (induction s arbitrary: i j stack)
       (auto simp del: bracket_step.simps split: option.splits list.splits)
  have "bracket_scan (length pre) [] (a # s0) = Open st"
    using shift [OF st(1)] bracket_pair_kinds [OF ab] by simp
  with bracket_lines_balanced [OF st(1) shift [OF st(2)] ab]
      CloseExpression_refines [OF n, of "length earlier" "length pre"] ls bracket_pair_kinds [OF ab] n
  show ?thesis by (simp add: closes_def nth_append del: bracket_scan.simps)
qed

end
