(* ===== verification/Lint_File.thy ===== *)
theory Lint_File
  imports Lint_Cleanse
begin

text \<open>
  File names and the checks on a whole file: \<^verbatim>\<open>FileInfo\<close>, the header guard, the copyright
  line, NUL bytes and the newline at the end of file.
\<close>

section \<open>Paths\<close>

text \<open>What \<^verbatim>\<open>os.path\<close> does on a POSIX system.\<close>

definition isabs :: "string \<Rightarrow> bool" where
  "isabs p = starts_with p ''/''"

definition path_join :: "string \<Rightarrow> string \<Rightarrow> string" where
  "path_join a b =
     (if isabs b then b else if a = [] \<or> ends_with a ''/'' then a @ b else a @ ''/'' @ b)"

definition path_split :: "string \<Rightarrow> string \<times> string" where
  "path_split p =
     (let i = (case rfind_str ''/'' p of None \<Rightarrow> 0 | Some i \<Rightarrow> i + 1); head = take i p
      in (if head \<noteq> [] \<and> list_ex (\<lambda>c. c \<noteq> CHR ''/'') head
          then rev (dropWhile (\<lambda>c. c = CHR ''/'') (rev head)) else head, drop i p))"

definition dirname :: "string \<Rightarrow> string" where
  "dirname p = fst (path_split p)"

definition splitext :: "string \<Rightarrow> string \<times> string" where
  "splitext p =
     (let name = (case rfind_str ''/'' p of None \<Rightarrow> 0 | Some i \<Rightarrow> i + 1)
      in case rfind_str ''.'' p of
           None \<Rightarrow> (p, [])
         | Some dot \<Rightarrow>
             if name \<le> dot \<and> list_ex (\<lambda>c. c \<noteq> CHR ''.'') (drop name (take dot p))
             then (take dot p, drop dot p) else (p, []))"

fun common_prefix :: "string \<Rightarrow> string \<Rightarrow> string" where
  "common_prefix (a # as) (b # bs) = (if a = b then a # common_prefix as bs else [])"
| "common_prefix _ _ = []"

fun norm_comps :: "bool \<Rightarrow> string list \<Rightarrow> string list \<Rightarrow> string list" where
  "norm_comps rooted new [] = rev new"
| "norm_comps rooted new (c # cs) =
     (if c = [] \<or> c = ''.'' then norm_comps rooted new cs
      else if c \<noteq> ''..'' \<or> (\<not> rooted \<and> new = []) \<or> (new \<noteq> [] \<and> hd new = ''..'')
      then norm_comps rooted (c # new) cs
      else norm_comps rooted (tl new) cs)"

definition normpath :: "string \<Rightarrow> string" where
  "normpath p =
     (if p = [] then ''.''
      else
        let slashes = (if starts_with p ''//'' \<and> \<not> starts_with p ''///'' then ''//''
                       else if isabs p then ''/'' else []);
            q = slashes @ join ''/'' (norm_comps (slashes \<noteq> []) [] (split_on (CHR ''/'') p))
        in if q = [] then ''.'' else q)"

section \<open>FileInfo\<close>

text \<open>The operating system: the working directory and the paths that exist.\<close>

record os =
  getcwd :: string
  path_exists :: "string \<Rightarrow> bool"

definition abspath :: "os \<Rightarrow> string \<Rightarrow> string" where
  "abspath os p = normpath (if isabs p then p else path_join (getcwd os) p)"

definition FullName :: "os \<Rightarrow> string \<Rightarrow> string" where
  "FullName os filename = replace_str [CHR 0x5C] ''/'' (abspath os filename)"

text \<open>
  The walk up an SVN checkout. It has no end when the walk comes to a directory that is its
  own parent and has a \<^verbatim>\<open>.svn\<close>: not returning is \<open>None\<close>.
\<close>

partial_function (option) svn_root :: "os \<Rightarrow> string \<Rightarrow> string \<Rightarrow> string option" where
  "svn_root os root_dir one_up_dir =
     (if path_exists os (path_join one_up_dir ''.svn'')
      then svn_root os (dirname root_dir) (dirname one_up_dir)
      else Some root_dir)"

lemma length_dirname: "dirname p \<noteq> p \<Longrightarrow> length (dirname p) < length p"
proof -
  assume neq: "dirname p \<noteq> p"
  define i where "i = (case rfind_str ''/'' p of None \<Rightarrow> 0 | Some i \<Rightarrow> i + 1)"
  define h where "h = take i p"
  have d: "dirname p = (if h \<noteq> [] \<and> list_ex (\<lambda>c. c \<noteq> CHR ''/'') h
      then rev (dropWhile (\<lambda>c. c = CHR ''/'') (rev h)) else h)"
    by (simp add: dirname_def path_split_def h_def i_def Let_def)
  have "rev h = takeWhile (\<lambda>c. c = CHR ''/'') (rev h) @ dropWhile (\<lambda>c. c = CHR ''/'') (rev h)" by simp
  then have "h = rev (dropWhile (\<lambda>c. c = CHR ''/'') (rev h)) @ rev (takeWhile (\<lambda>c. c = CHR ''/'') (rev h))"
    by (metis rev_append rev_rev_ident)
  then have "\<exists>t. h = dirname p @ t" using d by (metis append_Nil2)
  moreover have "p = h @ drop i p" by (simp add: h_def)
  ultimately obtain t where "p = dirname p @ t" by (metis append.assoc)
  with neq show ?thesis by (metis append_Nil2 length_append length_greater_0_conv less_add_same_cancel1)
qed

function repo_root :: "os \<Rightarrow> string \<Rightarrow> string" where
  "repo_root os root_dir =
     (if root_dir \<noteq> dirname root_dir \<and> \<not> path_exists os (path_join root_dir ''.git'')
         \<and> \<not> path_exists os (path_join root_dir ''.hg'') \<and> \<not> path_exists os (path_join root_dir ''.svn'')
      then repo_root os (dirname root_dir) else root_dir)"
  by pat_completeness auto
termination
proof (relation "measure (\<lambda>(os, d). length d)", goal_cases)
  case 1
  show ?case by simp
next
  case (2 os root_dir)
  then show ?case using length_dirname [of root_dir] by auto
qed

declare repo_root.simps [simp del]

definition RepositoryName :: "os \<Rightarrow> string \<Rightarrow> string option" where
  "RepositoryName os filename =
     (let fullname = FullName os filename; project_dir = dirname fullname
      in if path_exists os fullname then
           if path_exists os (path_join project_dir ''.svn'') then
             map_option (\<lambda>root_dir. drop (length (common_prefix root_dir project_dir) + 1) fullname)
               (svn_root os project_dir (dirname project_dir))
           else
             let root_dir = repo_root os (dirname fullname)
             in if path_exists os (path_join root_dir ''.git'')
                   \<or> path_exists os (path_join root_dir ''.hg'')
                   \<or> path_exists os (path_join root_dir ''.svn'')
                then Some (drop (length (common_prefix root_dir project_dir) + 1) fullname)
                else Some fullname
         else Some fullname)"

definition Split :: "os \<Rightarrow> string \<Rightarrow> (string \<times> string \<times> string) option" where
  "Split os filename =
     map_option (\<lambda>googlename. case path_split googlename of
       (project, rest) \<Rightarrow> (project, fst (splitext rest), snd (splitext rest)))
       (RepositoryName os filename)"

definition BaseName :: "os \<Rightarrow> string \<Rightarrow> string option" where
  "BaseName os filename = map_option (\<lambda>(_, b, _). b) (Split os filename)"

definition Extension :: "os \<Rightarrow> string \<Rightarrow> string option" where
  "Extension os filename = map_option (\<lambda>(_, _, e). e) (Split os filename)"

definition NoExtension :: "os \<Rightarrow> string \<Rightarrow> string option" where
  "NoExtension os filename = map_option (\<lambda>(d, b, _). join ''/'' [d, b]) (Split os filename)"

definition IsSource :: "os \<Rightarrow> string \<Rightarrow> bool option" where
  "IsSource os filename =
     map_option (\<lambda>e. drop 1 e \<in> {''c'', ''cc'', ''cpp'', ''cxx''}) (Extension os filename)"

section \<open>The header guard\<close>

text \<open>
  \<^verbatim>\<open>_root\<close>, the argument of \<^verbatim>\<open>--root\<close>, goes into a pattern as it is: it is a regular
  expression here, and \<open>None\<close> when the option is not given or empty.
\<close>

definition GetHeaderGuardCPPVariable :: "os \<Rightarrow> regex option \<Rightarrow> string \<Rightarrow> string option" where
  "GetHeaderGuardCPPVariable os root filename =
     (let filename = re_sub re_flymake_h (\<lambda>_. ''.h'') filename;
          filename = re_sub re_flymake_dir (\<lambda>m. ''/'' @ grp 1 m) filename
      in map_option (\<lambda>file_path_from_root.
           let file_path_from_root =
             (case root of
                None \<Rightarrow> file_path_from_root
              | Some r \<Rightarrow> re_sub (seq [Bol, r, Str ''/'']) (\<lambda>_. []) file_path_from_root)
           in upper (re_sub re_guard_chars (\<lambda>_. ''_'') file_path_from_root) @ ''_'')
         (RepositoryName os filename))"

record guard_lines =
  g_ifndef :: "string option"
  g_ifndef_linenum :: nat
  g_define :: "string option"
  g_endif :: "string option"
  g_endif_linenum :: nat

definition guard_line :: "nat \<Rightarrow> string \<Rightarrow> guard_lines \<Rightarrow> guard_lines" where
  "guard_line linenum line g =
     (let linesplit = words line;
          g = (if 2 \<le> length linesplit \<and> g_ifndef g = None \<and> linesplit ! 0 = ''#ifndef''
               then g\<lparr>g_ifndef := Some (linesplit ! 1), g_ifndef_linenum := linenum\<rparr> else g);
          g = (if 2 \<le> length linesplit \<and> g_define g = None \<and> linesplit ! 0 = ''#define''
               then g\<lparr>g_define := Some (linesplit ! 1)\<rparr> else g)
      in if starts_with line ''#endif''
         then g\<lparr>g_endif := Some line, g_endif_linenum := linenum\<rparr> else g)"

fun guard_scan :: "nat \<Rightarrow> string list \<Rightarrow> guard_lines \<Rightarrow> guard_lines" where
  "guard_scan linenum [] g = g"
| "guard_scan linenum (line # ls) g = guard_scan (linenum + 1) ls (guard_line linenum line g)"

definition guard_init :: guard_lines where
  "guard_init = \<lparr>g_ifndef = None, g_ifndef_linenum = 0, g_define = None, g_endif = None,
                 g_endif_linenum = 0\<rparr>"

text \<open>\<^verbatim>\<open>ParseNolintSuppressions\<close> together with the error it may report.\<close>

definition parse_nolint :: "string \<Rightarrow> string \<Rightarrow> nat \<Rightarrow> lint \<Rightarrow> lint option" where
  "parse_nolint filename raw_line linenum L =
     (case ParseNolintSuppressions raw_line linenum L of (ds, L) \<Rightarrow> Errors filename ds L)"

definition CheckForHeaderGuard ::
  "os \<Rightarrow> regex option \<Rightarrow> string \<Rightarrow> string list \<Rightarrow> lint \<Rightarrow> lint option" where
  "CheckForHeaderGuard os root filename ls L =
     (if list_ex (searches re_nolint_guard) ls then Some L
      else Option.bind (GetHeaderGuardCPPVariable os root filename) (\<lambda>cppvar.
        let g = guard_scan 0 ls guard_init;
            report = (\<lambda>n k m. Errors filename [diag n ''build/header_guard'' k m])
        in case g_ifndef g of
          None \<Rightarrow> report 0 5 (''No #ifndef header guard found, suggested CPP variable is: '' @ cppvar) L
        | Some ifndef \<Rightarrow>
          (case g_define g of
             None \<Rightarrow> report 0 5 (''No #define header guard found, suggested CPP variable is: '' @ cppvar) L
           | Some define \<Rightarrow>
             Option.bind
               (if ifndef \<noteq> cppvar then
                  Option.bind (parse_nolint filename (ls ! g_ifndef_linenum g) (g_ifndef_linenum g) L)
                    (report (g_ifndef_linenum g) (if ifndef \<noteq> cppvar @ ''_'' then 5 else 0)
                       (''#ifndef header guard has wrong style, please use: '' @ cppvar))
                else Some L) (\<lambda>L.
             if define \<noteq> ifndef then
               report 0 5 ((''#ifndef and #define don'' @ [CHR 0x27] @ ''t match, suggested CPP variable is: '') @ cppvar) L
             else if g_endif g \<noteq> Some (''#endif  // '' @ cppvar) then
               Option.bind (parse_nolint filename (ls ! g_endif_linenum g) (g_endif_linenum g) L)
                 (report (g_endif_linenum g)
                    (if g_endif g \<noteq> Some (''#endif  // '' @ cppvar @ ''_'') then 5 else 0)
                    ((''#endif line should be '' @ [CHR 0x22] @ ''#endif  // '') @ cppvar @ [CHR 0x22]))
             else Some L))))"

section \<open>Copyright, bad characters, end of file\<close>

definition CheckForCopyright :: "string list \<Rightarrow> diag list" where
  "CheckForCopyright ls =
     (if list_ex (\<lambda>line. searches re_copyright (ls ! line)) [1..<min (length ls) 11] then []
      else [diag 0 ''legal/copyright'' 5
        ((''No copyright message found.  You should have a line: '' @ [CHR 0x22] @ ''Copyright ''
           @ ''[year] <Copyright Owner>'' @ [CHR 0x22]))])"

definition GetIndentLevel :: "string \<Rightarrow> nat" where
  "GetIndentLevel line =
     (case re_match re_indent line of Some m \<Rightarrow> length (grp 1 m) | None \<Rightarrow> 0)"

text \<open>
  \<^verbatim>\<open>u'\ufffd'\<close> is not among the characters of the model, so only the second kind of bad
  character remains.
\<close>

definition CheckForBadCharacters :: "string list \<Rightarrow> diag list" where
  "CheckForBadCharacters ls =
     concat (map (\<lambda>(linenum, line).
       if contains [CHR 0x00] line
       then [diag linenum ''readability/nul'' 5 ''Line contains NUL byte.''] else [])
     (enumerate 0 ls))"

text \<open>The lines have a marker added at either end, so there are always two of them.\<close>

definition CheckForNewlineAtEOF :: "string list \<Rightarrow> diag list" where
  "CheckForNewlineAtEOF ls =
     (if length ls < 3 \<or> ls ! (length ls - 2) \<noteq> []
      then [diag (length ls - 2) ''whitespace/ending_newline'' 5
              ''Could not find a newline character at the end of the file.'']
      else [])"

section \<open>What these checks decide\<close>

lemma svn_root_diverges:
  assumes "dirname d = d" and "path_exists os (path_join d ''.svn'')"
  shows "svn_root os root_dir d = None"
proof -
  have "os' = os \<longrightarrow> e \<noteq> d" if "svn_root os' rd e = Some y" for os' rd e y
    by (rule svn_root.raw_induct [where P = "\<lambda>os' rd e y. os' = os \<longrightarrow> e \<noteq> d", OF _ that])
       (use assms in \<open>auto split: if_splits\<close>)
  then show ?thesis by (cases "svn_root os root_dir d") auto
qed

lemma svn_root_terminates:
  assumes "\<And>d. dirname d = d \<Longrightarrow> \<not> path_exists os (path_join d ''.svn'')"
  shows "\<exists>r. svn_root os root_dir one_up_dir = Some r"
proof (induction "length one_up_dir" arbitrary: root_dir one_up_dir rule: less_induct)
  case less
  show ?case
  proof (cases "path_exists os (path_join one_up_dir ''.svn'')")
    case True
    then have "length (dirname one_up_dir) < length one_up_dir"
      using assms length_dirname by blast
    with less True show ?thesis by (subst svn_root.simps) simp
  next
    case False
    then show ?thesis by (subst svn_root.simps) simp
  qed
qed

lemma RepositoryName_terminates:
  assumes "\<And>d. dirname d = d \<Longrightarrow> \<not> path_exists os (path_join d ''.svn'')"
  shows "RepositoryName os filename \<noteq> None"
  using svn_root_terminates [OF assms] by (auto simp: RepositoryName_def Let_def)

lemma class_of_guard_chars:
  "class_of re_guard_chars =
     Some (\<lambda>c. in_class c [C (CHR ''-''), C (CHR ''.''), C (CHR ''/''), Spc])"
  by (simp add: re_guard_chars_def)

lemma code_upper_char: "code (upper_char c) = (if is_lower c then code c - 32 else code c)"
proof -
  have "code c < 256" by (simp add: code_def String.nat_of_char_less_256)
  then have "code c - 32 < 256" by simp
  then show ?thesis by (simp add: upper_char_def code_def)
qed

lemma guard_variable_chars:
  assumes "GetHeaderGuardCPPVariable os root filename = Some v" and "c \<in> set v"
  shows "c \<notin> set ''-./'' \<and> \<not> is_space c \<and> \<not> is_lower c"
proof -
  obtain p where v: "v = upper (re_sub re_guard_chars (\<lambda>_. ''_'') p) @ ''_''"
    using assms(1) by (auto simp: GetHeaderGuardCPPVariable_def Let_def)
  have codes: "d \<notin> set ''-./'' \<and> \<not> is_space d \<longleftrightarrow>
      code d \<notin> {45, 46, 47, 32} \<and> \<not> (9 \<le> code d \<and> code d \<le> 13)" for d
    by (auto simp: is_space_def code_def simp flip: of_char_eq_iff [where 'a = nat])
  have codes_upper: "\<not> is_lower (upper_char d)" for d
    by (auto simp: is_lower_def code_upper_char)
  have up: "d \<notin> set ''-./'' \<and> \<not> is_space d \<Longrightarrow>
      upper_char d \<notin> set ''-./'' \<and> \<not> is_space (upper_char d)" for d
    using codes [of d] codes [of "upper_char d"] codes_upper [of d]
    by (auto simp: code_upper_char is_lower_def simp del: set_simps split: if_splits)
  define q where "q = (\<lambda>d. in_class d [C (CHR ''-''), C (CHR ''.''), C (CHR ''/''), Spc])"
  have q: "d \<notin> set ''-./'' \<and> \<not> is_space d \<longleftrightarrow> \<not> q d" for d by (simp add: q_def)
  have v: "v = map upper_char (concat (map (\<lambda>d. if q d then ''_'' else [d]) p)) @ ''_''"
    using v re_sub_class [OF class_of_guard_chars, of "''_''" p] by (simp add: upper_def q_def)
  have "c = CHR ''_'' \<or> c = upper_char (CHR ''_'') \<or> (\<exists>d. c = upper_char d \<and> \<not> q d)"
    using assms(2) unfolding v by (auto split: if_splits)
  moreover have "\<not> q (CHR ''_'') \<and> \<not> is_lower (CHR ''_'')" "\<not> q (upper_char (CHR ''_''))"
    "\<not> is_lower (upper_char (CHR ''_''))"
    unfolding q_def by code_simp+
  moreover have "\<not> q d \<Longrightarrow> \<not> q (upper_char d)" for d using up [of d] unfolding q by blast
  ultimately have "\<not> q c \<and> \<not> is_lower c" using codes_upper by blast
  then show ?thesis using q [of c] by blast
qed

lemma newline_at_eof:
  "CheckForNewlineAtEOF (a # split_on (CHR 0x0A) body @ [b]) = [] \<longleftrightarrow>
     body = [] \<or> last body = CHR 0x0A"
proof -
  have ne: "split_on (CHR 0x0A) body \<noteq> []" by simp
  then have "(a # split_on (CHR 0x0A) body @ [b]) ! (length (a # split_on (CHR 0x0A) body @ [b]) - 2)
      = last (split_on (CHR 0x0A) body)"
    by (simp add: nth_append nth_Cons' last_conv_nth)
  with last_split_on [of "CHR 0x0A" body] ne show ?thesis
    by (cases "split_on (CHR 0x0A) body") (auto simp: CheckForNewlineAtEOF_def)
qed

end
