(* ===== verification/Lint_Nesting.thy ===== *)
theory Lint_Nesting
  imports Lint_Expr Lint_File
begin

text \<open>
  The blocks a line of the file lies in: \<^verbatim>\<open>_BlockInfo\<close> and the classes derived from it,
  \<^verbatim>\<open>_PreprocessorInfo\<close> and \<^verbatim>\<open>NestingState\<close> of \<^verbatim>\<open>tools/cpplint.py\<close>. The top of a stack is the
  head of the list. The blocks of the program are objects, which one check compares by
  identity, so each carries a number, and \<^verbatim>\<open>deepcopy\<close> gives its copies new ones.
\<close>

section \<open>Blocks\<close>

datatype asm = NO_ASM | INSIDE_ASM | END_ASM | BLOCK_ASM

record class_info =
  class_name :: string
  class_starting_linenum :: nat
  is_derived :: bool
  access :: string
  is_struct :: bool
  class_indent :: nat
  last_line :: nat

record namespace_info =
  namespace_name :: string
  namespace_starting_linenum :: nat

datatype block_kind = Plain | ExternC | ClassKind class_info | NamespaceKind namespace_info

record block =
  ident :: nat
  seen_open_brace :: bool
  open_parentheses :: int
  inline_asm :: asm
  check_namespace_indentation :: bool
  kind :: block_kind

definition BlockInfo :: "nat \<Rightarrow> bool \<Rightarrow> block" where
  "BlockInfo n seen =
     \<lparr>ident = n, seen_open_brace = seen, open_parentheses = 0, inline_asm = NO_ASM,
      check_namespace_indentation = False, kind = Plain\<rparr>"

definition ExternCInfo :: "nat \<Rightarrow> block" where
  "ExternCInfo n = (BlockInfo n True)\<lparr>kind := ExternC\<rparr>"

text \<open>The first line, from the given ones on, at which the braces balance; 0 if there is none.\<close>

fun class_end :: "cleansed \<Rightarrow> int \<Rightarrow> nat list \<Rightarrow> nat" where
  "class_end cl depth [] = 0"
| "class_end cl depth (i # is) =
     (let line = elided cl ! i;
          depth = depth + (int (count_str ''{'' line) - int (count_str ''}'' line))
      in if depth = 0 then i else class_end cl depth is)"

definition ClassInfo :: "nat \<Rightarrow> string \<Rightarrow> string \<Rightarrow> cleansed \<Rightarrow> nat \<Rightarrow> block" where
  "ClassInfo n name class_or_struct cl linenum =
     (BlockInfo n False)
       \<lparr>check_namespace_indentation := True,
        kind := ClassKind
          \<lparr>class_name = name, class_starting_linenum = linenum, is_derived = False,
           access = (if class_or_struct = ''struct'' then ''public'' else ''private''),
           is_struct = (class_or_struct = ''struct''),
           class_indent = GetIndentLevel (raw_lines cl ! linenum),
           last_line = class_end cl 0 [linenum..<NumLines cl]\<rparr>\<rparr>"

definition NamespaceInfo :: "nat \<Rightarrow> string option \<Rightarrow> nat \<Rightarrow> block" where
  "NamespaceInfo n name linenum =
     (BlockInfo n False)
       \<lparr>check_namespace_indentation := True,
        kind := NamespaceKind
          \<lparr>namespace_name = (case name of None \<Rightarrow> [] | Some s \<Rightarrow> s),
           namespace_starting_linenum = linenum\<rparr>\<rparr>"

definition IsBlockInfo :: "block \<Rightarrow> bool" where
  "IsBlockInfo b \<longleftrightarrow> kind b = Plain"

definition is_class :: "block \<Rightarrow> bool" where
  "is_class b \<longleftrightarrow> (case kind b of ClassKind _ \<Rightarrow> True | _ \<Rightarrow> False)"

definition is_namespace :: "block \<Rightarrow> bool" where
  "is_namespace b \<longleftrightarrow> (case kind b of NamespaceKind _ \<Rightarrow> True | _ \<Rightarrow> False)"

definition CheckBegin :: "cleansed \<Rightarrow> nat \<Rightarrow> block \<Rightarrow> block" where
  "CheckBegin cl linenum b =
     (case kind b of
        ClassKind c \<Rightarrow>
          if searches re_bare_colon (elided cl ! linenum)
          then b\<lparr>kind := ClassKind (c\<lparr>is_derived := True\<rparr>)\<rparr> else b
      | _ \<Rightarrow> b)"

definition parent_name :: "class_info \<Rightarrow> string" where
  "parent_name c = (if is_struct c then ''struct '' else ''class '') @ class_name c"

definition class_CheckEnd :: "cleansed \<Rightarrow> nat \<Rightarrow> class_info \<Rightarrow> diag list" where
  "class_CheckEnd cl linenum c =
     (case re_match re_brace_indent (elided cl ! linenum) of
        None \<Rightarrow> []
      | Some indent \<Rightarrow>
          if length (grp 1 indent) \<noteq> class_indent c
          then [diag linenum ''whitespace/indent'' 3
                  (''Closing brace should be aligned with beginning of '' @ parent_name c)]
          else [])"

text \<open>\<^verbatim>\<open>};*\s*(//|/\*).*\bnamespace\s+NAME[\*/\.\\\s]*$\<close>\<close>

definition re_namespace_end :: "string \<Rightarrow> regex" where
  "re_namespace_end name =
     seq [Str ''}'', many (Str '';''), many (Set [Spc]), Grp 1 (seq [Str ''/'', Set [C (CHR ''/''), C (CHR ''*'')]]), many Dot,
       WordB, Str ''namespace'', some (Set [Spc]), Str name, many (Set [C (CHR ''*''), C (CHR ''/''), C (CHR ''.''), C (CHR 0x5C), Spc]), Eol]"

definition namespace_CheckEnd :: "cleansed \<Rightarrow> nat \<Rightarrow> namespace_info \<Rightarrow> diag list" where
  "namespace_CheckEnd cl linenum ns =
     (let line = raw_lines cl ! linenum
      in if int linenum - int (namespace_starting_linenum ns) < 10
            \<and> \<not> matches re_namespace_comment line then []
         else if namespace_name ns \<noteq> [] then
           if \<not> matches (re_namespace_end (namespace_name ns)) line
           then [diag linenum ''readability/namespace'' 5
                   ((''Namespace should be terminated with '' @ [CHR 0x22] @ ''// namespace '') @ namespace_name ns @ [CHR 0x22])]
           else []
         else if \<not> matches re_anonymous_end line then
           if matches re_anonymous_words line
           then [diag linenum ''readability/namespace'' 5
                   (''Anonymous namespace should be terminated with '' @ [CHR 0x22] @ ''// namespace'' @ [CHR 0x22] @ '' or ''
           @ [CHR 0x22] @ ''// anonymous namespace'' @ [CHR 0x22])]
           else [diag linenum ''readability/namespace'' 5
                   (''Anonymous namespace should be terminated with '' @ [CHR 0x22] @ ''// namespace'' @ [CHR 0x22])]
         else [])"

definition CheckEnd :: "cleansed \<Rightarrow> nat \<Rightarrow> block \<Rightarrow> diag list" where
  "CheckEnd cl linenum b =
     (case kind b of
        ClassKind c \<Rightarrow> class_CheckEnd cl linenum c
      | NamespaceKind ns \<Rightarrow> namespace_CheckEnd cl linenum ns
      | _ \<Rightarrow> [])"

section \<open>The state\<close>

record preprocessor_info =
  stack_before_if :: "block list"
  stack_before_else :: "block list"
  seen_else :: bool

record nesting_state =
  stack :: "block list"
  previous_stack_top :: "block option"
  pp_stack :: "preprocessor_info list"
  next_ident :: nat

definition NestingState_init :: nesting_state where
  "NestingState_init = \<lparr>stack = [], previous_stack_top = None, pp_stack = [], next_ident = 0\<rparr>"

definition SeenOpenBrace :: "nesting_state \<Rightarrow> bool" where
  "SeenOpenBrace ns \<longleftrightarrow> stack ns = [] \<or> seen_open_brace (hd (stack ns))"

definition InNamespaceBody :: "nesting_state \<Rightarrow> bool" where
  "InNamespaceBody ns \<longleftrightarrow> stack ns \<noteq> [] \<and> is_namespace (hd (stack ns))"

definition InExternC :: "nesting_state \<Rightarrow> bool" where
  "InExternC ns \<longleftrightarrow> stack ns \<noteq> [] \<and> kind (hd (stack ns)) = ExternC"

definition InClassDeclaration :: "nesting_state \<Rightarrow> bool" where
  "InClassDeclaration ns \<longleftrightarrow> stack ns \<noteq> [] \<and> is_class (hd (stack ns))"

definition InAsmBlock :: "nesting_state \<Rightarrow> bool" where
  "InAsmBlock ns \<longleftrightarrow> stack ns \<noteq> [] \<and> inline_asm (hd (stack ns)) \<noteq> NO_ASM"

definition InnermostClass :: "nesting_state \<Rightarrow> class_info option" where
  "InnermostClass ns =
     (case find is_class (stack ns) of
        None \<Rightarrow> None
      | Some b \<Rightarrow> (case kind b of ClassKind c \<Rightarrow> Some c | _ \<Rightarrow> None))"

definition on_top :: "('a \<Rightarrow> 'a) \<Rightarrow> 'a list \<Rightarrow> 'a list" where
  "on_top f xs = (case xs of [] \<Rightarrow> [] | x # xs \<Rightarrow> f x # xs)"

definition push :: "(nat \<Rightarrow> block) \<Rightarrow> nesting_state \<Rightarrow> nesting_state" where
  "push new ns = ns\<lparr>stack := new (next_ident ns) # stack ns, next_ident := next_ident ns + 1\<rparr>"

definition pop :: "nesting_state \<Rightarrow> nesting_state" where
  "pop ns = ns\<lparr>stack := tl (stack ns)\<rparr>"

section \<open>Preprocessor conditionals\<close>

fun deepcopy :: "nat \<Rightarrow> block list \<Rightarrow> block list" where
  "deepcopy n [] = []"
| "deepcopy n (b # bs) = b\<lparr>ident := n\<rparr> # deepcopy (n + 1) bs"

definition UpdatePreprocessor :: "string \<Rightarrow> nesting_state \<Rightarrow> nesting_state" where
  "UpdatePreprocessor line ns =
     (if matches re_pp_if line then
        ns\<lparr>pp_stack := \<lparr>stack_before_if = deepcopy (next_ident ns) (stack ns),
                         stack_before_else = [], seen_else = False\<rparr> # pp_stack ns,
           next_ident := next_ident ns + length (stack ns)\<rparr>
      else if matches re_pp_else line then
        (case pp_stack ns of
           [] \<Rightarrow> ns
         | p # ps \<Rightarrow>
             let (p, n) =
               (if \<not> seen_else p
                then (p\<lparr>seen_else := True,
                        stack_before_else := deepcopy (next_ident ns) (stack ns)\<rparr>,
                      next_ident ns + length (stack ns))
                else (p, next_ident ns))
             in ns\<lparr>pp_stack := p # ps, stack := deepcopy n (stack_before_if p),
                   next_ident := n + length (stack_before_if p)\<rparr>)
      else if matches re_pp_endif line then
        (case pp_stack ns of
           [] \<Rightarrow> ns
         | p # ps \<Rightarrow>
             ns\<lparr>stack := (if seen_else p then stack_before_else p else stack ns), pp_stack := ps\<rparr>)
      else ns)"

section \<open>Template argument lists\<close>

lemma end_found_after: "FindEndOfExpressionInLine line i st = Found p \<Longrightarrow> i < p \<and> p \<le> length line"
proof (induction "length line - i" arbitrary: i st)
  case 0
  then show ?case by (simp add: FindEndOfExpressionInLine.simps [of line i st])
next
  case (Suc k)
  then have i: "i < length line" by simp
  have ih: "FindEndOfExpressionInLine line (i + 1) st' = Found p \<Longrightarrow> i < p \<and> p \<le> length line" for st'
  proof -
    have "k = length line - (i + 1)" using Suc.hyps(2) by simp
    then show "FindEndOfExpressionInLine line (i + 1) st' = Found p \<Longrightarrow> i < p \<and> p \<le> length line"
      using Suc.hyps(1) [of "i + 1" st'] by linarith
  qed
  show ?case using Suc.prems i ih
    by (subst (asm) FindEndOfExpressionInLine.simps)
       (auto simp: Let_def split: if_split_asm list.split_asm)
qed

lemma close_lines_after:
  "close_lines cl l line s = (line', l', Some p) \<Longrightarrow> l < NumLines cl \<Longrightarrow>
     l < l' \<and> l' < NumLines cl \<or> l' = l \<and> s = Found p \<and> line' = line"
proof (induction cl l line s rule: close_lines.induct)
  case (1 cl l line s)
  show ?case
  proof (cases s)
    case (Open st)
    show ?thesis
    proof (cases "st \<noteq> [] \<and> l + 1 < NumLines cl")
      case True
      with "1.prems" Open "1.IH" [OF Open True refl] show ?thesis
        by (auto simp: close_lines.simps [of cl l line "Open st"] Let_def)
    next
      case False
      with "1.prems" Open show ?thesis
        by (simp add: close_lines.simps [of cl l line "Open st"] split: if_split_asm)
    qed
  qed (use "1.prems" in \<open>simp_all add: close_lines.simps [of cl l line "Found _"]
         close_lines.simps [of cl l line Unclosed]\<close>)
qed

lemma CloseExpression_after:
  assumes "CloseExpression cl l p = (line', l', Some q)" and "l < NumLines cl"
  shows "l < l' \<and> l' < NumLines cl \<or> l' = l \<and> p < q \<and> q \<le> length (elided cl ! l)"
  using assms close_lines_after [of cl l "elided cl ! l" "FindEndOfExpressionInLine (elided cl ! l) p []"]
    end_found_after [of "elided cl ! l" p "[]" q]
  by (auto simp: CloseExpression_def Let_def split: if_split_asm)

lemma re_template_token_length:
  "re_match re_template_token s = Some m \<Longrightarrow> 0 < length (grp 0 m) \<and> length (grp 0 m) \<le> length s"
  using re_match_lang [of re_template_token s m] re_match_text [of re_template_token s m]
  by (auto simp: re_template_token_def)

function InTemplateArgumentList :: "cleansed \<Rightarrow> nat \<Rightarrow> nat \<Rightarrow> bool" where
  "InTemplateArgumentList cl linenum p =
     (if linenum < NumLines cl then
        let line = elided cl ! linenum
        in case re_match re_template_token (drop p line) of
             None \<Rightarrow> InTemplateArgumentList cl (linenum + 1) 0
           | Some m \<Rightarrow>
               let token = grp 1 m; q = p + length (grp 0 m)
               in if token = ''{'' \<or> token = ''}'' \<or> token = '';'' then False
                  else if token = ''>'' \<or> token = ''='' \<or> token = ''['' \<or> token = '']'' \<or> token = ''.''
                  then True
                  else if token \<noteq> ''<'' then
                    if length line \<le> q + 1 then InTemplateArgumentList cl (linenum + 1) 0
                    else InTemplateArgumentList cl linenum (q + 1)
                  else
                    case CloseExpression cl linenum (q - 1) of
                      (_, end_line, None) \<Rightarrow> False
                    | (_, end_line, Some end_pos) \<Rightarrow> InTemplateArgumentList cl end_line end_pos
      else False)"
  by pat_completeness auto
termination
proof (relation "measures [\<lambda>(cl, l, p). NumLines cl - l, \<lambda>(cl, l, p). length (elided cl ! l) - p]", goal_cases)
  case 1
  show ?case by simp
next
  case (4 cl l p line m token q)
  then show ?case by simp
next
  case (5 cl l p line m token q r rest end_line d end_pos)
  have m: "re_match re_template_token (drop p line) = Some m" using 5 by simp
  from CloseExpression_after [of cl l "q - 1" r end_line end_pos] 5
  have "l < end_line \<and> end_line < NumLines cl \<or>
      end_line = l \<and> q - 1 < end_pos \<and> end_pos \<le> length line" by simp
  moreover have "q = p + length (grp 0 m)" "0 < length (grp 0 m)"
    using 5 re_template_token_length [OF m] by blast+
  then have "p \<le> q - 1" by linarith
  ultimately show ?case using 5 by auto
qed auto

declare InTemplateArgumentList.simps [simp del]

section \<open>One line\<close>

text \<open>Parentheses and inline assembly on the innermost block.\<close>

definition asm_update :: "string \<Rightarrow> block \<Rightarrow> block" where
  "asm_update line b =
     (let depth_change = int (count_str ''('' line) - int (count_str '')'' line);
          b = b\<lparr>open_parentheses := open_parentheses b + depth_change\<rparr>
      in if inline_asm b = NO_ASM \<or> inline_asm b = END_ASM then
           b\<lparr>inline_asm :=
              (if depth_change \<noteq> 0 \<and> open_parentheses b = 1 \<and> matches re_asm line
               then INSIDE_ASM else NO_ASM)\<rparr>
         else if inline_asm b = INSIDE_ASM \<and> open_parentheses b = 0
         then b\<lparr>inline_asm := END_ASM\<rparr>
         else b)"

lemma re_namespace_decl_shorter:
  assumes "re_match re_namespace_decl line = Some m"
  shows "length (grp 2 m) < length line"
proof -
  have "re_match (seq ([Bol, many (Set [Spc]), Str ''namespace'', WordB, many (Set [Spc]),
      opt (Grp 1 (some (Set [C (CHR '':''), Wrd])))] @ [Grp 2 (many Dot), Eol])) line = Some m"
    using assms by (simp add: re_namespace_decl_def)
  moreover have "groups (many Dot) = {}" "2 \<noteq> (0 :: nat)" by simp_all
  ultimately obtain u rest where "line = u @ grp 2 m @ rest"
      "lang (seq [Bol, many (Set [Spc]), Str ''namespace'', WordB, many (Set [Spc]),
        opt (Grp 1 (some (Set [C (CHR '':''), Wrd])))]) u"
    using re_match_last_group by blast
  then show ?thesis by auto
qed

text \<open>The namespaces declared at the beginning of the line, and what is left of the line.\<close>

function consume_namespaces :: "nat \<Rightarrow> string \<Rightarrow> nesting_state \<Rightarrow> string \<times> nesting_state" where
  "consume_namespaces linenum line ns =
     (case re_match re_namespace_decl line of
        None \<Rightarrow> (line, ns)
      | Some m \<Rightarrow>
          let ns = push (\<lambda>n. NamespaceInfo n (group 1 m) linenum) ns;
              line = grp 2 m
          in case find_str ''{'' line of
               None \<Rightarrow> consume_namespaces linenum line ns
             | Some i \<Rightarrow> consume_namespaces linenum (drop (i + 1) line)
                 (ns\<lparr>stack := on_top (\<lambda>b. b\<lparr>seen_open_brace := True\<rparr>) (stack ns)\<rparr>))"
  by pat_completeness auto
termination
proof (relation "measure (\<lambda>(linenum, line, ns). length line)", goal_cases)
  case 1
  show ?case by simp
next
  case (2 linenum line ns m ns' line')
  then show ?case using re_namespace_decl_shorter [of line m] by simp
next
  case (3 linenum line ns m ns' line' i)
  then show ?case using re_namespace_decl_shorter [of line m] by simp
qed

declare consume_namespaces.simps [simp del]

text \<open>A class or struct declared in what is left of the line.\<close>

definition consume_class :: "cleansed \<Rightarrow> nat \<Rightarrow> string \<Rightarrow> nesting_state \<Rightarrow> string \<times> nesting_state" where
  "consume_class cl linenum line ns =
     (case re_match re_class_decl line of
        None \<Rightarrow> (line, ns)
      | Some m \<Rightarrow>
          if stack ns = [] \<or> open_parentheses (hd (stack ns)) = 0 then
            if \<not> InTemplateArgumentList cl linenum (length (grp 1 m))
            then (grp 4 m, push (\<lambda>n. ClassInfo n (grp 3 m) (grp 2 m) cl linenum) ns)
            else (line, ns)
          else (line, ns))"

text \<open>An access specifier, inside a class.\<close>

definition check_access :: "nat \<Rightarrow> string \<Rightarrow> nesting_state \<Rightarrow> diag list \<times> nesting_state" where
  "check_access linenum line ns =
     (case stack ns of
        [] \<Rightarrow> ([], ns)
      | b # bs \<Rightarrow>
        (case kind b of
           ClassKind c \<Rightarrow>
             (case re_match re_access line of
                None \<Rightarrow> ([], ns)
              | Some m \<Rightarrow>
                  let indent = grp 1 m;
                      slots = (case group 3 m of None \<Rightarrow> [] | Some s \<Rightarrow> s);
                      ds = (if length indent \<noteq> class_indent c + 1 \<and> matches re_blank indent
                            then [diag linenum ''whitespace/indent'' 3
                                    (grp 2 m @ slots @ '': should be indented +1 space inside ''
                                     @ parent_name c)]
                            else [])
                  in (ds, ns\<lparr>stack := b\<lparr>kind := ClassKind (c\<lparr>access := grp 2 m\<rparr>)\<rparr> # bs\<rparr>))
         | _ \<Rightarrow> ([], ns)))"

lemma re_block_token_shorter:
  assumes "re_match re_block_token line = Some m"
  shows "length (grp 2 m) < length line"
proof -
  have "re_match (seq ([Bol, many (NSet [C (CHR ''{''), C (CHR '';''), C (CHR '')''), C (CHR ''}'')]),
      Grp 1 (Set [C (CHR ''{''), C (CHR '';''), C (CHR '')''), C (CHR ''}'')])]
      @ [Grp 2 (many Dot), Eol])) line = Some m"
    using assms by (simp add: re_block_token_def)
  moreover have "groups (many Dot) = {}" "2 \<noteq> (0 :: nat)" by simp_all
  ultimately obtain u rest where "line = u @ grp 2 m @ rest"
      "lang (seq [Bol, many (NSet [C (CHR ''{''), C (CHR '';''), C (CHR '')''), C (CHR ''}'')]),
        Grp 1 (Set [C (CHR ''{''), C (CHR '';''), C (CHR '')''), C (CHR ''}'')])]) u"
    using re_match_last_group by blast
  then show ?thesis by auto
qed

text \<open>One brace, semicolon or closing parenthesis; \<open>line\<close> is the text it was found in.\<close>

definition block_token :: "cleansed \<Rightarrow> nat \<Rightarrow> string \<Rightarrow> string \<Rightarrow> nesting_state \<Rightarrow>
    diag list \<times> nesting_state" where
  "block_token cl linenum line token ns =
     (if token = ''{'' then
        if \<not> SeenOpenBrace ns then
          ([], ns\<lparr>stack := on_top (\<lambda>b. b\<lparr>seen_open_brace := True\<rparr>) (stack ns)\<rparr>)
        else if matches re_extern_c line then ([], push ExternCInfo ns)
        else ([], push (\<lambda>n. (BlockInfo n True)
                     \<lparr>inline_asm := (if matches re_asm line then BLOCK_ASM else NO_ASM)\<rparr>) ns)
      else if token = '';'' \<or> token = '')'' then
        if \<not> SeenOpenBrace ns then ([], pop ns) else ([], ns)
      else
        if stack ns \<noteq> [] then (CheckEnd cl linenum (hd (stack ns)), pop ns) else ([], ns))"

function consume_tokens :: "cleansed \<Rightarrow> nat \<Rightarrow> string \<Rightarrow> nesting_state \<Rightarrow> diag list \<times> nesting_state" where
  "consume_tokens cl linenum line ns =
     (case re_match re_block_token line of
        None \<Rightarrow> ([], ns)
      | Some m \<Rightarrow>
          let (ds, ns) = block_token cl linenum line (grp 1 m) ns;
              (ds', ns) = consume_tokens cl linenum (grp 2 m) ns
          in (ds @ ds', ns))"
  by pat_completeness auto
termination
  by (relation "measure (\<lambda>(cl, linenum, line, ns). length line)") (simp_all add: re_block_token_shorter)

declare consume_tokens.simps [simp del]

definition Update :: "cleansed \<Rightarrow> nat \<Rightarrow> nesting_state \<Rightarrow> diag list \<times> nesting_state" where
  "Update cl linenum ns =
     (let line = elided cl ! linenum;
          ns = ns\<lparr>previous_stack_top := (case stack ns of [] \<Rightarrow> None | b # _ \<Rightarrow> Some b)\<rparr>;
          ns = UpdatePreprocessor line ns;
          ns = ns\<lparr>stack := on_top (asm_update line) (stack ns)\<rparr>;
          (line, ns) = consume_namespaces linenum line ns;
          (line, ns) = consume_class cl linenum line ns;
          ns = (if \<not> SeenOpenBrace ns
                then ns\<lparr>stack := on_top (CheckBegin cl linenum) (stack ns)\<rparr> else ns);
          (ds, ns) = check_access linenum line ns;
          (ds', ns) = consume_tokens cl linenum line ns
      in (ds @ ds', ns))"

definition CheckCompletedBlocks :: "nesting_state \<Rightarrow> diag list" where
  "CheckCompletedBlocks ns =
     concat (map (\<lambda>b.
       case kind b of
         ClassKind c \<Rightarrow>
           [diag (class_starting_linenum c) ''build/class'' 5
              (''Failed to find complete declaration of class '' @ class_name c)]
       | NamespaceKind n \<Rightarrow>
           [diag (namespace_starting_linenum n) ''build/namespaces'' 5
              (''Failed to find complete declaration of namespace '' @ namespace_name n)]
       | _ \<Rightarrow> []) (rev (stack ns)))"

end
