(* ===== verification/Lint_Blocks.thy ===== *)
theory Lint_Blocks
  imports Lint_Nesting
begin

text \<open>
  What \<^verbatim>\<open>NestingState\<close> keeps. No block is referred to twice, so that an assignment to the
  innermost block changes no stack that is saved for later; a conditional of the preprocessor starts its branches with the same blocks and
  goes on with those of the first branch; the blocks opened on a line are closed by the
  matching braces of the line; and the blocks complained about at the end of the file are
  those still open.
\<close>

section \<open>No sharing\<close>

text \<open>
  The blocks a state refers to: those of its stack and those saved at each open conditional.
\<close>

definition saved_blocks :: "nesting_state \<Rightarrow> block list" where
  "saved_blocks ns = concat (map (\<lambda>p. stack_before_if p @ stack_before_else p) (pp_stack ns))"

definition all_blocks :: "nesting_state \<Rightarrow> block list" where
  "all_blocks ns = stack ns @ saved_blocks ns"

definition good_stack :: "nat \<Rightarrow> block list \<Rightarrow> bool" where
  "good_stack n bs \<longleftrightarrow> distinct (map ident bs) \<and> (\<forall>b \<in> set bs. ident b < n)"

definition fresh :: "nesting_state \<Rightarrow> bool" where
  "fresh ns \<longleftrightarrow> good_stack (next_ident ns) (all_blocks ns)"

text \<open>
  An assignment to an attribute of an object, as the program sees it: it shows wherever the
  object is referred to. All of \<^verbatim>\<open>Update\<close>'s assignments are to the top of the stack.
\<close>

definition assign_to :: "nat \<Rightarrow> (block \<Rightarrow> block) \<Rightarrow> block \<Rightarrow> block" where
  "assign_to i f b = (if ident b = i then f b else b)"

definition assign :: "nat \<Rightarrow> (block \<Rightarrow> block) \<Rightarrow> nesting_state \<Rightarrow> nesting_state" where
  "assign i f ns = ns\<lparr>stack := map (assign_to i f) (stack ns),
     pp_stack := map (\<lambda>p. p\<lparr>stack_before_if := map (assign_to i f) (stack_before_if p),
                            stack_before_else := map (assign_to i f) (stack_before_else p)\<rparr>) (pp_stack ns)\<rparr>"

lemma assign_to_others: "i \<notin> ident ` set bs \<Longrightarrow> map (assign_to i f) bs = bs"
  by (intro map_idI) (auto simp: assign_to_def)

lemma assign_top:
  assumes "distinct (map ident (all_blocks ns))"
  shows "stack ns \<noteq> [] \<longrightarrow> assign (ident (hd (stack ns))) f ns = ns\<lparr>stack := on_top f (stack ns)\<rparr>"
proof (cases "stack ns")
  case (Cons b bs)
  have notin: "ident b \<notin> ident ` set (bs @ saved_blocks ns)"
    using assms Cons by (auto simp: all_blocks_def)
  have "map (\<lambda>p. p\<lparr>stack_before_if := map (assign_to (ident b) f) (stack_before_if p),
      stack_before_else := map (assign_to (ident b) f) (stack_before_else p)\<rparr>) (pp_stack ns) = pp_stack ns"
  proof (rule map_idI)
    fix p assume p: "p \<in> set (pp_stack ns)"
    then have "ident b \<notin> ident ` set (stack_before_if p)" "ident b \<notin> ident ` set (stack_before_else p)"
      using notin by (auto simp: saved_blocks_def)
    then show "p\<lparr>stack_before_if := map (assign_to (ident b) f) (stack_before_if p),
        stack_before_else := map (assign_to (ident b) f) (stack_before_else p)\<rparr> = p"
      by (simp add: assign_to_others)
  qed
  moreover have "map (assign_to (ident b) f) bs = bs" using notin by (intro assign_to_others) auto
  ultimately show ?thesis using Cons by (simp add: assign_def on_top_def assign_to_def)
qed simp

lemma good_stack_Nil [simp]: "good_stack n []"
  by (simp add: good_stack_def)

lemma good_stack_mono: "good_stack m bs \<Longrightarrow> m \<le> n \<Longrightarrow> good_stack n bs"
  by (auto simp: good_stack_def intro: less_le_trans)

lemma deepcopy_idents: "map ident (deepcopy n bs) = [n..<n + length bs]"
proof (induction bs arbitrary: n)
  case (Cons b bs)
  have "[n..<n + length (b # bs)] = n # [Suc n..<Suc n + length bs]" by (simp add: upt_rec)
  with Cons [of "Suc n"] show ?case by simp
qed simp

lemma good_stack_deepcopy:
  assumes "good_stack n bs"
  shows "good_stack (n + length cs) (deepcopy n cs @ bs)"
proof -
  have "ident b \<in> set (map ident (deepcopy n cs))" if "b \<in> set (deepcopy n cs)" for b
    using that by simp
  then have "n \<le> ident b \<and> ident b < n + length cs" if "b \<in> set (deepcopy n cs)" for b
    using that unfolding deepcopy_idents by auto
  with assms show ?thesis
    unfolding good_stack_def by (force simp: deepcopy_idents)
qed

lemma good_stack_rotate: "good_stack n (as @ bs @ cs) \<Longrightarrow> good_stack n (bs @ as @ cs)"
  by (auto simp: good_stack_def)

lemma good_stack_drop: "good_stack n (as @ bs) \<Longrightarrow> good_stack n bs"
  by (simp add: good_stack_def)

lemma good_stack_Cons: "good_stack n bs \<Longrightarrow> ident b = n \<Longrightarrow> good_stack (Suc n) (b # bs)"
  by (auto simp: good_stack_def intro: less_SucI)

lemma fresh_fields [simp]:
  "fresh (ns\<lparr>previous_stack_top := b\<rparr>) = fresh ns"
  by (simp add: fresh_def all_blocks_def saved_blocks_def)

lemma fresh_pop: "fresh ns \<Longrightarrow> fresh (pop ns)"
  by (cases "stack ns") (auto simp: pop_def fresh_def good_stack_def all_blocks_def saved_blocks_def)

lemma fresh_on_top:
  "(\<And>b. ident (f b) = ident b) \<Longrightarrow> fresh ns \<Longrightarrow> fresh (ns\<lparr>stack := on_top f (stack ns)\<rparr>)"
  by (cases "stack ns") (auto simp: fresh_def good_stack_def all_blocks_def saved_blocks_def on_top_def)

lemma fresh_push:
  assumes "fresh ns" and "ident (new (next_ident ns)) = next_ident ns"
  shows "fresh (push new ns)"
  using assms good_stack_Cons [of "next_ident ns" "all_blocks ns" "new (next_ident ns)"]
  by (simp add: push_def fresh_def all_blocks_def saved_blocks_def)

lemma ident_new [simp]:
  "ident (BlockInfo n s) = n" "ident (ExternCInfo n) = n" "ident (ClassInfo n a b cl l) = n"
  "ident (NamespaceInfo n a' l) = n"
  by (simp_all add: BlockInfo_def ExternCInfo_def ClassInfo_def NamespaceInfo_def)

lemma ident_asm_update [simp]: "ident (asm_update line b) = ident b"
  by (simp add: asm_update_def Let_def)

lemma ident_CheckBegin [simp]: "ident (CheckBegin cl l b) = ident b"
  by (simp add: CheckBegin_def split: block_kind.split)

text \<open>What \<^verbatim>\<open>copy.deepcopy\<close> is for: the saved stacks have no block in common with the current one.\<close>

lemma fresh_UpdatePreprocessor:
  assumes "fresh ns"
  shows "fresh (UpdatePreprocessor line ns)"
proof -
  let ?n = "next_ident ns"
  have good: "good_stack ?n (stack ns @ saved_blocks ns)" using assms by (simp add: fresh_def all_blocks_def)
  have opens: "good_stack (?n + length (stack ns)) (stack ns @ deepcopy ?n (stack ns) @ saved_blocks ns)"
    using good_stack_rotate [OF good_stack_deepcopy [OF good]] .
  show ?thesis
  proof (cases "pp_stack ns")
    case Nil
    with opens assms show ?thesis
      by (auto simp: UpdatePreprocessor_def fresh_def all_blocks_def saved_blocks_def)
  next
    case (Cons p ps)
    define saved where "saved = concat (map (\<lambda>p. stack_before_if p @ stack_before_else p) ps)"
    have saved: "saved_blocks ns = stack_before_if p @ stack_before_else p @ saved"
      using Cons by (simp add: saved_blocks_def saved_def)
    have old: "good_stack ?n (stack_before_if p @ stack_before_else p @ saved)"
      using good_stack_drop [OF good] saved by simp
    have endif: "good_stack ?n (stack ns @ saved)" "good_stack ?n (stack_before_else p @ saved)"
      using good saved good_stack_drop [OF old] by (auto simp: good_stack_def)
    have "good_stack ?n (stack_before_if p @ saved)"
      using good_stack_drop [OF good_stack_rotate [OF old]] .
    from good_stack_deepcopy [OF good_stack_rotate [OF good_stack_deepcopy [OF this]]]
    have first: "good_stack (?n + length (stack ns) + length (stack_before_if p))
        (deepcopy (?n + length (stack ns)) (stack_before_if p) @
         stack_before_if p @ deepcopy ?n (stack ns) @ saved)" .
    have again: "good_stack (?n + length (stack_before_if p))
        (deepcopy ?n (stack_before_if p) @ stack_before_if p @ stack_before_else p @ saved)"
      using good_stack_deepcopy [OF old] .
    show ?thesis
      using assms opens endif first again Cons saved
      by (simp add: UpdatePreprocessor_def fresh_def all_blocks_def saved_blocks_def saved_def [symmetric])
  qed
qed

lemma fresh_consume_namespaces: "fresh ns \<Longrightarrow> fresh (snd (consume_namespaces l line ns))"
proof (induction l line ns rule: consume_namespaces.induct)
  case (1 l line ns)
  have new: "fresh (push (\<lambda>n. NamespaceInfo n a l) ns)" for a
    using "1.prems" by (simp add: fresh_push)
  have seen: "fresh (push new ns\<lparr>stack := on_top (\<lambda>b. b\<lparr>seen_open_brace := True\<rparr>) (stack (push new ns))\<rparr>)"
    if "fresh (push new ns)" for new
    using that by (intro fresh_on_top) simp_all
  show ?case
    using "1.prems" "1.IH" new seen
    by (subst consume_namespaces.simps) (auto simp: Let_def split: option.split)
qed

lemma fresh_consume_class: "fresh ns \<Longrightarrow> fresh (snd (consume_class cl l line ns))"
  by (auto simp: consume_class_def fresh_push split: option.split)

lemma fresh_check_access:
  assumes "fresh ns" shows "fresh (snd (check_access l line ns))"
proof (cases "stack ns")
  case (Cons b bs)
  have "fresh (ns\<lparr>stack := b\<lparr>kind := k\<rparr> # bs\<rparr>)" for k
    using assms Cons by (simp add: fresh_def good_stack_def all_blocks_def saved_blocks_def)
  with assms Cons show ?thesis
    by (simp add: check_access_def Let_def split: block_kind.split option.split)
qed (use assms in \<open>simp add: check_access_def\<close>)

lemma fresh_block_token: "fresh ns \<Longrightarrow> fresh (snd (block_token cl l line token ns))"
  using fresh_on_top [of "\<lambda>b. b\<lparr>seen_open_brace := True\<rparr>" ns]
  by (auto simp: block_token_def fresh_push fresh_pop)

lemma fresh_consume_tokens: "fresh ns \<Longrightarrow> fresh (snd (consume_tokens cl l line ns))"
proof (induction cl l line ns rule: consume_tokens.induct)
  case (1 cl l line ns)
  show ?case
  proof (cases "re_match re_block_token line")
    case None
    with "1.prems" show ?thesis by (simp add: consume_tokens.simps [of cl l line ns])
  next
    case (Some m)
    obtain ds ns1 where t: "block_token cl l line (grp 1 m) ns = (ds, ns1)" by fastforce
    then have "fresh ns1" using fresh_block_token [OF "1.prems"] by (metis snd_conv)
    with "1.IH" [OF Some t [symmetric] refl] t Some show ?thesis
      by (cases "consume_tokens cl l (grp 2 m) ns1") (simp add: consume_tokens.simps [of cl l line ns])
  qed
qed

lemma Update_fresh: "fresh ns \<Longrightarrow> fresh (snd (Update cl l ns))"
proof -
  assume ns: "fresh ns"
  define line where "line = elided cl ! l"
  define ns1 where "ns1 = UpdatePreprocessor line
    (ns\<lparr>previous_stack_top := (case stack ns of [] \<Rightarrow> None | b # _ \<Rightarrow> Some b)\<rparr>)"
  define ns2 where "ns2 = ns1\<lparr>stack := on_top (asm_update line) (stack ns1)\<rparr>"
  obtain line3 ns3 where 3: "consume_namespaces l line ns2 = (line3, ns3)" by fastforce
  obtain line4 ns4 where 4: "consume_class cl l line3 ns3 = (line4, ns4)" by fastforce
  define ns5 where "ns5 = (if \<not> SeenOpenBrace ns4
    then ns4\<lparr>stack := on_top (CheckBegin cl l) (stack ns4)\<rparr> else ns4)"
  obtain d6 ns6 where 6: "check_access l line4 ns5 = (d6, ns6)" by fastforce
  obtain d7 ns7 where 7: "consume_tokens cl l line4 ns6 = (d7, ns7)" by fastforce
  have "fresh ns1" unfolding ns1_def using ns by (intro fresh_UpdatePreprocessor) simp
  then have "fresh ns2" unfolding ns2_def by (intro fresh_on_top) simp_all
  then have "fresh ns3" using fresh_consume_namespaces 3 by (metis snd_conv)
  then have "fresh ns4" using fresh_consume_class 4 by (metis snd_conv)
  then have "fresh ns5" unfolding ns5_def by (auto intro: fresh_on_top)
  then have "fresh ns6" using fresh_check_access 6 by (metis snd_conv)
  then have "fresh ns7" using fresh_consume_tokens 7 by (metis snd_conv)
  moreover have "Update cl l ns = (d6 @ d7, ns7)"
    using 3 4 6 7 by (simp add: Update_def Let_def line_def ns1_def ns2_def ns5_def)
  ultimately show ?thesis by simp
qed

section \<open>Conditionals of the preprocessor\<close>

definition anonymous :: "block list \<Rightarrow> block list" where
  "anonymous bs = map (\<lambda>b. b\<lparr>ident := 0\<rparr>) bs"

lemma anonymous_deepcopy [simp]: "anonymous (deepcopy n bs) = anonymous bs"
  by (induction bs arbitrary: n) (simp_all add: anonymous_def)

text \<open>
  From \<^verbatim>\<open>#if\<close> through any number of lines that leave the conditionals as they were, to the
  first \<^verbatim>\<open>#else\<close> or \<^verbatim>\<open>#elif\<close>: the blocks are those of the \<^verbatim>\<open>#if\<close> again. At the \<^verbatim>\<open>#endif\<close> they
  are those the first branch ended with.
\<close>

lemma pp_if:
  assumes "matches re_pp_if line"
  shows "stack (UpdatePreprocessor line ns) = stack ns \<and>
    (\<exists>p. pp_stack (UpdatePreprocessor line ns) = p # pp_stack ns \<and>
       anonymous (stack_before_if p) = anonymous (stack ns) \<and> \<not> seen_else p)"
  using assms by (simp add: UpdatePreprocessor_def)

lemma pp_else:
  assumes line: "matches re_pp_else line" "\<not> matches re_pp_if line" and p: "pp_stack ns = p # ps"
  shows "anonymous (stack (UpdatePreprocessor line ns)) = anonymous (stack_before_if p) \<and>
    (\<exists>p'. pp_stack (UpdatePreprocessor line ns) = p' # ps \<and> seen_else p' \<and>
       stack_before_if p' = stack_before_if p \<and>
       anonymous (stack_before_else p') =
         anonymous (if seen_else p then stack_before_else p else stack ns))"
  using assms by (simp add: UpdatePreprocessor_def Let_def)

lemma pp_endif:
  assumes "matches re_pp_endif line" "\<not> matches re_pp_else line" "\<not> matches re_pp_if line"
    and "pp_stack ns = p # ps"
  shows "stack (UpdatePreprocessor line ns) = (if seen_else p then stack_before_else p else stack ns)
    \<and> pp_stack (UpdatePreprocessor line ns) = ps"
  using assms by (simp add: UpdatePreprocessor_def)

text \<open>Only the lines of the preprocessor change the open conditionals.\<close>

lemma pp_stack_simps [simp]:
  "pp_stack (push new ns) = pp_stack ns" "pp_stack (pop ns) = pp_stack ns"
  by (simp_all add: push_def pop_def)

lemma pp_consume_namespaces: "pp_stack (snd (consume_namespaces l line ns)) = pp_stack ns"
  by (induction l line ns rule: consume_namespaces.induct)
     (subst consume_namespaces.simps, simp add: Let_def split: option.split)

lemma pp_consume_class: "pp_stack (snd (consume_class cl l line ns)) = pp_stack ns"
  by (simp add: consume_class_def split: option.split)

lemma pp_check_access: "pp_stack (snd (check_access l line ns)) = pp_stack ns"
  by (simp add: check_access_def Let_def split: list.split block_kind.split option.split)

lemma pp_block_token: "pp_stack (snd (block_token cl l line token ns)) = pp_stack ns"
  by (simp add: block_token_def)

lemma pp_consume_tokens: "pp_stack (snd (consume_tokens cl l line ns)) = pp_stack ns"
proof (induction cl l line ns rule: consume_tokens.induct)
  case (1 cl l line ns)
  show ?case
  proof (cases "re_match re_block_token line")
    case None
    then show ?thesis by (simp add: consume_tokens.simps [of cl l line ns])
  next
    case (Some m)
    obtain ds ns1 where t: "block_token cl l line (grp 1 m) ns = (ds, ns1)" by fastforce
    then have "pp_stack ns1 = pp_stack ns" using pp_block_token by (metis snd_conv)
    with "1.IH" [OF Some t [symmetric] refl] t Some show ?thesis
      by (cases "consume_tokens cl l (grp 2 m) ns1") (simp add: consume_tokens.simps [of cl l line ns])
  qed
qed

lemma pp_UpdatePreprocessor_top:
  "pp_stack (UpdatePreprocessor line (ns\<lparr>previous_stack_top := b\<rparr>)) = pp_stack (UpdatePreprocessor line ns)"
  by (simp add: UpdatePreprocessor_def Let_def split: list.split)

lemma Update_pp_stack:
  "pp_stack (snd (Update cl l ns)) = pp_stack (UpdatePreprocessor (elided cl ! l) ns)"
  by (simp add: Update_def Let_def split_beta pp_consume_tokens pp_check_access pp_consume_class
      pp_consume_namespaces pp_UpdatePreprocessor_top)

section \<open>Braces\<close>

text \<open>The first brace, semicolon or closing parenthesis of a line.\<close>

definition is_token :: "char \<Rightarrow> bool" where
  "is_token c \<longleftrightarrow> c \<in> {CHR ''{'', CHR '';'', CHR '')'', CHR ''}''}"

lemma token_classes:
  "class_of (NSet [C (CHR ''{''), C (CHR '';''), C (CHR '')''), C (CHR ''}'')]) = Some (\<lambda>c. \<not> is_token c)"
  "class_of (Set [C (CHR ''{''), C (CHR '';''), C (CHR '')''), C (CHR ''}'')]) = Some is_token"
  by (auto simp: is_token_def fun_eq_iff)

lemma block_token_none:
  assumes "\<forall>c \<in> set line. \<not> is_token c"
  shows "re_match re_block_token line = None"
proof (rule ccontr)
  assume "re_match re_block_token line \<noteq> None"
  then obtain m where "re_match re_block_token line = Some m" by blast
  then have "lang re_block_token (grp 0 m)" "\<exists>t. line = grp 0 m @ t"
    using re_match_lang re_match_text by blast+
  then obtain u c v t where "line = u @ [c] @ v @ t" "is_token c"
    by (auto simp: re_block_token_def is_token_def)
  with assms show False by simp
qed

lemma block_token_some:
  assumes h: "\<forall>c \<in> set h. \<not> is_token c" and q: "is_token q" and t: "CHR 0x0A \<notin> set t"
  shows "\<exists>m. re_match re_block_token (h @ q # t) = Some m \<and> grp 1 m = [q] \<and> grp 2 m = t"
proof -
  define st where "st = Cursor 0 None (h @ q # t) []"
  define a where "a = NSet [C (CHR ''{''), C (CHR '';''), C (CHR '')''), C (CHR ''}'')]"
  define b where "b = Set [C (CHR ''{''), C (CHR '';''), C (CHR '')''), C (CHR ''}'')]"
  note classes = token_classes [folded a_def b_def]
  define st1 where "st1 = after st h"
  define st2 where "st2 = Cursor (Suc (length h)) (Some q) t [(1, length h, [q])]"
  define st3 where "st3 = Cursor (Suc (length h) + length t) (before (after st2 t)) []
    [(2, Suc (length h), t), (1, length h, [q])]"
  have 1: "first (many a) st st1" unfolding st1_def
    by (rule first_many [OF classes(1), where t = "q # t"]) (use h q in \<open>auto simp: st_def\<close>)
  have "first b st1 (after st1 [q])"
    by (rule first_class [OF classes(2), where t = t]) (use q in \<open>auto simp: st1_def st_def\<close>)
  from first_Grp [OF this, of 1] have 2: "first (Grp 1 b) st1 st2"
    by (simp add: st1_def st2_def after_def st_def)
  have "first (many Dot) st2 (after st2 t)"
    by (rule first_many [where t = "[]"]) (use t in \<open>auto simp: st2_def\<close>)
  from first_Grp [OF this, of 2] have 3: "first (Grp 2 (many Dot)) st2 st3"
    by (simp add: st3_def) (simp add: st2_def)
  have "first re_block_token st st3"
    unfolding re_block_token_def seq.simps a_def [symmetric] b_def [symmetric]
    by (intro first_Cat [OF _ first_Cat [OF 1 first_Cat [OF 2 first_Cat [OF 3]]]])
       (simp_all add: first_def st_def st3_def)
  from first_match [OF this [unfolded st_def]] show ?thesis
    by (auto simp: st3_def grp_def group_def)
qed

text \<open>
  How many braces are open behind a text, from \<open>d\<close> open before it, as long as it closes no
  more than that.
\<close>

fun brace_depth :: "nat \<Rightarrow> string \<Rightarrow> nat option" where
  "brace_depth d [] = Some d"
| "brace_depth d (c # cs) =
     (if c = CHR ''{'' then brace_depth (Suc d) cs
      else if c = CHR ''}'' then (if d = 0 then None else brace_depth (d - 1) cs)
      else brace_depth d cs)"

lemma brace_depth_skip: "\<forall>c \<in> set h. \<not> is_token c \<Longrightarrow> brace_depth d (h @ t) = brace_depth d t"
  by (induction h) (auto simp: is_token_def)

text \<open>The blocks an opening brace pushes when it belongs to no declaration.\<close>

definition own_block :: "block \<Rightarrow> bool" where
  "own_block b \<longleftrightarrow> seen_open_brace b \<and> (kind b = Plain \<or> kind b = ExternC)"

lemma own_block_CheckEnd: "own_block b \<Longrightarrow> CheckEnd cl l b = []"
  by (auto simp: own_block_def CheckEnd_def)

lemma open_token:
  assumes "SeenOpenBrace ns"
  shows "\<exists>b ns'. block_token cl l line ''{'' ns = ([], ns') \<and> stack ns' = b # stack ns \<and> own_block b"
  using assms
  by (auto simp: block_token_def push_def own_block_def ExternCInfo_def BlockInfo_def)

lemma consume_step:
  assumes "\<forall>c \<in> set h. \<not> is_token c" "is_token q" "CHR 0x0A \<notin> set t"
  shows "consume_tokens cl l (h @ q # t) ns =
    (case block_token cl l (h @ q # t) [q] ns of (ds, ns1) \<Rightarrow>
       case consume_tokens cl l t ns1 of (ds', ns2) \<Rightarrow> (ds @ ds', ns2))"
proof -
  obtain m where "re_match re_block_token (h @ q # t) = Some m" "grp 1 m = [q]" "grp 2 m = t"
    using block_token_some [OF assms] by blast
  then show ?thesis
    by (subst consume_tokens.simps) (simp add: split_beta)
qed

lemma consume_balanced:
  "brace_depth (length bs) line = Some e \<Longrightarrow> CHR 0x0A \<notin> set line \<Longrightarrow> \<forall>b \<in> set bs. own_block b \<Longrightarrow>
     stk = [] \<or> seen_open_brace (hd stk) \<Longrightarrow> stack ns = bs @ stk \<Longrightarrow>
     \<exists>bs' ns'. consume_tokens cl l line ns = ([], ns') \<and> stack ns' = bs' @ stk \<and>
       length bs' = e \<and> (\<forall>b \<in> set bs'. own_block b)"
proof (induction "length line" arbitrary: line bs ns rule: less_induct)
  case less
  show ?case
  proof (cases "\<exists>c \<in> set line. is_token c")
    case False
    then have "consume_tokens cl l line ns = ([], ns)"
      by (simp add: consume_tokens.simps [of cl l line ns] block_token_none)
    moreover have "e = length bs" using less.prems(1) False brace_depth_skip [of line _ "[]"] by simp
    ultimately show ?thesis using less.prems by blast
  next
    case True
    then obtain h q t where line: "line = h @ q # t" "\<forall>c \<in> set h. \<not> is_token c" "is_token q"
      using split_list_first_prop [of line is_token] by blast
    have t: "CHR 0x0A \<notin> set t" "length t < length line" using less.prems(2) line(1) by simp_all
    note step = consume_step [OF line(2,3) t(1), of cl l ns, folded line(1)]
    have depth: "brace_depth (length bs) (q # t) = Some e"
      using less.prems(1) line brace_depth_skip [OF line(2)] by simp
    have seen: "SeenOpenBrace ns"
      using less.prems(3-5) by (cases bs) (auto simp: SeenOpenBrace_def own_block_def)
    have "\<exists>bs1 ns1. block_token cl l line [q] ns = ([], ns1) \<and> stack ns1 = bs1 @ stk \<and>
        (\<forall>b \<in> set bs1. own_block b) \<and> brace_depth (length bs1) t = Some e"
    proof -
      consider (opens) "q = CHR ''{''" | (closes) "q = CHR ''}''" | (other) "q = CHR '';'' \<or> q = CHR '')''"
        using line(3) by (auto simp: is_token_def)
      then show ?thesis
      proof cases
        case opens
        with open_token [OF seen, of cl l line] obtain b ns1 where
          "block_token cl l line [q] ns = ([], ns1)" "stack ns1 = (b # bs) @ stk" "own_block b"
          using less.prems(5) by auto
        moreover have "brace_depth (length (b # bs)) t = Some e" using depth opens by simp
        ultimately show ?thesis using less.prems(3) by fastforce
      next
        case closes
        with depth obtain b bs1 where bs: "bs = b # bs1" by (cases bs) auto
        with closes less.prems(3,5) depth show ?thesis
          by (auto simp: block_token_def pop_def own_block_CheckEnd)
      next
        case other
        with seen depth less.prems(3,5) show ?thesis by (auto simp: block_token_def)
      qed
    qed
    then obtain bs1 ns1 where 1: "block_token cl l line [q] ns = ([], ns1)" "stack ns1 = bs1 @ stk"
        "\<forall>b \<in> set bs1. own_block b" "brace_depth (length bs1) t = Some e" by blast
    from less.hyps [OF t(2) 1(4) t(1) 1(3) less.prems(4) 1(2)] obtain bs' ns' where
      "consume_tokens cl l t ns1 = ([], ns')" "stack ns' = bs' @ stk" "length bs' = e"
      "\<forall>b \<in> set bs'. own_block b" by blast
    with step 1(1) show ?thesis by simp
  qed
qed

section \<open>The end of the file\<close>

definition declares :: "block \<Rightarrow> bool" where
  "declares b \<longleftrightarrow> is_class b \<or> is_namespace b"

lemma CheckCompletedBlocks_length:
  "length (CheckCompletedBlocks ns) = length (filter declares (stack ns))"
proof -
  define f where "f b = (case kind b of
         ClassKind c \<Rightarrow>
           [diag (class_starting_linenum c) ''build/class'' 5
              (''Failed to find complete declaration of class '' @ class_name c)]
       | NamespaceKind n \<Rightarrow>
           [diag (namespace_starting_linenum n) ''build/namespaces'' 5
              (''Failed to find complete declaration of namespace '' @ namespace_name n)]
       | _ \<Rightarrow> [])" for b :: block
  have f: "length (f b) = (if declares b then 1 else 0)" for b
    by (simp add: f_def declares_def is_class_def is_namespace_def split: block_kind.split)
  have "length (concat (map f bs)) = length (filter declares bs)" for bs
    by (induction bs) (simp_all add: f)
  from this [of "rev (stack ns)"] show ?thesis
    by (simp add: CheckCompletedBlocks_def f_def [abs_def] rev_filter [symmetric])
qed

end
