(* ===== verification/Lint_Include.thy ===== *)
theory Lint_Include
  imports Lint_File
begin

text \<open>
  The order of \<^verbatim>\<open>#include\<close> lines: \<^verbatim>\<open>_IncludeState\<close>, the classification of headers and
  \<^verbatim>\<open>CheckIncludeLine\<close> of \<^verbatim>\<open>tools/cpplint.py\<close>, and what it knows about files of one module.
\<close>

section \<open>Header types and sections\<close>

definition CPP_HEADERS :: "string list" where
  "CPP_HEADERS =
    [''algobase.h'', ''algo.h'', ''alloc.h'', ''builtinbuf.h'', ''bvector.h'',
     ''complex.h'', ''defalloc.h'', ''deque.h'', ''editbuf.h'', ''fstream.h'',
     ''function.h'', ''hash_map'', ''hash_map.h'', ''hash_set'', ''hash_set.h'',
     ''hashtable.h'', ''heap.h'', ''indstream.h'', ''iomanip.h'', ''iostream.h'',
     ''istream.h'', ''iterator.h'', ''list.h'', ''map.h'', ''multimap.h'', ''multiset.h'',
     ''ostream.h'', ''pair.h'', ''parsestream.h'', ''pfstream.h'', ''procbuf.h'',
     ''pthread_alloc'', ''pthread_alloc.h'', ''rope'', ''rope.h'', ''ropeimpl.h'',
     ''set.h'', ''slist'', ''slist.h'', ''stack.h'', ''stdiostream.h'', ''stl_alloc.h'',
     ''stl_relops.h'', ''streambuf.h'', ''stream.h'', ''strfile.h'', ''strstream.h'',
     ''tempbuf.h'', ''tree.h'', ''type_traits.h'', ''vector.h'', ''algorithm'', ''array'',
     ''atomic'', ''bitset'', ''chrono'', ''codecvt'', ''complex'', ''condition_variable'',
     ''deque'', ''exception'', ''forward_list'', ''fstream'', ''functional'', ''future'',
     ''initializer_list'', ''iomanip'', ''ios'', ''iosfwd'', ''iostream'', ''istream'',
     ''iterator'', ''limits'', ''list'', ''locale'', ''map'', ''memory'', ''mutex'',
     ''new'', ''numeric'', ''ostream'', ''queue'', ''random'', ''ratio'', ''regex'',
     ''set'', ''sstream'', ''stack'', ''stdexcept'', ''streambuf'', ''string'',
     ''strstream'', ''system_error'', ''thread'', ''tuple'', ''typeindex'', ''typeinfo'',
     ''type_traits'', ''unordered_map'', ''unordered_set'', ''utility'', ''valarray'',
     ''vector'', ''cassert'', ''ccomplex'', ''cctype'', ''cerrno'', ''cfenv'', ''cfloat'',
     ''cinttypes'', ''ciso646'', ''climits'', ''clocale'', ''cmath'', ''csetjmp'',
     ''csignal'', ''cstdalign'', ''cstdarg'', ''cstdbool'', ''cstddef'', ''cstdint'',
     ''cstdio'', ''cstdlib'', ''cstring'', ''ctgmath'', ''ctime'', ''cuchar'', ''cwchar'',
     ''cwctype'']"

datatype header_type =
  C_SYS_HEADER | CPP_SYS_HEADER | LIKELY_MY_HEADER | POSSIBLE_MY_HEADER | OTHER_HEADER

datatype include_section =
  INITIAL_SECTION | MY_H_SECTION | C_SECTION | CPP_SECTION | OTHER_H_SECTION

text \<open>The sections are the numbers 0 to 4 in the program, and compared as such.\<close>

fun section_number :: "include_section \<Rightarrow> nat" where
  "section_number INITIAL_SECTION = 0"
| "section_number MY_H_SECTION = 1"
| "section_number C_SECTION = 2"
| "section_number CPP_SECTION = 3"
| "section_number OTHER_H_SECTION = 4"

lemma section_number_inject [simp]: "section_number a = section_number b \<longleftrightarrow> a = b"
  by (cases a; cases b) simp_all

instantiation include_section :: linorder
begin

definition less_eq_include_section :: "include_section \<Rightarrow> include_section \<Rightarrow> bool" where
  "less_eq_include_section a b \<longleftrightarrow> section_number a \<le> section_number b"

definition less_include_section :: "include_section \<Rightarrow> include_section \<Rightarrow> bool" where
  "less_include_section a b \<longleftrightarrow> section_number a < section_number b"

instance
  by standard (auto simp: less_eq_include_section_def less_include_section_def)

end

fun TYPE_NAMES :: "header_type \<Rightarrow> string" where
  "TYPE_NAMES C_SYS_HEADER = ''C system header''"
| "TYPE_NAMES CPP_SYS_HEADER = ''C++ system header''"
| "TYPE_NAMES LIKELY_MY_HEADER = ''header this file implements''"
| "TYPE_NAMES POSSIBLE_MY_HEADER = ''header this file may implement''"
| "TYPE_NAMES OTHER_HEADER = ''other header''"

fun SECTION_NAMES :: "include_section \<Rightarrow> string" where
  "SECTION_NAMES INITIAL_SECTION = (''... nothing. (This can'' @ [CHR 0x27] @ ''t be an error.)'')"
| "SECTION_NAMES MY_H_SECTION = ''a header this file implements''"
| "SECTION_NAMES C_SECTION = ''C system header''"
| "SECTION_NAMES CPP_SECTION = ''C++ system header''"
| "SECTION_NAMES OTHER_H_SECTION = ''other header''"

section \<open>The state\<close>

text \<open>
  \<^verbatim>\<open>include_list\<close> is a list of lists of headers with the lines they are included on; the
  last list is the one that grows.
\<close>

record include_state =
  include_list :: "(string \<times> nat) list list"
  current_section :: include_section
  last_header :: string

definition ResetSection :: "string \<Rightarrow> include_state \<Rightarrow> include_state" where
  "ResetSection directive s =
     (let s = s\<lparr>current_section := INITIAL_SECTION, last_header := []\<rparr>
      in if directive \<in> {''if'', ''ifdef'', ''ifndef''}
         then s\<lparr>include_list := include_list s @ [[]]\<rparr>
         else if directive \<in> {''else'', ''elif''}
         then s\<lparr>include_list := butlast (include_list s) @ [[]]\<rparr>
         else s)"

definition IncludeState_init :: include_state where
  "IncludeState_init =
     ResetSection [] \<lparr>include_list = [[]], current_section = INITIAL_SECTION, last_header = []\<rparr>"

definition FindHeader :: "string \<Rightarrow> include_state \<Rightarrow> nat option" where
  "FindHeader header s = map_option snd (find (\<lambda>f. fst f = header) (concat (include_list s)))"

definition SetLastHeader :: "string \<Rightarrow> include_state \<Rightarrow> include_state" where
  "SetLastHeader header_path s = s\<lparr>last_header := header_path\<rparr>"

definition CanonicalizeAlphabeticalOrder :: "string \<Rightarrow> string" where
  "CanonicalizeAlphabeticalOrder header_path =
     lower (replace_str ''-'' ''_'' (replace_str ''-inl.h'' ''.h'' header_path))"

text \<open>The order of Python strings.\<close>

fun str_less :: "string \<Rightarrow> string \<Rightarrow> bool" where
  "str_less [] [] = False"
| "str_less [] (b # bs) = True"
| "str_less (a # as) [] = False"
| "str_less (a # as) (b # bs) = (code a < code b \<or> (a = b \<and> str_less as bs))"

definition IsInAlphabeticalOrder :: "cleansed \<Rightarrow> nat \<Rightarrow> string \<Rightarrow> include_state \<Rightarrow> bool" where
  "IsInAlphabeticalOrder cl linenum header_path s \<longleftrightarrow>
     \<not> (str_less header_path (last_header s)
        \<and> \<not> matches re_blank (if linenum = 0 then last (elided cl) else elided cl ! (linenum - 1)))"

text \<open>Going into a section; the last header is forgotten when the section is another one.\<close>

definition enter_section :: "include_section \<Rightarrow> include_state \<Rightarrow> include_state" where
  "enter_section sec s =
     s\<lparr>current_section := sec,
       last_header := (if current_section s \<noteq> sec then [] else last_header s)\<rparr>"

text \<open>The message is empty when the header is in order.\<close>

definition CheckNextIncludeOrder :: "header_type \<Rightarrow> include_state \<Rightarrow> string \<times> include_state" where
  "CheckNextIncludeOrder header_type s =
     (let error_message = ''Found '' @ TYPE_NAMES header_type @ '' after ''
            @ SECTION_NAMES (current_section s)
      in case header_type of
           C_SYS_HEADER \<Rightarrow>
             if current_section s \<le> C_SECTION then ([], enter_section C_SECTION s)
             else (error_message, s\<lparr>last_header := []\<rparr>)
         | CPP_SYS_HEADER \<Rightarrow>
             if current_section s \<le> CPP_SECTION then ([], enter_section CPP_SECTION s)
             else (error_message, s\<lparr>last_header := []\<rparr>)
         | LIKELY_MY_HEADER \<Rightarrow>
             if current_section s \<le> MY_H_SECTION then ([], enter_section MY_H_SECTION s)
             else ([], enter_section OTHER_H_SECTION s)
         | POSSIBLE_MY_HEADER \<Rightarrow>
             if current_section s \<le> MY_H_SECTION then ([], enter_section MY_H_SECTION s)
             else ([], enter_section OTHER_H_SECTION s)
         | OTHER_HEADER \<Rightarrow> ([], enter_section OTHER_H_SECTION s))"

section \<open>Classifying a header\<close>

definition drop_suffix :: "nat \<Rightarrow> string \<Rightarrow> string" where
  "drop_suffix n s = take (length s - n) s"

definition has_common_suffix :: "string \<Rightarrow> string \<Rightarrow> bool" where
  "has_common_suffix filename suffix \<longleftrightarrow>
     ends_with filename suffix \<and> length suffix < length filename \<and>
     filename ! (length filename - length suffix - 1) \<in> {CHR ''-'', CHR ''_''}"

definition DropCommonSuffixes :: "string \<Rightarrow> string" where
  "DropCommonSuffixes filename =
     (case find (has_common_suffix filename)
             [''test.cc'', ''regtest.cc'', ''unittest.cc'', ''inl.h'', ''impl.h'', ''internal.h''] of
        Some suffix \<Rightarrow> drop_suffix (length suffix + 1) filename
      | None \<Rightarrow> fst (splitext filename))"

definition IsTestFilename :: "string \<Rightarrow> bool" where
  "IsTestFilename filename \<longleftrightarrow>
     ends_with filename ''_test.cc'' \<or> ends_with filename ''_unittest.cc''
     \<or> ends_with filename ''_regtest.cc''"

definition ClassifyInclude :: "os \<Rightarrow> string \<Rightarrow> string \<Rightarrow> bool \<Rightarrow> header_type option" where
  "ClassifyInclude os filename include is_system =
     (if is_system then
        Some (if include \<in> set CPP_HEADERS then CPP_SYS_HEADER else C_SYS_HEADER)
      else
        map_option (\<lambda>repository_name.
          let (target_dir, target_base) = path_split (DropCommonSuffixes repository_name);
              (include_dir, include_base) = path_split (DropCommonSuffixes include)
          in if target_base = include_base \<and>
                (include_dir = target_dir \<or> include_dir = normpath (target_dir @ ''/../public''))
             then LIKELY_MY_HEADER
             else case (re_match re_first_component target_base,
                        re_match re_first_component include_base) of
                    (Some t, Some i) \<Rightarrow>
                      if grp 0 t = grp 0 i then POSSIBLE_MY_HEADER else OTHER_HEADER
                  | _ \<Rightarrow> OTHER_HEADER)
          (RepositoryName os filename))"

section \<open>Checking an include\<close>

definition include_once ::
  "os \<Rightarrow> string \<Rightarrow> cleansed \<Rightarrow> nat \<Rightarrow> string \<Rightarrow> bool \<Rightarrow> include_state \<Rightarrow>
     (diag list \<times> include_state) option" where
  "include_once os filename cl linenum include is_system s =
     (case FindHeader include s of
        Some duplicate_line \<Rightarrow>
          Some ([diag linenum ''build/include'' 4
                   ([CHR 0x22] @ include @ [CHR 0x22] @ '' already included at '' @ filename @ '':''
                    @ show_nat duplicate_line)], s)
      | None \<Rightarrow>
          if matches re_third_party include then Some ([], s)
          else
            Option.bind (ClassifyInclude os filename include is_system) (\<lambda>header_type.
              let s = s\<lparr>include_list :=
                          butlast (include_list s) @ [last (include_list s) @ [(include, linenum)]]\<rparr>;
                  (error_message, s) = CheckNextIncludeOrder header_type s;
                  canonical_include = CanonicalizeAlphabeticalOrder include;
                  ds' = (if \<not> IsInAlphabeticalOrder cl linenum canonical_include s then
                           [diag linenum ''build/include_alpha'' 4
                              (''Include '' @ [CHR 0x22] @ include @ [CHR 0x22]
                               @ '' not in alphabetical order'')]
                         else [])
              in Option.bind
                   (if error_message \<noteq> [] then
                      map_option (\<lambda>basename. [diag linenum ''build/include_order'' 4
                         (error_message @ ''. Should be: '' @ basename
                          @ ''.h, c system, c++ system, other.'')]) (BaseName os filename)
                    else Some [])
                   (\<lambda>ds. Some (ds @ ds', SetLastHeader canonical_include s))))"

definition CheckIncludeLine ::
  "os \<Rightarrow> string \<Rightarrow> cleansed \<Rightarrow> nat \<Rightarrow> include_state \<Rightarrow> (diag list \<times> include_state) option" where
  "CheckIncludeLine os filename cl linenum s =
     (let line = lines cl ! linenum;
          bare = (case re_match re_include_bare line of
                    Some m \<Rightarrow>
                      if \<not> matches re_third_party (grp 1 m)
                      then [diag linenum ''build/include'' 4 ''Include the directory when naming .h files'']
                      else []
                  | None \<Rightarrow> []);
          streams = (case re_match re_include line of
                       Some m \<Rightarrow>
                         if matches re_stream_header (grp 2 m) \<and> \<not> IsTestFilename filename then
                           if grp 2 m = ''ostream''
                           then [diag linenum ''readability/streams'' 3
                                   (''For logging, include '' @ [CHR 0x22] @ ''base/logging.h'' @ [CHR 0x22] @ '' instead of <ostream>.'')]
                           else [diag linenum ''readability/streams'' 3
                                   ''Streams are highly discouraged.'']
                         else []
                     | None \<Rightarrow> [])
      in map_option (\<lambda>(ds, s). (bare @ ds @ streams, s))
           (case re_search re_include line of
              Some m \<Rightarrow>
                include_once os filename cl linenum (grp 2 m) (grp 1 m = ''<'') s
            | None \<Rightarrow> Some ([], s)))"

section \<open>Files of one module\<close>

definition strip_cc :: "string \<Rightarrow> string" where
  "strip_cc f =
     (let f = drop_suffix 3 f;
          f = (if ends_with f ''_unittest'' then drop_suffix 9 f
               else if ends_with f ''_test'' then drop_suffix 5 f else f)
      in replace_str ''/internal/'' ''/'' (replace_str ''/public/'' ''/'' f))"

definition strip_h :: "string \<Rightarrow> string" where
  "strip_h f =
     (let f = drop_suffix 2 f;
          f = (if ends_with f ''-inl'' then drop_suffix 4 f else f)
      in replace_str ''/internal/'' ''/'' (replace_str ''/public/'' ''/'' f))"

text \<open>\<^verbatim>\<open>filename_cc[:-0]\<close> is the empty string.\<close>

definition FilesBelongToSameModule :: "string \<Rightarrow> string \<Rightarrow> bool \<times> string" where
  "FilesBelongToSameModule filename_cc filename_h =
     (if \<not> ends_with filename_cc ''.cc'' then (False, [])
      else if \<not> ends_with filename_h ''.h'' then (False, [])
      else
        let cc = strip_cc filename_cc; h = strip_h filename_h
        in if ends_with cc h then (True, if h = [] then [] else drop_suffix (length h) cc)
           else (False, []))"

text \<open>
  The header is read through \<^verbatim>\<open>io.open\<close>, which gives its lines, with their newlines, or
  fails.
\<close>

fun note_includes :: "nat \<Rightarrow> string list \<Rightarrow> (string \<Rightarrow> nat option) \<Rightarrow> (string \<Rightarrow> nat option)" where
  "note_includes linenum [] d = d"
| "note_includes linenum (line # ls) d =
     note_includes (linenum + 1) ls
       (case re_search re_include (CleanseComments line) of
          Some m \<Rightarrow> (if d (grp 2 m) = None then d(grp 2 m \<mapsto> linenum) else d)
        | None \<Rightarrow> d)"

definition UpdateIncludeState ::
  "(string \<Rightarrow> string list option) \<Rightarrow> string \<Rightarrow> (string \<Rightarrow> nat option) \<Rightarrow> bool \<times> (string \<Rightarrow> nat option)" where
  "UpdateIncludeState io_open filename include_dict =
     (case io_open filename of
        None \<Rightarrow> (False, include_dict)
      | Some headerfile \<Rightarrow> (True, note_includes 1 headerfile include_dict))"

section \<open>Order of sections\<close>

lemma enter_section_fields [simp]:
  "current_section (enter_section sec s) = sec"
  "include_list (enter_section sec s) = include_list s"
  by (simp_all add: enter_section_def)

text \<open>The section never moves backwards, and a message leaves it where it is.\<close>

lemma CheckNextIncludeOrder_mono:
  "CheckNextIncludeOrder h s = (m, s') \<Longrightarrow> current_section s \<le> current_section s'"
  by (cases "current_section s"; cases h)
     (auto simp: CheckNextIncludeOrder_def Let_def less_eq_include_section_def)

lemma CheckNextIncludeOrder_message:
  "fst (CheckNextIncludeOrder h s) \<noteq> [] \<longleftrightarrow>
     (h = C_SYS_HEADER \<and> C_SECTION < current_section s) \<or>
     (h = CPP_SYS_HEADER \<and> CPP_SECTION < current_section s)"
  by (cases h) (auto simp: CheckNextIncludeOrder_def Let_def not_less)

fun include_messages :: "header_type list \<Rightarrow> include_state \<Rightarrow> string list" where
  "include_messages [] s = []"
| "include_messages (h # hs) s =
     (case CheckNextIncludeOrder h s of (m, s) \<Rightarrow> m # include_messages hs s)"

text \<open>The order the style guide asks for.\<close>

fun header_rank :: "header_type \<Rightarrow> nat" where
  "header_rank LIKELY_MY_HEADER = 1"
| "header_rank POSSIBLE_MY_HEADER = 1"
| "header_rank C_SYS_HEADER = 2"
| "header_rank CPP_SYS_HEADER = 3"
| "header_rank OTHER_HEADER = 4"

lemma include_messages_sorted:
  "sorted (map header_rank hs) \<Longrightarrow>
     (\<forall>h \<in> set hs. section_number (current_section s) \<le> header_rank h) \<Longrightarrow>
     set (include_messages hs s) \<subseteq> {[]}"
proof (induction hs arbitrary: s)
  case Nil
  then show ?case by simp
next
  case (Cons h hs)
  obtain m s' where step: "CheckNextIncludeOrder h s = (m, s')" by fastforce
  from Cons.prems have le: "section_number (current_section s) \<le> header_rank h" by simp
  from le have m: "m = []" and s': "section_number (current_section s') = header_rank h"
    using step by (cases h; auto simp: CheckNextIncludeOrder_def Let_def less_eq_include_section_def
        split: if_splits)+
  have "\<forall>k \<in> set hs. section_number (current_section s') \<le> header_rank k"
    using s' Cons.prems(1) by auto
  with Cons.IH [of s'] Cons.prems(1) m step show ?case by simp
qed

section \<open>Where modules meet\<close>

lemma FilesBelongToSameModule_prefix:
  assumes "FilesBelongToSameModule cc h = (True, common)" and "strip_h h \<noteq> []"
  shows "strip_cc cc = common @ strip_h h"
proof -
  obtain t where t: "strip_cc cc = t @ strip_h h"
    using assms(1) by (auto simp: FilesBelongToSameModule_def Let_def ends_with_iff split: if_splits)
  moreover have "common = drop_suffix (length (strip_h h)) (strip_cc cc)"
    using assms by (auto simp: FilesBelongToSameModule_def Let_def split: if_splits)
  ultimately show ?thesis by (simp add: drop_suffix_def)
qed

end
