(* ===== verification/Lint_Lines.thy ===== *)
theory Lint_Lines
  imports Lint_Nesting Lint_Include
begin

text \<open>
  The checks of \<^verbatim>\<open>tools/cpplint.py\<close> on one line: multi-line comments and strings, thread-unsafe
  functions, indentation in namespaces, the length of functions, comments, sections of a class,
  empty bodies, alternative tokens, and the C++11 and inheritance checks. Each returns the calls
  of the error handler it makes, in their order.
\<close>

section \<open>Comments and strings\<close>

definition CheckForMultilineCommentsAndStrings :: "cleansed \<Rightarrow> nat \<Rightarrow> diag list" where
  "CheckForMultilineCommentsAndStrings cl linenum =
     (let line = replace_str [CHR 0x5C, CHR 0x5C] [] (elided cl ! linenum)
      in (if count_str ''*/'' line < count_str ''/*'' line
          then [diag linenum ''readability/multiline_comment'' 5
                  ((''Complex multi-line /*...*/-style comment found. Lint may give ''
           @ ''bogus warnings.  Consider replacing these with //-style comments, ''
           @ ''with #if 0...#endif, or with more clearly structured multi-line ''
           @ ''comments.''))]
          else []) @
         (if odd (int (count_str [CHR 0x22] line) - int (count_str [CHR 0x5C, CHR 0x22] line))
          then [diag linenum ''readability/multiline_string'' 5
                  ((''Multi-line string ('' @ [CHR 0x22] @ ''...'' @ [CHR 0x22] @ '') found.  This lint script doesn'' @ [CHR 0x27] @ ''t do ''
           @ ''well with such strings, and may give bogus warnings.  Use C++11 ''
           @ ''raw strings or concatenation instead.''))]
          else []))"

text \<open>\<^verbatim>\<open>string.whitespace\<close>, which is ASCII, and \<^verbatim>\<open>in\<close> on a line of characters.\<close>

definition CheckComment :: "string \<Rightarrow> nat \<Rightarrow> nat \<Rightarrow> diag list" where
  "CheckComment line linenum next_line_start =
     (case find_str ''//'' line of
        None \<Rightarrow> []
      | Some commentpos \<Rightarrow>
          let code_part = take commentpos line; comment = drop commentpos line
          in if odd (int (count_str [CHR 0x22] code_part)
                     - int (count_str [CHR 0x5C, CHR 0x22] code_part)) then []
             else
               (if \<not> (matches re_scope_comment line \<and> next_line_start = commentpos) \<and>
                   ((1 \<le> commentpos \<and> \<not> is_space (line ! (commentpos - 1))) \<or>
                    (2 \<le> commentpos \<and> \<not> is_space (line ! (commentpos - 2))))
                then [diag linenum ''whitespace/comments'' 2
                        ''At least two spaces is best between code and comments''] else []) @
               (case re_match re_todo comment of
                  None \<Rightarrow> []
                | Some m \<Rightarrow>
                    (if 1 < length (grp 1 m)
                     then [diag linenum ''whitespace/todo'' 2 ''Too many spaces before TODO''] else []) @
                    (if group 2 m = None
                     then [diag linenum ''readability/todo'' 2
                             ((''Missing username in TODO; it should look like '' @ [CHR 0x22] @ ''// ''
           @ ''TODO(my_username): Stuff.'' @ [CHR 0x22]))]
                     else []) @
                    (if group 3 m \<noteq> Some '' '' \<and> group 3 m \<noteq> Some []
                     then [diag linenum ''whitespace/todo'' 2
                             ''TODO(my_username) should be followed by a space''] else [])) @
               (if matches re_comment_word comment
                then [diag linenum ''whitespace/comments'' 4
                        ''Should have a space between // and comment''] else []))"

section \<open>Function calls\<close>

definition THREADING_LIST :: "(string \<times> string \<times> regex) list" where
  "THREADING_LIST =
     [(''asctime('', ''asctime_r('', re_unsafe_asctime),
      (''ctime('', ''ctime_r('', re_unsafe_ctime),
      (''getgrgid('', ''getgrgid_r('', re_unsafe_getgrgid),
      (''getgrnam('', ''getgrnam_r('', re_unsafe_getgrnam),
      (''getlogin('', ''getlogin_r('', re_unsafe_getlogin),
      (''getpwnam('', ''getpwnam_r('', re_unsafe_getpwnam),
      (''getpwuid('', ''getpwuid_r('', re_unsafe_getpwuid),
      (''gmtime('', ''gmtime_r('', re_unsafe_gmtime),
      (''localtime('', ''localtime_r('', re_unsafe_localtime),
      (''rand('', ''rand_r('', re_unsafe_rand),
      (''strtok('', ''strtok_r('', re_unsafe_strtok),
      (''ttyname('', ''ttyname_r('', re_unsafe_ttyname)]"

definition CheckPosixThreading :: "cleansed \<Rightarrow> nat \<Rightarrow> diag list" where
  "CheckPosixThreading cl linenum =
     concat (map (\<lambda>(single_thread_func, multithread_safe_func, pattern).
       if searches pattern (elided cl ! linenum)
       then [diag linenum ''runtime/threadsafe_fn'' 2
               (''Consider using '' @ multithread_safe_func @ ''...) instead of ''
                @ single_thread_func @ ''...) for improved thread safety.'')]
       else []) THREADING_LIST)"

definition CheckVlogArguments :: "cleansed \<Rightarrow> nat \<Rightarrow> diag list" where
  "CheckVlogArguments cl linenum =
     (if searches re_vlog (elided cl ! linenum)
      then [diag linenum ''runtime/vlog'' 5
              ((''VLOG() should be used with numeric verbosity level.  Use LOG() if ''
           @ ''you want symbolic severity levels.''))]
      else [])"

definition CheckInvalidIncrement :: "cleansed \<Rightarrow> nat \<Rightarrow> diag list" where
  "CheckInvalidIncrement cl linenum =
     (if matches re_invalid_increment (elided cl ! linenum)
      then [diag linenum ''runtime/invalid_increment'' 5
              ''Changing pointer instead of value (or unused value of operator*).'']
      else [])"

definition CheckMakePairUsesDeduction :: "cleansed \<Rightarrow> nat \<Rightarrow> diag list" where
  "CheckMakePairUsesDeduction cl linenum =
     (if searches re_make_pair (elided cl ! linenum)
      then [diag linenum ''build/explicit_make_pair'' 4
              ((''For C++11-compatibility, omit template arguments from make_pair ''
           @ ''OR use pair directly OR if appropriate, construct a pair directly''))]
      else [])"

definition CheckDefaultLambdaCaptures :: "cleansed \<Rightarrow> nat \<Rightarrow> diag list" where
  "CheckDefaultLambdaCaptures cl linenum =
     (case re_match re_default_capture (elided cl ! linenum) of
        None \<Rightarrow> []
      | Some m \<Rightarrow>
          (case CloseExpression cl linenum (length (grp 1 m)) of
             (line, _, Some p) \<Rightarrow>
               if matches re_lambda_rest (drop p line)
               then [diag linenum ''build/c++11'' 4
                       ''Default lambda captures are an unapproved C++ feature.'']
               else []
           | (_, _, None) \<Rightarrow> []))"

section \<open>Virtual functions\<close>

text \<open>The end of the parameter list: the line and the column behind it.\<close>

fun virtual_end :: "cleansed \<Rightarrow> nat list \<Rightarrow> nat \<Rightarrow> (nat \<times> nat) option" where
  "virtual_end cl [] start_col = None"
| "virtual_end cl (l # ls) start_col =
     (case re_match re_parameter_list (drop start_col (elided cl ! l)) of
        Some m \<Rightarrow>
          (case CloseExpression cl l (start_col + length (grp 1 m)) of
             (_, end_line, Some end_col) \<Rightarrow> Some (end_line, end_col)
           | (_, _, None) \<Rightarrow> None)
      | None \<Rightarrow> virtual_end cl ls 0)"

fun redundant_virtual :: "cleansed \<Rightarrow> nat \<Rightarrow> nat list \<Rightarrow> nat \<Rightarrow> diag list" where
  "redundant_virtual cl linenum [] end_col = []"
| "redundant_virtual cl linenum (i # is) end_col =
     (let line = drop end_col (elided cl ! i)
      in (case re_search re_override_or_final line of
            Some m \<Rightarrow>
              [diag linenum ''readability/inheritance'' 4
                 (([CHR 0x22] @ ''virtual'' @ [CHR 0x22] @ '' is redundant since function is already declared as '' @ [CHR 0x22]) @ grp 1 m @ [CHR 0x22])]
          | None \<Rightarrow> [])
         @ (if searches re_not_word_end line then [] else redundant_virtual cl linenum is 0))"

definition CheckRedundantVirtual :: "cleansed \<Rightarrow> nat \<Rightarrow> diag list" where
  "CheckRedundantVirtual cl linenum =
     (case re_match re_virtual (elided cl ! linenum) of
        None \<Rightarrow> []
      | Some virtual \<Rightarrow>
          (case virtual_end cl [linenum..<min (linenum + 3) (NumLines cl)] (length (grp 1 virtual)) of
             None \<Rightarrow> []
           | Some (end_line, end_col) \<Rightarrow>
               redundant_virtual cl linenum [end_line..<min (end_line + 3) (NumLines cl)] end_col))"

definition CheckRedundantOverrideOrFinal :: "cleansed \<Rightarrow> nat \<Rightarrow> diag list" where
  "CheckRedundantOverrideOrFinal cl linenum =
     (let line = elided cl ! linenum
      in if searches re_override line \<and> searches re_final line
         then [diag linenum ''readability/inheritance'' 4
                 ([CHR 0x22] @ ''override'' @ [CHR 0x22] @ '' is redundant since function is already declared as ''
           @ [CHR 0x22] @ ''final'' @ [CHR 0x22])]
         else [])"

section \<open>C++11\<close>

definition re_std :: "string \<Rightarrow> regex" where
  "re_std top_name = seq [WordB, Str (''std::'' @ top_name), WordB]"

definition FlagCxx11Features :: "cleansed \<Rightarrow> nat \<Rightarrow> diag list" where
  "FlagCxx11Features cl linenum =
     (let line = elided cl ! linenum
      in (case re_match re_cxx11_include line of
            Some include \<Rightarrow>
              if grp 1 include \<in> {''cfenv'', ''condition_variable'', ''fenv.h'', ''future'', ''mutex'',
                   ''thread'', ''chrono'', ''ratio'', ''regex'', ''system_error''}
              then [diag linenum ''build/c++11'' 5
                      (''<'' @ grp 1 include @ ''> is an unapproved C++11 header.'')]
              else []
          | None \<Rightarrow> []) @
         (if matches re_preprocessor_any line \<and> \<not> matches re_pp_define line then []
          else concat (map (\<lambda>top_name.
            if searches (re_std top_name) line
            then [diag linenum ''build/c++11'' 5
                    (''std::'' @ top_name @
                     ('' is an unapproved C++11 class or function.  Send c-style an ''
           @ ''example of where it would make your code more readable, and they ''
           @ ''may let you use it.''))]
            else []) [''alignment_of'', ''aligned_union'', ''forward''])))"

section \<open>Indentation in namespaces\<close>

definition IsBlankLine :: "string \<Rightarrow> bool" where
  "IsBlankLine line \<longleftrightarrow> line = [] \<or> list_all is_uspace line"

definition IsMacroDefinition :: "string list \<Rightarrow> nat \<Rightarrow> bool" where
  "IsMacroDefinition ls linenum \<longleftrightarrow>
     searches re_define (ls ! linenum)
     \<or> (0 < linenum \<and> searches re_backslash_end (ls ! (linenum - 1)))"

definition IsForwardClassDeclaration :: "string list \<Rightarrow> nat \<Rightarrow> bool" where
  "IsForwardClassDeclaration ls linenum \<longleftrightarrow> matches re_forward_class (ls ! linenum)"

definition IsBlockInNameSpace :: "nesting_state \<Rightarrow> bool \<Rightarrow> bool" where
  "IsBlockInNameSpace ns is_forward_declaration =
     (if is_forward_declaration then 1 \<le> length (stack ns) \<and> is_namespace (stack ns ! 0)
      else 1 < length (stack ns) \<and> check_namespace_indentation (stack ns ! 0)
           \<and> is_namespace (stack ns ! 1))"

definition ShouldCheckNamespaceIndentation ::
  "nesting_state \<Rightarrow> bool \<Rightarrow> string list \<Rightarrow> nat \<Rightarrow> bool" where
  "ShouldCheckNamespaceIndentation ns is_namespace_indent_item raw_lines_no_comments linenum =
     (let is_forward_declaration = IsForwardClassDeclaration raw_lines_no_comments linenum
      in if \<not> (is_namespace_indent_item \<or> is_forward_declaration) then False
         else if IsMacroDefinition raw_lines_no_comments linenum then False
         else IsBlockInNameSpace ns is_forward_declaration)"

definition CheckItemIndentationInNamespace :: "string list \<Rightarrow> nat \<Rightarrow> diag list" where
  "CheckItemIndentationInNamespace raw_lines_no_comments linenum =
     (if matches re_indented (raw_lines_no_comments ! linenum)
      then [diag linenum ''runtime/indentation_namespace'' 4 ''Do not indent within a namespace'']
      else [])"

text \<open>\<^verbatim>\<open>==\<close> on blocks is identity.\<close>

definition CheckForNamespaceIndentation :: "nesting_state \<Rightarrow> cleansed \<Rightarrow> nat \<Rightarrow> diag list" where
  "CheckForNamespaceIndentation ns cl linenum =
     (let is_namespace_indent_item =
            (1 < length (stack ns) \<and> check_namespace_indentation (stack ns ! 0)
             \<and> (case previous_stack_top ns of
                  None \<Rightarrow> False
                | Some b \<Rightarrow> is_namespace b \<and> ident b = ident (stack ns ! 1)))
      in if ShouldCheckNamespaceIndentation ns is_namespace_indent_item (elided cl) linenum
         then CheckItemIndentationInNamespace (elided cl) linenum else [])"

section \<open>The length of functions\<close>

record function_state =
  in_a_function :: bool
  lines_in_function :: nat
  current_function :: string

definition FunctionState_init :: function_state where
  "FunctionState_init = \<lparr>in_a_function = False, lines_in_function = 0, current_function = []\<rparr>"

definition Begin :: "string \<Rightarrow> function_state \<Rightarrow> function_state" where
  "Begin function_name f =
     f\<lparr>in_a_function := True, lines_in_function := 0, current_function := function_name\<rparr>"

definition Count :: "function_state \<Rightarrow> function_state" where
  "Count f = (if in_a_function f then f\<lparr>lines_in_function := lines_in_function f + 1\<rparr> else f)"

definition End :: "function_state \<Rightarrow> function_state" where
  "End f = f\<lparr>in_a_function := False\<rparr>"

text \<open>\<^verbatim>\<open>int(math.log(n, 2))\<close> for a positive \<open>n\<close>, which is exact as far as it matters here.\<close>

fun floor_log2 :: "nat \<Rightarrow> nat" where
  "floor_log2 n = (if n < 2 then 0 else floor_log2 (n div 2) + 1)"

declare floor_log2.simps [simp del]

text \<open>
  \<^verbatim>\<open>trigger\<close> is \<^verbatim>\<open>base_trigger * 2**v\<close>; for a negative verbosity it is a fraction, and the
  quotient below may be 0, whose logarithm is an exception: \<open>None\<close>.
\<close>

definition FunctionState_Check :: "int \<Rightarrow> nat \<Rightarrow> function_state \<Rightarrow> diag list option" where
  "FunctionState_Check verbosity linenum f =
     (let base_trigger = (if matches re_test_function (current_function f) then 400 else 250 :: nat);
          k = nat (abs verbosity);
          exceeded = (if 0 \<le> verbosity then base_trigger * 2 ^ k < lines_in_function f
                      else base_trigger < lines_in_function f * 2 ^ k);
          trigger = (if 0 \<le> verbosity then base_trigger * 2 ^ k else base_trigger div 2 ^ k)
      in if \<not> exceeded then Some []
         else if lines_in_function f div base_trigger = 0 then None
         else
           let error_level = min 5 (floor_log2 (lines_in_function f div base_trigger))
           in Some [diag linenum ''readability/fn_size'' (int error_level)
                (''Small and focused functions are preferred: '' @ current_function f @ '' has ''
                 @ show_nat (lines_in_function f)
                 @ '' non-comment lines (error triggered by exceeding ''
                 @ show_nat trigger @ '' lines).'')])"

text \<open>
  The loop that looks for the body: the joined lines when a brace is found first, and
  whether a body or the end of a declaration was found at all.
\<close>

fun find_body :: "string list \<Rightarrow> string \<Rightarrow> bool \<times> string option" where
  "find_body [] joined = (False, None)"
| "find_body (l # ls) joined =
     (let joined = joined @ '' '' @ lstrip l
      in if searches re_semi_or_brace l then (True, None)
         else if searches re_open_brace l then (True, Some joined)
         else find_body ls joined)"

definition function_label :: "string \<Rightarrow> string \<Rightarrow> string" where
  "function_label line joined =
     (let function = (case re_search re_function_name line of Some m \<Rightarrow> grp 1 m)
      in if matches re_test_macro function then
           function @ (case re_search re_parameters joined of Some m \<Rightarrow> grp 1 m | None \<Rightarrow> [])
         else function @ ''()'')"

definition starting_func :: "string \<Rightarrow> bool" where
  "starting_func line =
     (case re_match re_function_start line of
        None \<Rightarrow> False
      | Some m \<Rightarrow>
          let function_name = last (words (grp 1 m))
          in function_name = ''TEST'' \<or> function_name = ''TEST_F''
             \<or> \<not> matches re_upper_name function_name)"

definition CheckForFunctionLengths ::
  "int \<Rightarrow> cleansed \<Rightarrow> nat \<Rightarrow> function_state \<Rightarrow> (diag list \<times> function_state) option" where
  "CheckForFunctionLengths verbosity cl linenum f =
     (let line = lines cl ! linenum
      in if starting_func line then
           (case find_body (drop linenum (lines cl)) [] of
              (False, _) \<Rightarrow>
                Some ([diag linenum ''readability/fn_size'' 5
                         ''Lint failed to find start of function body.''], f)
            | (True, None) \<Rightarrow> Some ([], f)
            | (True, Some joined) \<Rightarrow> Some ([], Begin (function_label line joined) f))
         else if matches re_function_end line then
           map_option (\<lambda>ds. (ds, End f)) (FunctionState_Check verbosity linenum f)
         else if \<not> matches re_blank line then Some ([], Count f)
         else Some ([], f))"

section \<open>Classes and blocks\<close>

definition CheckAccess :: "cleansed \<Rightarrow> nat \<Rightarrow> nesting_state \<Rightarrow> diag list" where
  "CheckAccess cl linenum ns =
     (case re_match re_disallow (elided cl ! linenum) of
        None \<Rightarrow> []
      | Some m \<Rightarrow>
          (case stack ns of
             [] \<Rightarrow> []
           | b # _ \<Rightarrow>
               (case kind b of
                  ClassKind c \<Rightarrow>
                    if access c \<noteq> ''private''
                    then [diag linenum ''readability/constructors'' 3
                            (grp 1 m @ '' must be in the private: section'')]
                    else []
                | _ \<Rightarrow> [])))"

text \<open>\<^verbatim>\<open>lines[linenum - 1]\<close> is only read behind the first line of the class.\<close>

definition CheckSectionSpacing :: "cleansed \<Rightarrow> class_info \<Rightarrow> nat \<Rightarrow> diag list" where
  "CheckSectionSpacing cl c linenum =
     (if int (last_line c) - int (class_starting_linenum c) \<le> 24
         \<or> linenum \<le> class_starting_linenum c then []
      else case re_match re_section (lines cl ! linenum) of
        None \<Rightarrow> []
      | Some m \<Rightarrow>
          let prev_line = lines cl ! (linenum - 1)
          in if \<not> IsBlankLine prev_line \<and> \<not> searches re_class_or_struct prev_line
                \<and> \<not> searches re_backslash_end prev_line then
               let end_class_head =
                 (case find (\<lambda>i. searches re_brace_end (lines cl ! i))
                         [class_starting_linenum c..<linenum] of
                    Some i \<Rightarrow> i | None \<Rightarrow> class_starting_linenum c)
               in if end_class_head < linenum - 1
                  then [diag linenum ''whitespace/blank_line'' 3
                          ([CHR 0x22] @ grp 1 m @ ('':'' @ [CHR 0x22] @ '' should be preceded by a blank line''))]
                  else []
             else [])"

text \<open>The line number \<^verbatim>\<open>-1\<close> is \<open>None\<close>.\<close>

fun GetPreviousNonBlankLine :: "cleansed \<Rightarrow> nat \<Rightarrow> string \<times> nat option" where
  "GetPreviousNonBlankLine cl 0 = ([], None)"
| "GetPreviousNonBlankLine cl (Suc prevlinenum) =
     (let prevline = elided cl ! prevlinenum
      in if \<not> IsBlankLine prevline then (prevline, Some prevlinenum)
         else GetPreviousNonBlankLine cl prevlinenum)"

text \<open>The pattern has an opening parenthesis, so \<^verbatim>\<open>line.find('(')\<close> finds one.\<close>

definition CheckEmptyBlockBody :: "cleansed \<Rightarrow> nat \<Rightarrow> diag list" where
  "CheckEmptyBlockBody cl linenum =
     (let line = elided cl ! linenum
      in case re_match re_loop_or_if line of
           None \<Rightarrow> []
         | Some m \<Rightarrow>
             (case CloseExpression cl linenum (the (find_str ''('' line)) of
                (end_line, end_linenum, Some end_pos) \<Rightarrow>
                  if matches re_semicolon (drop end_pos end_line) then
                    if grp 1 m = ''if''
                    then [diag end_linenum ''whitespace/empty_conditional_body'' 5
                            ''Empty conditional bodies should use {}'']
                    else [diag end_linenum ''whitespace/empty_loop_body'' 5
                            ''Empty loop bodies should use {} or continue'']
                  else []
              | (_, _, None) \<Rightarrow> []))"

section \<open>Alternative tokens\<close>

definition ALT_TOKEN_REPLACEMENT :: "(string \<times> string) list" where
  "ALT_TOKEN_REPLACEMENT =
     [(''and'', ''&&''), (''bitor'', ''|''), (''or'', ''||''), (''xor'', ''^''), (''compl'', ''~''),
      (''bitand'', ''&''), (''and_eq'', ''&=''), (''or_eq'', ''|=''), (''xor_eq'', ''^=''),
      (''not'', ''!''), (''not_eq'', ''!='')]"

text \<open>
  \<^verbatim>\<open>[ =()](KEYWORDS)(?=[ (]|$)\<close>. The keywords come in the order of the dictionary, but what
  must follow lets at most one of them match.
\<close>

definition ALT_TOKEN_REPLACEMENT_PATTERN :: regex where
  "ALT_TOKEN_REPLACEMENT_PATTERN =
     seq [Set [C (CHR '' ''), C (CHR ''=''), C (CHR ''(''), C (CHR '')'')],
          Grp 1 (alts (map (\<lambda>(k, _). Str k) ALT_TOKEN_REPLACEMENT)),
          Look True (alts [Set [C (CHR '' ''), C (CHR ''('')], Eol])]"

definition CheckAltTokens :: "cleansed \<Rightarrow> nat \<Rightarrow> diag list" where
  "CheckAltTokens cl linenum =
     (let line = elided cl ! linenum
      in if matches re_preprocessor line then []
         else if contains ''/*'' line \<or> contains ''*/'' line then []
         else map (\<lambda>m. diag linenum ''readability/alt_tokens'' 2
                (''Use operator '' @ the (map_of ALT_TOKEN_REPLACEMENT (grp 1 m))
                 @ '' instead of '' @ grp 1 m))
              (all_matches ALT_TOKEN_REPLACEMENT_PATTERN line))"

section \<open>The checks keep the contract\<close>

lemma diag_fields [simp]:
  "d_line (diag n c k m) = n" "d_category (diag n c k m) = c" "d_confidence (diag n c k m) = k"
  "d_message (diag n c k m) = m"
  by (simp_all add: diag_def)

lemma well_formed_diag_diag:
  "well_formed_diag (diag n c k m) \<longleftrightarrow> c \<in> set ERROR_CATEGORIES \<and> 0 \<le> k \<and> k \<le> 5"
  by (simp add: well_formed_diag_def)

lemmas contract = well_formed_diag_diag ERROR_CATEGORIES_def Let_def

interpretation multiline: line_check CheckForMultilineCommentsAndStrings
  by unfold_locales (auto simp: CheckForMultilineCommentsAndStrings_def contract)

interpretation comment: line_check "\<lambda>(line, next_line_start) linenum. CheckComment line linenum next_line_start"
  by unfold_locales (auto simp: CheckComment_def contract split: option.splits if_splits)

interpretation posix: line_check CheckPosixThreading
  by unfold_locales (auto simp: CheckPosixThreading_def contract split: if_splits)

interpretation vlog: line_check CheckVlogArguments
  by unfold_locales (auto simp: CheckVlogArguments_def contract split: if_splits)

interpretation increment: line_check CheckInvalidIncrement
  by unfold_locales (auto simp: CheckInvalidIncrement_def contract split: if_splits)

interpretation make_pair: line_check CheckMakePairUsesDeduction
  by unfold_locales (auto simp: CheckMakePairUsesDeduction_def contract split: if_splits)

interpretation captures: line_check CheckDefaultLambdaCaptures
  by unfold_locales
     (auto simp: CheckDefaultLambdaCaptures_def contract split: option.splits prod.splits if_splits)

lemma redundant_virtual_contract:
  "d \<in> set (redundant_virtual cl n is c) \<Longrightarrow> well_formed_diag d \<and> d_line d = n"
  by (induction cl n "is" c rule: redundant_virtual.induct)
     (auto simp: contract split: option.splits if_splits)

interpretation redundant_virtual: line_check CheckRedundantVirtual
  using redundant_virtual_contract
  by unfold_locales (auto simp: CheckRedundantVirtual_def split: option.splits)

interpretation redundant_override: line_check CheckRedundantOverrideOrFinal
  by unfold_locales (auto simp: CheckRedundantOverrideOrFinal_def contract split: if_splits)

interpretation cxx11: line_check FlagCxx11Features
  by unfold_locales (auto simp: FlagCxx11Features_def contract split: option.splits if_splits)

interpretation namespace_indentation: line_check "\<lambda>(ns, cl). CheckForNamespaceIndentation ns cl"
  by unfold_locales
     (auto simp: CheckForNamespaceIndentation_def CheckItemIndentationInNamespace_def contract
       split: if_splits)

interpretation access: line_check "\<lambda>(cl, ns) linenum. CheckAccess cl linenum ns"
  by unfold_locales
     (auto simp: CheckAccess_def contract split: option.splits list.splits block_kind.splits if_splits)

interpretation sections: line_check "\<lambda>(cl, c) linenum. CheckSectionSpacing cl c linenum"
  by unfold_locales (auto simp: CheckSectionSpacing_def contract split: option.splits if_splits)

interpretation alt_tokens: line_check CheckAltTokens
  by unfold_locales (auto simp: CheckAltTokens_def contract split: if_splits)

text \<open>Two report on a line of their own: the end of the condition, the start of a block.\<close>

interpretation empty_body: reporter CheckEmptyBlockBody
  by unfold_locales
     (auto simp: CheckEmptyBlockBody_def contract split: option.splits prod.splits if_splits)

interpretation completed_blocks: reporter "\<lambda>ns _. CheckCompletedBlocks ns"
proof
  fix d ns
  assume "d \<in> set (CheckCompletedBlocks ns)"
  then obtain b where "b \<in> set (stack ns)" and d: "d \<in> set (case kind b of
      ClassKind c \<Rightarrow>
        [diag (class_starting_linenum c) ''build/class'' 5
           (''Failed to find complete declaration of class '' @ class_name c)]
    | NamespaceKind n \<Rightarrow>
        [diag (namespace_starting_linenum n) ''build/namespaces'' 5
           (''Failed to find complete declaration of namespace '' @ namespace_name n)]
    | _ \<Rightarrow> [])" by (auto simp: CheckCompletedBlocks_def)
  then show "well_formed_diag d" by (cases "kind b") (simp_all add: contract)
qed

section \<open>Lookups\<close>

lemma GetPreviousNonBlankLine_None:
  "GetPreviousNonBlankLine cl n = (line, None) \<longleftrightarrow> line = [] \<and> (\<forall>i < n. IsBlankLine (elided cl ! i))"
  by (induction n) (auto simp: Let_def less_Suc_eq)

lemma GetPreviousNonBlankLine_Some:
  "GetPreviousNonBlankLine cl n = (line, Some k) \<longleftrightarrow>
     k < n \<and> line = elided cl ! k \<and> \<not> IsBlankLine line \<and>
     (\<forall>i. k < i \<and> i < n \<longrightarrow> IsBlankLine (elided cl ! i))"
proof (induction n)
  case (Suc n)
  show ?case
  proof (cases "IsBlankLine (elided cl ! n)")
    case True
    with Suc show ?thesis by (auto simp: Let_def less_Suc_eq)
  next
    case False
    then have "GetPreviousNonBlankLine cl (Suc n) = (elided cl ! n, Some n)" by (simp add: Let_def)
    with False show ?thesis by (auto simp: less_Suc_eq)
  qed
qed simp

section \<open>Long functions\<close>

lemma floor_log2_bounds: "0 < n \<Longrightarrow> 2 ^ floor_log2 n \<le> n \<and> n < 2 * 2 ^ floor_log2 n"
proof (induction n rule: floor_log2.induct)
  case (1 n)
  show ?case
  proof (cases "n < 2")
    case True
    with 1 show ?thesis by (simp add: floor_log2.simps [of n])
  next
    case False
    then have "2 ^ floor_log2 (n div 2) \<le> n div 2 \<and> n div 2 < 2 * 2 ^ floor_log2 (n div 2)"
      using 1 by simp
    then show ?thesis using False by (simp add: floor_log2.simps [of n]) linarith
  qed
qed

lemma floor_log2_ge: "2 ^ k \<le> n \<Longrightarrow> k \<le> floor_log2 n"
proof -
  assume n: "2 ^ k \<le> n"
  then have "0 < n" by (rule less_le_trans [rotated]) simp
  with floor_log2_bounds n have "(2 :: nat) ^ k < 2 ^ Suc (floor_log2 n)"
    by (metis le_less_trans power_Suc)
  then have "k < Suc (floor_log2 n)" by (rule power_less_imp_less_exp [rotated]) simp
  then show ?thesis by simp
qed

definition base_trigger :: "function_state \<Rightarrow> nat" where
  "base_trigger f = (if matches re_test_function (current_function f) then 400 else 250)"

text \<open>
  A function is reported exactly when it has more lines than the trigger, and then with a
  confidence that the verbosity in force lets through.
\<close>

lemma FunctionState_Check_ok:
  assumes v: "0 \<le> v" "v \<le> 5"
  shows "\<exists>ds. FunctionState_Check v n f = Some ds \<and>
    (ds = [] \<longleftrightarrow> lines_in_function f \<le> base_trigger f * 2 ^ nat v) \<and>
    (\<forall>d \<in> set ds. d_category d = ''readability/fn_size'' \<and> d_line d = n \<and>
       v \<le> d_confidence d \<and> d_confidence d \<le> 5)"
proof -
  define b where "b = base_trigger f"
  define l where "l = lines_in_function f"
  have b: "0 < b" by (simp add: b_def base_trigger_def)
  have k: "nat (abs v) = nat v" using v by simp
  have level: "nat v \<le> floor_log2 (l div b) \<and> l div b \<noteq> 0" if "b * 2 ^ nat v < l"
  proof -
    have "2 ^ nat v \<le> l div b"
      using that b by (simp add: less_eq_div_iff_mult_less_eq mult.commute)
    then show ?thesis using floor_log2_ge [of "nat v" "l div b"] by (auto intro: gr0I)
  qed
  show ?thesis
  proof (cases "b * 2 ^ nat v < l")
    case True
    have "FunctionState_Check v n f = Some [diag n ''readability/fn_size''
        (int (min 5 (floor_log2 (l div b))))
        (''Small and focused functions are preferred: '' @ current_function f @ '' has '' @ show_nat l
          @ '' non-comment lines (error triggered by exceeding '' @ show_nat (b * 2 ^ nat v) @ '' lines).'')]"
      using True level v
      by (simp add: FunctionState_Check_def Let_def k b_def [unfolded base_trigger_def, symmetric]
          l_def [symmetric])
    with True level v show ?thesis by (auto simp: b_def l_def)
  next
    case False
    then have "FunctionState_Check v n f = Some []"
      using v by (simp add: FunctionState_Check_def Let_def k b_def [unfolded base_trigger_def, symmetric]
          l_def [symmetric])
    with False show ?thesis by (simp add: b_def l_def)
  qed
qed

end
