(* ===== verification/Lint_Theorems.thy ===== *)
theory Lint_Theorems
  imports Lint_Blocks Lint_Lines
begin

text \<open>
  The properties of \<^verbatim>\<open>tools/cpplint.py\<close>: bracket matching, reporting and its options, the views
  of a file, the blocks a line lies in, and the order of includes.
\<close>

section \<open>Matching brackets\<close>

definition views :: "string list \<Rightarrow> cleansed" where
  "views ls = \<lparr>elided = ls, lines = ls, raw_lines = ls, lines_without_raw_strings = ls\<rparr>"

text \<open>C20: From an opening bracket \<^verbatim>\<open>CloseExpression\<close> finds its partner on a later line, whatever
  stands between them as long as its brackets balance; angle brackets do not matter.\<close>

theorem CloseExpression_partner:
  assumes "NumLines cl = length (elided cl)"
    and "elided cl = earlier @ (pre @ a # s0) # mid @ (sk @ b # post) # rest"
    and "bracket_pair a b" and "balanced (s0 @ concat mid @ sk)"
  shows "CloseExpression cl (length earlier) (length pre)
    = (sk @ b # post, length earlier + length mid + 1, Some (length sk + 1))"
  using CloseExpression_lines [OF assms] .

theorem CloseExpression_partner_witness:
  "CloseExpression (views [''f(a[i],'', ''  b < 2,'', ''  c);'']) 0 1 = (''  c);'', 2, Some 4)"
proof -
  have "balanced ''i''" "balanced '',  b < 2,  c''"
    by (intro balanced.intros; simp add: is_opening_def is_closing_def)+
  from balanced_pair [OF _ this, of "CHR ''[''" "CHR '']''"] have "balanced ''[i],  b < 2,  c''"
    by (simp add: bracket_pair_def)
  from balanced_other [OF _ _ this, of "CHR ''a''"] have "balanced ''a[i],  b < 2,  c''"
    by (simp add: is_opening_def is_closing_def)
  then have "balanced (''a[i],'' @ concat [''  b < 2,''] @ ''  c'')" by simp
  from CloseExpression_partner [of "views [''f(a[i],'', ''  b < 2,'', ''  c);'']" "[]" "''f''"
      "CHR ''(''" "''a[i],''" "[''  b < 2,'']" "''  c''" "CHR '')''" "'';''" "[]", OF _ _ _ this]
  show ?thesis by (simp add: views_def NumLines_def bracket_pair_def)
qed

text \<open>C21: On every input with an opening bracket \<^verbatim>\<open>CloseExpression\<close> agrees with a plain stack
  matcher of the three kinds of brackets, which knows nothing of templates; where that one fails it
  reports that there is no end.\<close>

theorem CloseExpression_matcher:
  assumes "NumLines cl = length (elided cl)" and "l < NumLines cl"
    and "p < length (elided cl ! l)" and "is_opening (elided cl ! l ! p)"
  shows "closes cl (CloseExpression cl l p)
    (bracket_lines l (elided cl ! l) (bracket_scan p [] (drop p (elided cl ! l)))
      (drop (l + 1) (elided cl)))"
  using CloseExpression_refines [OF assms] .

theorem CloseExpression_matcher_witness:
  "\<exists>line. CloseExpression (views [''x = {a < b];'']) 0 4 = (line, 1, None)"
  using CloseExpression_matcher [of "views [''x = {a < b];'']" 0 4]
  by (simp add: views_def NumLines_def is_opening_def is_closing_def bracket_pair_def closes_def)

section \<open>Reporting\<close>

text \<open>C22: Of the calls a check makes, exactly those are printed and counted whose line is not
  suppressed, whose confidence reaches the verbosity, and for whose category the last filter that
  matches, if there is one, is not a \<^verbatim>\<open>-\<close> filter. The options do not change.\<close>

theorem reporting:
  assumes "filters_ok (cpplint L)"
  shows "\<exists>L'. Errors filename ds L = Some L' \<and>
    reported L L' (map (error_text (output_format (cpplint L)) filename)
      (filter (\<lambda>d. \<not> IsErrorSuppressedByNolint (d_category d) (d_line d) L \<and>
          verbose_level (cpplint L) \<le> d_confidence d \<and>
          (case find (\<lambda>f. starts_with (d_category d) (drop 1 f)) (rev (filters (cpplint L))) of
             None \<Rightarrow> True | Some f \<Rightarrow> \<not> starts_with f ''-'')) ds))"
proof -
  obtain L' where L': "Errors filename ds L = Some L'" using Errors_total [OF assms] by blast
  have "ShouldPrintError (d_category d) (d_confidence d) (d_line d) L = Some True \<longleftrightarrow>
      \<not> IsErrorSuppressedByNolint (d_category d) (d_line d) L \<and>
      verbose_level (cpplint L) \<le> d_confidence d \<and>
      (case find (\<lambda>f. starts_with (d_category d) (drop 1 f)) (rev (filters (cpplint L))) of
         None \<Rightarrow> True | Some f \<Rightarrow> \<not> starts_with f ''-'')" for d :: diag
    using assms
    by (auto simp: ShouldPrintError_def filters_ok_def filtered_last split: option.splits)
  with Errors_reported [OF L'] L' show ?thesis by simp
qed

theorem reporting_witness:
  "\<exists>L'. Errors ''a.cc'' [diag 3 ''build/include_alpha'' 4 ''x'', diag 5 ''runtime/vlog'' 5 ''y''] lint_init = Some L' \<and>
    stderr L' = [''a.cc:5:  y  [runtime/vlog] [5]\<newline>'']"
proof -
  have "show_nat 5 = ''5''" by code_simp
  moreover have "filters_ok (cpplint lint_init)" by (simp add: lint_init_def)
  ultimately show ?thesis
    using reporting [of lint_init "''a.cc''"
      "[diag 3 ''build/include_alpha'' 4 ''x'', diag 5 ''runtime/vlog'' 5 ''y'']"]
    by (auto simp: reported_def lint_init_def CppLintState_init_def DEFAULT_FILTERS_def
        IsErrorSuppressedByNolint_def error_text_def show_int_def)
qed

text \<open>C23: A list of filters, with commas between and blanks around them, is appended to the filters
  in its order, empty ones left out; \<^verbatim>\<open>_AddFilters\<close> raises exactly when one of them does not
  begin with a sign, and for the first such. If it does not raise, no report can fail, and
  whether a message that is not suppressed and is confident enough is printed is decided by
  the last of all filters that matches its category.\<close>

theorem filters_total:
  assumes "ps \<noteq> []" and "\<forall>p \<in> set ps. CHR '','' \<notin> set p" and "filters_ok s"
  shows "case AddFilters (join '','' ps) s of (s', raised) \<Rightarrow>
    filters s' = filters s @ given_filters ps \<and>
    raised = find (\<lambda>f. \<not> starts_with f ''+'' \<and> \<not> starts_with f ''-'') (given_filters ps) \<and>
    (raised = None \<longrightarrow> (\<forall>L d filename. cpplint L = s' \<longrightarrow>
       Error filename d L \<noteq> None \<and>
       ShouldPrintError (d_category d) (d_confidence d) (d_line d) L =
         Some (\<not> IsErrorSuppressedByNolint (d_category d) (d_line d) L \<and>
               verbose_level s \<le> d_confidence d \<and>
               (case find (\<lambda>f. starts_with (d_category d) (drop 1 f)) (rev (filters s @ given_filters ps)) of
                  None \<Rightarrow> True | Some f \<Rightarrow> \<not> starts_with f ''-''))))"
proof -
  define s' where "s' = s\<lparr>filters := filters s @ given_filters ps\<rparr>"
  have s': "AddFilters (join '','' ps) s = (s', find (\<lambda>f. \<not> signed f) (given_filters ps))"
    using AddFilters_join [OF assms] by (simp add: s'_def)
  have "filters_ok s'" if "find (\<lambda>f. \<not> signed f) (given_filters ps) = None"
    using that assms(3) by (auto simp: s'_def filters_ok_def find_None_iff)
  moreover have "(\<lambda>f. \<not> signed f) = (\<lambda>f. \<not> starts_with f ''+'' \<and> \<not> starts_with f ''-'')"
    by (simp add: signed_def)
  moreover have "verbose_level s' = verbose_level s" "filters s' = filters s @ given_filters ps"
    by (simp_all add: s'_def)
  ultimately show ?thesis
    using s' Error_total ShouldPrintError_last by simp
qed

theorem filters_total_witness:
  "\<exists>s'. AddFilters ''-whitespace, +whitespace/braces'' CppLintState_init = (s', None) \<and>
     filters s' = [''-build/include_alpha'', ''-whitespace'', ''+whitespace/braces''] \<and>
     Error ''a.cc'' (diag 1 ''whitespace/braces'' 5 ''y'') (lint_init\<lparr>cpplint := s'\<rparr>) \<noteq> None"
proof -
  let ?ps = "[''-whitespace'', '' +whitespace/braces'']"
  have given: "given_filters ?ps = [''-whitespace'', ''+whitespace/braces'']" by code_simp
  have none: "find (\<lambda>f. \<not> starts_with f ''+'' \<and> \<not> starts_with f ''-'') (given_filters ?ps) = None"
    unfolding given by code_simp
  have init: "filters CppLintState_init = [''-build/include_alpha'']"
    by (simp add: CppLintState_init_def DEFAULT_FILTERS_def)
  have "\<forall>p \<in> set ?ps. CHR '','' \<notin> set p" by code_simp
  from filters_total [OF _ this filters_ok_init, unfolded none given init]
  show ?thesis by (cases "AddFilters (join '','' ?ps) CppLintState_init") simp
qed

text \<open>C24: The counts by category add up to the total count, in both counting styles that count by
  category, from \<^verbatim>\<open>ResetErrorCounts\<close> on.\<close>

theorem counts_add_up:
  assumes "Errors filename ds (L\<lparr>cpplint := ResetErrorCounts s\<rparr>) = Some L'"
    and "counting s = ''toplevel'' \<or> counting s = ''detailed''"
  shows "(\<Sum>c \<in> dom (errors_by_category (cpplint L')). the (errors_by_category (cpplint L') c))
    = error_count (cpplint L')"
proof -
  have "counts_ok (cpplint L')"
    using Errors_counts [OF assms(1)] counts_ok_reset by simp
  moreover have "counting (cpplint L') = counting s"
    using Errors_reported [OF assms(1)] by (simp add: reported_def ResetErrorCounts_def)
  ultimately show ?thesis using assms(2) by (auto simp: counts_ok_def)
qed

theorem counts_add_up_witness:
  "\<exists>L'. Errors ''a.cc'' [diag 1 ''runtime/vlog'' 5 ''y'', diag 2 ''runtime/int'' 4 ''z'']
      (lint_init\<lparr>cpplint := ResetErrorCounts (SetCountingStyle ''toplevel'' CppLintState_init)\<rparr>) = Some L' \<and>
    (\<Sum>c \<in> dom (errors_by_category (cpplint L')). the (errors_by_category (cpplint L') c))
      = error_count (cpplint L')"
proof -
  define L where "L = lint_init\<lparr>cpplint := ResetErrorCounts (SetCountingStyle ''toplevel'' CppLintState_init)\<rparr>"
  have "filters_ok (cpplint L)"
    using filters_ok_init by (simp add: L_def filters_ok_def ResetErrorCounts_def SetCountingStyle_def)
  from Errors_total [OF this] obtain L' where L':
      "Errors ''a.cc'' [diag 1 ''runtime/vlog'' 5 ''y'', diag 2 ''runtime/int'' 4 ''z''] L = Some L'"
    by blast
  with counts_add_up [OF L' [unfolded L_def]] show ?thesis
    unfolding L_def by (intro exI [of _ L']) (simp add: SetCountingStyle_def)
qed

text \<open>A bare \<^verbatim>\<open>NOLINT\<close> on a line silences the checks of the line.\<close>

theorem bare_nolint:
  assumes "re_search re_nolint raw_line = Some m" and "group 1 m = None" and "group 2 m = None"
  shows "\<exists>L'. ParseNolintSuppressions raw_line n L = ([], L') \<and>
    list_all (\<lambda>ds. silent ds L')
      [CheckForMultilineCommentsAndStrings cl n, CheckPosixThreading cl n, CheckVlogArguments cl n,
       CheckInvalidIncrement cl n, CheckMakePairUsesDeduction cl n, CheckDefaultLambdaCaptures cl n,
       CheckRedundantVirtual cl n, CheckRedundantOverrideOrFinal cl n, FlagCxx11Features cl n,
       CheckAltTokens cl n, CheckForNamespaceIndentation ns cl n, CheckAccess cl n ns]"
proof -
  define L' where "L' = suppress None n L"
  have n: "n \<in> suppressed L' None" by (simp add: L'_def suppress_def)
  have "ParseNolintSuppressions raw_line n L = ([], L')"
    using assms by (simp add: ParseNolintSuppressions_def L'_def)
  then show ?thesis
    using multiline.nolint [OF n, of cl] posix.nolint [OF n, of cl] vlog.nolint [OF n, of cl]
      increment.nolint [OF n, of cl] make_pair.nolint [OF n, of cl] captures.nolint [OF n, of cl]
      redundant_virtual.nolint [OF n, of cl] redundant_override.nolint [OF n, of cl]
      cxx11.nolint [OF n, of cl] alt_tokens.nolint [OF n, of cl]
      namespace_indentation.nolint [OF n, of "(ns, cl)"] access.nolint [OF n, of "(cl, ns)"]
    by auto
qed

theorem bare_nolint_witness:
  "\<exists>L'. ParseNolintSuppressions ''x = rand(); // NOLINT'' 4 lint_init = ([], L') \<and>
    silent (CheckPosixThreading (views [[], [], [], [], ''x = rand();'']) 4) L'"
proof -
  define m where "m = RMatch [(0, 15, ''NOLINT'')]"
  have "re_search re_nolint ''x = rand(); // NOLINT'' = Some m" "group 1 m = None" "group 2 m = None"
    unfolding m_def by code_simp+
  from bare_nolint [OF this] show ?thesis by simp blast
qed

section \<open>The views of a file\<close>

text \<open>C25: Removing multi-line comments keeps the number of lines and turns lines into dummy comments
  or leaves them alone, and unless an unterminated comment is reported no line opens one any more.\<close>

theorem multi_line_comments_removed:
  assumes "RemoveMultiLineComments ls = (ds, ls')"
  shows "length ls' = length ls \<and>
    (\<forall>i < length ls. ls' ! i = ls ! i \<or> ls' ! i = ''// dummy'') \<and>
    (ds = [] \<longrightarrow> (\<forall>l \<in> set ls'. \<not> opens_comment l))"
  using remove_comments_ok [of ls 0 ds ls'] assms by (simp add: RemoveMultiLineComments_def)

theorem multi_line_comments_removed_witness:
  "\<exists>ls'. RemoveMultiLineComments [''a'', ''/* b'', ''c */'', ''d''] = ([], ls') \<and>
    (\<forall>l \<in> set ls'. \<not> opens_comment l)"
proof -
  have r: "RemoveMultiLineComments [''a'', ''/* b'', ''c */'', ''d''] = ([], [''a'', ''// dummy'', ''// dummy'', ''d''])"
    by code_simp
  from multi_line_comments_removed [OF r] r show ?thesis by simp
qed

text \<open>C36: Collapsing empties a string literal, keeps what stands before it, and goes on behind it.\<close>

theorem strings_collapsed:
  assumes "no_quote h" and "CHR 0x22 \<notin> set b" and "CHR 0x0A \<notin> set (b @ t)" and "no_quote t"
  shows "collapse (h @ CHR 0x22 # b @ CHR 0x22 # t) = h @ empty_string @ t"
  using collapse_string [OF assms(1-3)] collapse_no_quote [OF assms(4)] by simp

theorem strings_collapsed_witness:
  "collapse (''f('' @ CHR 0x22 # ''a;b{'' @ CHR 0x22 # '');'') = ''f('' @ empty_string @ '');''"
  using strings_collapsed [of "''f(''" "''a;b{''" "'');''"] by (simp add: no_quote_def)

section \<open>Blocks\<close>

text \<open>The states \<^verbatim>\<open>NestingState\<close> goes through while lines are read.\<close>

inductive reaches :: "cleansed \<Rightarrow> nesting_state \<Rightarrow> bool" for cl where
  reaches_init: "reaches cl NestingState_init"
| reaches_line: "reaches cl ns \<Longrightarrow> reaches cl (snd (Update cl l ns))"

text \<open>C37: In every state that can be reached, and in those in the middle of a line, behind
  \<^verbatim>\<open>UpdatePreprocessor\<close>, the blocks on the stack and those saved at the open conditionals are
  pairwise different objects. An assignment to the innermost block, as \<^verbatim>\<open>Update\<close> makes them,
  therefore changes that one entry of the stack and nothing that is saved for a later branch or
  for what follows the conditional, which is what the deep copies are for.\<close>

theorem no_sharing:
  assumes "reaches cl ns" and "ns1 = ns \<or> ns1 = UpdatePreprocessor line ns"
  shows "distinct (map ident (all_blocks ns1)) \<and>
    (stack ns1 \<noteq> [] \<longrightarrow> assign (ident (hd (stack ns1))) f ns1 = ns1\<lparr>stack := on_top f (stack ns1)\<rparr>)"
proof -
  have "fresh ns" using assms(1)
  proof (induction rule: reaches.induct)
    case reaches_init
    show ?case by (simp add: fresh_def all_blocks_def saved_blocks_def NestingState_init_def)
  next
    case (reaches_line ns l)
    then show ?case using Update_fresh by blast
  qed
  then have "fresh ns1" using assms(2) fresh_UpdatePreprocessor by blast
  then have "distinct (map ident (all_blocks ns1))" by (simp add: fresh_def good_stack_def)
  then show ?thesis using assign_top by blast
qed

theorem no_sharing_witness:
  "distinct (map ident (all_blocks (UpdatePreprocessor ''#if A''
     (snd (Update (views [''namespace a {'', ''#if A'']) 0 NestingState_init)))))"
  using no_sharing [OF reaches_line [OF reaches_init], where line = "''#if A''"] by blast

text \<open>C38: A conditional of the preprocessor: the second branch starts with the blocks the first one
  started with, and behind \<^verbatim>\<open>#endif\<close> the blocks are those the first branch ended with, whatever
  the second one did.\<close>

theorem branches_of_conditional:
  assumes "matches re_pp_if if_line"
    and "matches re_pp_else else_line" and "\<not> matches re_pp_if else_line"
    and "matches re_pp_endif endif_line" and "\<not> matches re_pp_else endif_line"
    and "\<not> matches re_pp_if endif_line"
    and "ns1 = UpdatePreprocessor if_line ns" and "pp_stack ns2 = pp_stack ns1"
    and "ns3 = UpdatePreprocessor else_line ns2" and "pp_stack ns4 = pp_stack ns3"
    and "ns5 = UpdatePreprocessor endif_line ns4"
  shows "stack ns1 = stack ns \<and> anonymous (stack ns3) = anonymous (stack ns) \<and>
    anonymous (stack ns5) = anonymous (stack ns2) \<and> pp_stack ns5 = pp_stack ns"
proof -
  obtain p where p: "stack ns1 = stack ns" "pp_stack ns1 = p # pp_stack ns"
      "anonymous (stack_before_if p) = anonymous (stack ns)" "\<not> seen_else p"
    using pp_if [OF assms(1), of ns] assms(7) by blast
  obtain p' where p': "anonymous (stack ns3) = anonymous (stack_before_if p)"
      "pp_stack ns3 = p' # pp_stack ns" "seen_else p'"
      "anonymous (stack_before_else p') = anonymous (stack ns2)"
    using pp_else [OF assms(2,3), of ns2 p "pp_stack ns"] p assms(8,9) by auto
  have "stack ns5 = stack_before_else p'" "pp_stack ns5 = pp_stack ns"
    using pp_endif [OF assms(4-6), of ns4 p' "pp_stack ns"] p' assms(10,11) by simp_all
  with p p' show ?thesis by simp
qed

theorem branches_of_conditional_witness:
  "\<exists>ns3 ns5. ns3 = UpdatePreprocessor ''#else'' (UpdatePreprocessor ''#if A'' NestingState_init) \<and>
    ns5 = UpdatePreprocessor ''#endif'' ns3 \<and> anonymous (stack ns3) = [] \<and> pp_stack ns5 = []"
proof -
  have "matches re_pp_if ''#if A''" "matches re_pp_else ''#else''" "\<not> matches re_pp_if ''#else''"
    "matches re_pp_endif ''#endif''" "\<not> matches re_pp_else ''#endif''" "\<not> matches re_pp_if ''#endif''"
    by code_simp+
  from branches_of_conditional [OF this refl refl refl refl refl, of NestingState_init] show ?thesis
    by (simp add: NestingState_init_def anonymous_def)
qed

text \<open>C39: Braces that match on a line. When no declaration waits for its brace they leave the stack
  of blocks as it was and report nothing: what is opened on the line is closed on it. When the
  head of a class or namespace does wait, the first brace is its own: it marks the head as
  opened, and matching braces behind it leave the stack at that.\<close>

theorem braces_on_a_line:
  assumes "brace_depth 0 line = Some 0" and "CHR 0x0A \<notin> set line"
    and "\<forall>c \<in> set head. \<not> is_token c"
  shows "if SeenOpenBrace ns
    then \<exists>ns'. consume_tokens cl l line ns = ([], ns') \<and> stack ns' = stack ns
    else \<exists>ns'. consume_tokens cl l (head @ CHR ''{'' # line) ns = ([], ns') \<and>
      stack ns' = on_top (\<lambda>b. b\<lparr>seen_open_brace := True\<rparr>) (stack ns)"
proof (cases "SeenOpenBrace ns")
  case True
  with consume_balanced [of "[]" line 0 "stack ns" ns cl l] assms(1,2) show ?thesis
    by (auto simp: SeenOpenBrace_def)
next
  case False
  define ns1 where "ns1 = ns\<lparr>stack := on_top (\<lambda>b. b\<lparr>seen_open_brace := True\<rparr>) (stack ns)\<rparr>"
  have "block_token cl l (head @ CHR ''{'' # line) ''{'' ns = ([], ns1)"
    using False by (simp add: block_token_def ns1_def)
  moreover have "stack ns1 = [] \<or> seen_open_brace (hd (stack ns1))"
    by (cases "stack ns") (simp_all add: ns1_def on_top_def)
  then obtain ns' where "consume_tokens cl l line ns1 = ([], ns')" "stack ns' = stack ns1"
    using consume_balanced [of "[]" line 0 "stack ns1" ns1 cl l] assms(1,2) by auto
  ultimately show ?thesis
    using False consume_step [OF assms(3) _ assms(2), of "CHR ''{''" cl l ns]
    by (simp add: is_token_def ns1_def)
qed

theorem braces_on_a_line_witness:
  "(\<exists>ns'. consume_tokens (views []) 0 ''if (a) { b(); } else { c(); }'' NestingState_init = ([], ns') \<and>
     stack ns' = []) \<and>
   (\<exists>ns'. consume_tokens (views []) 0 '' {if (a) { b(); } else { c(); }'' (push (\<lambda>n. NamespaceInfo n None 0) NestingState_init)
      = ([], ns') \<and> map seen_open_brace (stack ns') = [True])"
  using braces_on_a_line [of "''if (a) { b(); } else { c(); }''" "'' ''" NestingState_init "views []" 0]
    braces_on_a_line [of "''if (a) { b(); } else { c(); }''" "'' ''"
      "push (\<lambda>n. NamespaceInfo n None 0) NestingState_init" "views []" 0]
  by (auto simp: SeenOpenBrace_def NestingState_init_def push_def on_top_def is_token_def NamespaceInfo_def BlockInfo_def)

text \<open>At the end of the file there is a complaint for every class and every namespace that is
  still open, and no other.\<close>

theorem completed_blocks:
  "length (CheckCompletedBlocks ns) = length (filter (\<lambda>b. is_class b \<or> is_namespace b) (stack ns))"
  using CheckCompletedBlocks_length [of ns] by (simp add: declares_def [abs_def])

section \<open>Includes\<close>

text \<open>C40: Headers in the order of the style guide are not complained about, and a system header is
  exactly when it comes behind a later section.\<close>

theorem include_order:
  "(sorted (map header_rank hs) \<longrightarrow> set (include_messages hs IncludeState_init) \<subseteq> {[]}) \<and>
   (fst (CheckNextIncludeOrder h s) \<noteq> [] \<longleftrightarrow>
     (h = C_SYS_HEADER \<and> C_SECTION < current_section s) \<or>
     (h = CPP_SYS_HEADER \<and> CPP_SECTION < current_section s)) \<and>
   current_section s \<le> current_section (snd (CheckNextIncludeOrder h s))"
proof -
  have "section_number (current_section IncludeState_init) \<le> header_rank h" for h
    by (simp add: IncludeState_init_def ResetSection_def)
  then show ?thesis
    using include_messages_sorted [of hs IncludeState_init] CheckNextIncludeOrder_message [of h s]
      CheckNextIncludeOrder_mono [of h s] by (metis prod.collapse)
qed

theorem include_order_witness:
  "set (include_messages [LIKELY_MY_HEADER, C_SYS_HEADER, CPP_SYS_HEADER, OTHER_HEADER] IncludeState_init) \<subseteq> {[]}"
  using include_order [of "[LIKELY_MY_HEADER, C_SYS_HEADER, CPP_SYS_HEADER, OTHER_HEADER]"] by simp

end
