(* ===== verification/Lint_Constructs.thy ===== *)
theory Lint_Constructs
  imports Lint_Lines
begin

text \<open>
  Two checks of \<^verbatim>\<open>tools/cpplint.py\<close>: non-standard constructs, with the rules for constructors,
  and the spacing of function calls.
\<close>

section \<open>Non-standard constructs\<close>

definition report_if :: "bool \<Rightarrow> nat \<Rightarrow> string \<Rightarrow> int \<Rightarrow> string \<Rightarrow> diag list" where
  "report_if b linenum category confidence message =
     (if b then [diag linenum category confidence message] else [])"

definition nonstandard_text :: "cleansed \<Rightarrow> nat \<Rightarrow> diag list" where
  "nonstandard_text cl linenum =
     (let line = lines cl ! linenum;
          unescaped = replace_str [CHR 0x5C, CHR 0x5C] [] line;
          code = elided cl ! linenum
      in report_if (searches re_printf_q line) linenum ''runtime/printf_format'' 3
           ''%q in format strings is deprecated.  Use %ll instead.'' @
         report_if (searches re_printf_n line) linenum ''runtime/printf_format'' 2
           ''%N$ formats are unconventional.  Try rewriting to avoid them.'' @
         report_if (searches re_undefined_escape unescaped) linenum ''build/printf_format'' 3
           ''%, [, (, and { are undefined character escapes.  Unescape them.'' @
         report_if (searches re_storage_class code) linenum ''build/storage_class'' 5
           ''Storage class (static, extern, typedef, etc) should be first.'' @
         report_if (matches re_endif_text code) linenum ''build/endif_comment'' 5
           ''Uncommented text after #endif is non-standard.  Use a comment.'' @
         report_if (matches re_inner_forward code) linenum ''build/forward_decl'' 5
           ''Inner-style forward declarations are invalid.  Remove this line.'' @
         report_if (searches re_min_max code) linenum ''build/deprecated'' 3
           ''>? and <? (max and min) operators are non-standard and deprecated.'' @
         report_if (searches re_string_member code) linenum ''runtime/member_string_references'' 2
           (''const string& members are dangerous. It is much better to use ''
           @ ''alternatives, such as pointers or simple constants.''))"

text \<open>
  An argument that was split at a comma inside angle brackets or parentheses is put together
  again. \<^verbatim>\<open>constructor_args[i + 1]\<close> may not exist, which is an exception: \<open>None\<close>.
\<close>

definition unbalanced_arg :: "string \<Rightarrow> bool" where
  "unbalanced_arg a \<longleftrightarrow> count_str ''>'' a < count_str ''<'' a \<or> count_str '')'' a < count_str ''('' a"

fun collapse_arg :: "string \<Rightarrow> string list \<Rightarrow> (string \<times> string list) option" where
  "collapse_arg a [] = (if unbalanced_arg a then None else Some (a, []))"
| "collapse_arg a (b # bs) =
     (if unbalanced_arg a then collapse_arg (a @ '','' @ b) bs else Some (a, b # bs))"

lemma collapse_arg_shorter: "collapse_arg a bs = Some (a', bs') \<Longrightarrow> length bs' \<le> length bs"
  by (induction a bs rule: collapse_arg.induct) (auto split: if_splits)

function collapse_args :: "string list \<Rightarrow> string list option" where
  "collapse_args [] = Some []"
| "collapse_args (a # as) =
     (case collapse_arg a as of
        None \<Rightarrow> None
      | Some (a, as) \<Rightarrow> map_option ((#) a) (collapse_args as))"
  by pat_completeness auto
termination
  by (relation "measure length") (auto dest: collapse_arg_shorter)

definition constructor_args :: "rmatch \<Rightarrow> string list option" where
  "constructor_args m =
     collapse_args (if grp 2 m = [] then [] else split_on (CHR '','') (grp 2 m))"

definition constructor_diags :: "nat \<Rightarrow> string \<Rightarrow> rmatch \<Rightarrow> string list \<Rightarrow> diag list" where
  "constructor_diags linenum base_classname m args =
     (let is_marked_explicit = (group 1 m \<noteq> None);
          defaulted_args = filter (contains ''='') args;
          noarg_constructor = (args = [] \<or> (length args = 1 \<and> strip (args ! 0) = ''void''));
          onearg_constructor =
            ((length args = 1 \<and> \<not> noarg_constructor) \<or>
             (1 \<le> length args \<and> \<not> noarg_constructor \<and> length args - 1 \<le> length defaulted_args));
          initializer_list_constructor =
            (onearg_constructor \<and> searches re_initializer_list (args ! 0));
          copy_constructor =
            (onearg_constructor \<and> matches (re_copy_constructor base_classname) (strip (args ! 0)))
      in if \<not> is_marked_explicit \<and> onearg_constructor \<and> \<not> initializer_list_constructor
            \<and> \<not> copy_constructor then
           if defaulted_args \<noteq> []
           then [diag linenum ''runtime/explicit'' 5
                   ''Constructors callable with one argument should be marked explicit.'']
           else [diag linenum ''runtime/explicit'' 5
                   ''Single-parameter constructors should be marked explicit.'']
         else if is_marked_explicit \<and> \<not> onearg_constructor then
           if noarg_constructor
           then [diag linenum ''runtime/explicit'' 5
                   ''Zero-parameter constructors should not be marked explicit.'']
           else [diag linenum ''runtime/explicit'' 0
                   (''Constructors that require multiple arguments should not be marked ''
           @ ''explicit.'')]
         else [])"

text \<open>\<^verbatim>\<open>name.split('::')[-1]\<close>\<close>

function after_colons :: "string \<Rightarrow> string" where
  "after_colons s =
     (case find_str ''::'' s of None \<Rightarrow> s | Some i \<Rightarrow> after_colons (drop (i + 2) s))"
  by pat_completeness auto
termination
  by (relation "measure length") (auto dest!: find_str_Some)

declare after_colons.simps [simp del]

definition CheckForNonStandardConstructs :: "cleansed \<Rightarrow> nat \<Rightarrow> nesting_state \<Rightarrow> diag list option" where
  "CheckForNonStandardConstructs cl linenum ns =
     (let ds = nonstandard_text cl linenum
      in case find is_class (stack ns) of
           None \<Rightarrow> Some ds
         | Some classinfo \<Rightarrow>
             if \<not> seen_open_brace classinfo then Some ds
             else
               let base_classname =
                 (case kind classinfo of ClassKind c \<Rightarrow> after_colons (class_name c) | _ \<Rightarrow> [])
               in case re_match (re_constructor base_classname) (elided cl ! linenum) of
                    None \<Rightarrow> Some ds
                  | Some m \<Rightarrow>
                      map_option (\<lambda>args. ds @ constructor_diags linenum base_classname m args)
                        (constructor_args m))"

section \<open>Spacing of function calls\<close>

definition function_call_text :: "string \<Rightarrow> string" where
  "function_call_text line =
     (case map_option (\<lambda>r. re_search r line)
             (find (\<lambda>r. searches r line) [re_if_call, re_for_call, re_while_call, re_switch_call]) of
        Some (Some m) \<Rightarrow> grp 1 m
      | _ \<Rightarrow> line)"

definition CheckSpacingForFunctionCall :: "cleansed \<Rightarrow> nat \<Rightarrow> diag list" where
  "CheckSpacingForFunctionCall cl linenum =
     (let line = elided cl ! linenum; fncall = function_call_text line
      in if \<not> searches re_control fncall \<and> \<not> searches re_function_reference fncall
            \<and> \<not> searches re_array_reference fncall then
           (if searches re_call_space fncall
            then [diag linenum ''whitespace/parens'' 4 ''Extra space after ( in function call'']
            else report_if (searches re_paren_space fncall) linenum ''whitespace/parens'' 2
                   ''Extra space after ('') @
           report_if (searches re_space_before_call fncall \<and> \<not> searches re_define_typedef fncall
                      \<and> \<not> searches re_function_pointer_call fncall)
             linenum ''whitespace/parens'' (if searches re_operator_word line then 0 else 4)
             ''Extra space before ( in function call'' @
           report_if (searches re_space_before_close fncall) linenum ''whitespace/parens'' 2
             (if searches re_leading_close fncall
              then ''Closing ) should be moved to the previous line'' else ''Extra space before )'')
         else [])"

end
