(* ===== verification/Lint_Spacing.thy ===== *)
theory Lint_Spacing
  imports Lint_Constructs
begin

text \<open>
  The checks of \<^verbatim>\<open>tools/cpplint.py\<close> on blank lines and on the spacing of operators,
  parentheses, commas and braces.
\<close>

section \<open>Blank lines\<close>

text \<open>\<^verbatim>\<open>elided[linenum - 1]\<close>, which for the first line is the last one.\<close>

definition prev_elided :: "cleansed \<Rightarrow> nat \<Rightarrow> string" where
  "prev_elided cl linenum = (if linenum = 0 then last (elided cl) else elided cl ! (linenum - 1))"

text \<open>Upwards from line \<open>n - 1\<close> over lines indented by six: is the next one an initializer list?\<close>

fun initializer_above :: "cleansed \<Rightarrow> nat \<Rightarrow> bool" where
  "initializer_above cl 0 = False"
| "initializer_above cl (Suc n) =
     (if matches re_indent6 (elided cl ! n) then initializer_above cl n
      else take 5 (elided cl ! n) = ''    :'')"

definition block_start_exception :: "cleansed \<Rightarrow> nat \<Rightarrow> bool" where
  "block_start_exception cl linenum =
     (let prev_line = prev_elided cl linenum
      in if matches re_indent6 prev_line then initializer_above cl (linenum - 1)
         else matches re_function_head prev_line \<or> matches re_indent4_colon prev_line)"

definition blank_line_diags :: "cleansed \<Rightarrow> nat \<Rightarrow> diag list" where
  "blank_line_diags cl linenum =
     (let raw = lines_without_raw_strings cl;
          prev_line = prev_elided cl linenum
      in (case rfind_str ''{'' prev_line of
            None \<Rightarrow> []
          | Some prevbrace \<Rightarrow>
              report_if (\<not> contains ''}'' (drop prevbrace prev_line)
                         \<and> \<not> block_start_exception cl linenum)
                linenum ''whitespace/blank_line'' 2
                (''Redundant blank line at the start of a code block should be ''
           @ ''deleted.'')) @
         (if linenum + 1 < NumLines cl then
            let next_line = raw ! (linenum + 1)
            in report_if (next_line \<noteq> [] \<and> matches re_close_brace next_line
                          \<and> \<not> contains ''} else '' next_line)
                 linenum ''whitespace/blank_line'' 3
                 ''Redundant blank line at the end of a code block should be deleted.''
          else []) @
         (case re_match re_access_label prev_line of
            None \<Rightarrow> []
          | Some m \<Rightarrow> [diag linenum ''whitespace/blank_line'' 3
              ((''Do not leave a blank line after '' @ [CHR 0x22]) @ grp 1 m @ ('':'' @ [CHR 0x22]))]))"

definition CheckSpacing :: "cleansed \<Rightarrow> nat \<Rightarrow> nesting_state \<Rightarrow> diag list" where
  "CheckSpacing cl linenum ns =
     (let raw = lines_without_raw_strings cl;
          next_line_start =
            (if linenum + 1 < NumLines cl
             then length (raw ! (linenum + 1)) - length (lstrip (raw ! (linenum + 1))) else 0);
          line = elided cl ! linenum
      in (if IsBlankLine (raw ! linenum) \<and> \<not> InNamespaceBody ns \<and> \<not> InExternC ns
          then blank_line_diags cl linenum else []) @
         CheckComment (raw ! linenum) linenum next_line_start @
         report_if (searches re_space_bracket line \<and> \<not> searches re_delete_return line)
           linenum ''whitespace/braces'' 5 ''Extra space before ['' @
         report_if (searches re_for_colon_after line \<or> searches re_for_colon_before line)
           linenum ''whitespace/forcolon'' 2
           ''Missing space around colon in range-based for loop'')"

section \<open>Operators\<close>

text \<open>
  The characters of an operator method are replaced by underscores, as long as there is one.
  What is replaced starts with a character that is not one of a word, so the number of
  characters other than underscores goes down.
\<close>

lemma run_word_end:
  assumes "st' \<in> set (run (seq [many Dot, WordB, Str w, WordB]) st)" and "w \<noteq> []" and "is_word (last w)"
  shows "\<not> word_at (next_char (ahead st'))"
proof -
  obtain st1 st2 where "st2 \<in> set (skip w st1)" "st' \<in> set (run WordB st2)"
    using assms(1) by auto
  then have "before st2 = Some (last w)" "st' = st2" "word_at (before st2) \<noteq> word_at (next_char (ahead st2))"
    using assms(2) by (auto simp: skip_def split: if_splits)
  with assms(3) show ?thesis by (simp add: word_at_def)
qed

lemma re_operator_call_groups:
  assumes "re_match re_operator_call line = Some m"
  shows "\<exists>c cs rest. grp 2 m = c # cs \<and> \<not> is_word c \<and> line = grp 1 m @ grp 2 m @ grp 3 m @ rest"
proof -
  define a where "a = seq [many Dot, WordB, Str ''operator'', WordB]"
  let ?b = "some (Set [NSpc])"
  let ?c = "seq [many (Set [Spc]), Str ''('', many Dot]"
  obtain st where st: "st \<in> set (run (seq [Bol, Grp 1 a, Grp 2 ?b, Grp 3 ?c, Eol]) (Cursor 0 None line []))"
      and m: "captures m = (0, 0, take (pos st) line) # caps st"
    using assms unfolding re_operator_call_def a_def [symmetric] by (rule re_match_run)
  have "st \<in> set (run (seq ([Bol, Grp 1 a] @ [Grp 2 ?b, Grp 3 ?c, Eol])) (Cursor 0 None line []))"
    using st by simp
  then obtain st1 where st1: "st1 \<in> set (run (seq [Bol, Grp 1 a]) (Cursor 0 None line []))"
      "st \<in> set (run (seq [Grp 2 ?b, Grp 3 ?c, Eol]) st1)"
    unfolding run_seq_append by blast
  from run_seq_pieces [OF st1(2)] obtain ws where ws: "took st1 (concat ws) st"
      "list_all2 lang [Grp 2 ?b, Grp 3 ?c, Eol] ws"
      "caps st = seq_caps [Grp 2 ?b, Grp 3 ?c, Eol] (pos st1) ws (caps st1)"
    by (auto simp: some_def many_def)
  then obtain w2 w3 w4 where w: "ws = [w2, w3, w4]" by (auto simp: list_all2_Cons1)
  have w2: "lang ?b w2" and w4: "w4 = []" using ws(2) by (simp_all add: w)
  obtain st0 where st0: "st0 \<in> set (run a (Cursor 0 None line []))" "ahead st1 = ahead st0"
      "caps st1 = (1, 0, take (pos st0) line) # caps st0"
    using st1(1) by auto
  have "\<not> word_at (next_char (ahead st1))"
    using run_word_end [OF st0(1) [unfolded a_def]] st0(2) by (simp add: is_word_def is_lower_def code_def)
  moreover have "ahead st1 = w2 @ w3 @ ahead st" using ws(1) by (simp add: took_def w w4)
  moreover have "w2 \<noteq> []" 
  proof
    assume "w2 = []"
    with w2 obtain vs where "w2 = concat vs" "1 \<le> length vs" "\<forall>v \<in> set vs. lang (Set [NSpc]) v"
      unfolding some_def lang.simps(8) by blast
    with \<open>w2 = []\<close> show False by (cases vs) auto
  qed
  ultimately obtain c cs where c: "w2 = c # cs" "\<not> is_word c"
    by (cases w2) (auto simp: next_char_def word_at_def)
  have "took (Cursor 0 None line []) (take (pos st0) line) st0"
    using run_moved [OF st0(1)] by (auto simp: moved_def took_def)
  then have "line = take (pos st0) line @ w2 @ w3 @ ahead st"
    using \<open>ahead st1 = w2 @ w3 @ ahead st\<close> st0(2) by (simp add: took_def)
  moreover have "grp 1 m = take (pos st0) line" "grp 2 m = w2" "grp 3 m = w3"
    using m ws(3) st0(3) by (simp_all add: w grp_def group_def)
  ultimately show ?thesis using c by auto
qed

definition mask_once :: "rmatch \<Rightarrow> string" where
  "mask_once m = grp 1 m @ replicate (length (grp 2 m)) (CHR ''_'') @ grp 3 m"

function mask_operators :: "string \<Rightarrow> string" where
  "mask_operators line =
     (case re_match re_operator_call line of
        Some m \<Rightarrow> mask_operators (mask_once m)
      | None \<Rightarrow> line)"
  by pat_completeness auto
termination
proof (relation "measure (\<lambda>line. length (filter (\<lambda>c. c \<noteq> CHR ''_'') line))", goal_cases)
  case 1
  show ?case by simp
next
  case (2 line m)
  from re_operator_call_groups [OF 2] obtain c cs rest where
      c: "grp 2 m = c # cs" "\<not> is_word c" "line = grp 1 m @ grp 2 m @ grp 3 m @ rest" by blast
  have "c \<noteq> CHR ''_''" using c(2) by (auto simp: is_word_def)
  then have "length (filter (\<lambda>c. c \<noteq> CHR ''_'') (grp 2 m)) > 0" using c(1) by simp
  moreover have "length (filter (\<lambda>c. c \<noteq> CHR ''_'') line)
      = length (filter (\<lambda>c. c \<noteq> CHR ''_'') (grp 1 m)) + length (filter (\<lambda>c. c \<noteq> CHR ''_'') (grp 2 m))
      + length (filter (\<lambda>c. c \<noteq> CHR ''_'') (grp 3 m)) + length (filter (\<lambda>c. c \<noteq> CHR ''_'') rest)"
    by (subst c(3)) simp
  ultimately show ?case by (simp add: mask_once_def)
qed

declare mask_operators.simps [simp del]

text \<open>\<^verbatim>\<open>isdigit\<close> of a \<^verbatim>\<open>unicode\<close> string takes in the superscripts.\<close>

definition is_udigits :: "string \<Rightarrow> bool" where
  "is_udigits s \<longleftrightarrow> s \<noteq> [] \<and> list_all (\<lambda>c. is_digit c \<or> code c \<in> {178, 179, 185}) s"

definition CheckOperatorSpacing :: "cleansed \<Rightarrow> nat \<Rightarrow> diag list" where
  "CheckOperatorSpacing cl linenum =
     (let line = mask_operators (elided cl ! linenum)
      in report_if (searches re_assign_tight line \<and> \<not> searches re_if_while line)
           linenum ''whitespace/operators'' 4 ''Missing spaces around ='' @
         (case re_search re_tight_operator line of
            Some m \<Rightarrow> [diag linenum ''whitespace/operators'' 3 (''Missing spaces around '' @ grp 1 m)]
          | None \<Rightarrow>
              if \<not> matches re_hash_include line then
                (case re_match re_tight_less line of
                   None \<Rightarrow> []
                 | Some m \<Rightarrow>
                     (case CloseExpression cl linenum (length (grp 1 m)) of (_, _, end_pos) \<Rightarrow>
                        report_if (end_pos = None) linenum ''whitespace/operators'' 3
                          ''Missing spaces around <'')) @
                (case re_match re_tight_greater line of
                   None \<Rightarrow> []
                 | Some m \<Rightarrow>
                     (case ReverseCloseExpression cl linenum (length (grp 1 m)) of (_, _, start_pos) \<Rightarrow>
                        report_if (start_pos = None) linenum ''whitespace/operators'' 3
                          ''Missing spaces around >''))
              else []) @
         (case re_search re_tight_shift line of
            None \<Rightarrow> []
          | Some m \<Rightarrow>
              report_if (grp 1 m \<noteq> ''('' \<and> \<not> (is_udigits (grp 1 m) \<and> is_udigits (grp 2 m))
                         \<and> \<not> (grp 1 m = ''operator'' \<and> grp 2 m = '';''))
                linenum ''whitespace/operators'' 3 ''Missing spaces around <<'') @
         report_if (searches re_shift_alpha line) linenum ''whitespace/operators'' 3
           ''Missing spaces around >>'' @
         (case re_search re_unary_space line of
            None \<Rightarrow> []
          | Some m \<Rightarrow> [diag linenum ''whitespace/operators'' 4 (''Extra space for operator '' @ grp 1 m)]))"

section \<open>Parentheses, commas and braces\<close>

definition CheckParenthesisSpacing :: "cleansed \<Rightarrow> nat \<Rightarrow> diag list" where
  "CheckParenthesisSpacing cl linenum =
     (let line = elided cl ! linenum
      in (case re_search re_keyword_paren line of
            None \<Rightarrow> []
          | Some m \<Rightarrow> [diag linenum ''whitespace/parens'' 5 (''Missing space before ( in '' @ grp 1 m)]) @
         (case re_search re_paren_sides line of
            None \<Rightarrow> []
          | Some m \<Rightarrow>
              report_if
                (length (grp 2 m) \<noteq> length (grp 4 m) \<and>
                 \<not> ((grp 3 m = '';'' \<and> length (grp 2 m) = 1 + length (grp 4 m)) \<or>
                    (grp 2 m = [] \<and> searches re_for_empty line)))
                linenum ''whitespace/parens'' 5 (''Mismatching spaces inside () in '' @ grp 1 m) @
              report_if (length (grp 2 m) \<notin> {0, 1}) linenum ''whitespace/parens'' 5
                (''Should have zero or one spaces inside ( and ) in '' @ grp 1 m)))"

definition CheckCommaSpacing :: "cleansed \<Rightarrow> nat \<Rightarrow> diag list" where
  "CheckCommaSpacing cl linenum =
     (let line = elided cl ! linenum
      in report_if (searches re_comma_tight (re_sub re_operator_comma (\<lambda>_. ''F('') line)
                    \<and> searches re_comma_tight (lines_without_raw_strings cl ! linenum))
           linenum ''whitespace/comma'' 3 ''Missing space after ,'' @
         report_if (searches re_semicolon_tight line) linenum ''whitespace/semicolon'' 3
           ''Missing space after ;'')"

definition CheckBracesSpacing :: "cleansed \<Rightarrow> nat \<Rightarrow> diag list" where
  "CheckBracesSpacing cl linenum =
     (let line = elided cl ! linenum
      in (case re_match re_tight_brace line of
            None \<Rightarrow> []
          | Some m \<Rightarrow>
              (case CloseExpression cl linenum (length (grp 1 m)) of (endline, endlinenum, endpos) \<Rightarrow>
                 let trailing_text =
                   (case endpos of None \<Rightarrow> [] | Some p \<Rightarrow> drop p endline) @
                   concat (map (\<lambda>offset. elided cl ! offset)
                     [endlinenum + 1..<min (endlinenum + 3) (NumLines cl - 1)])
                 in report_if (\<not> matches re_brace_trailer trailing_text) linenum
                      ''whitespace/braces'' 5 ''Missing space before {'')) @
         report_if (searches re_brace_else line) linenum ''whitespace/braces'' 5
           ''Missing space before else'' @
         (if searches re_colon_semicolon line
          then [diag linenum ''whitespace/semicolon'' 5
                  ''Semicolon defining empty statement. Use {} instead.'']
          else if searches re_only_semicolon line
          then [diag linenum ''whitespace/semicolon'' 5
                  (''Line contains only semicolon. If this should be an empty ''
           @ ''statement, use {} instead.'')]
          else report_if (searches re_space_semicolon line \<and> \<not> searches re_for_word line)
                 linenum ''whitespace/semicolon'' 5
                 (''Extra space before last semicolon. If this should be an empty ''
           @ ''statement, use {} instead.'')))"

end
