(* ===== verification/Lint_RValue.thy ===== *)
theory Lint_RValue
  imports Lint_Spacing
begin

text \<open>
  Rvalue references in \<^verbatim>\<open>tools/cpplint.py\<close>: whether what stands before \<^verbatim>\<open>&&\<close> is a type, and
  whether a rvalue reference is allowed where it stands.
\<close>

section \<open>Types\<close>

definition IsDecltype :: "cleansed \<Rightarrow> nat \<Rightarrow> nat \<Rightarrow> bool" where
  "IsDecltype cl linenum column =
     (case ReverseCloseExpression cl linenum column of
        (line, _, Some start_col) \<Rightarrow> searches re_decltype_end (take start_col line)
      | (_, _, None) \<Rightarrow> False)"

definition IsTemplateParameterList :: "cleansed \<Rightarrow> nat \<Rightarrow> nat \<Rightarrow> bool" where
  "IsTemplateParameterList cl linenum column =
     (case ReverseCloseExpression cl linenum column of
        (_, startline, Some startpos) \<Rightarrow>
          searches re_template_end (take startpos (elided cl ! startline))
      | (_, _, None) \<Rightarrow> False)"

text \<open>From the text before the type backwards to the last symbol, and the line it is on.\<close>

fun find_symbol :: "cleansed \<Rightarrow> nat \<Rightarrow> string \<Rightarrow> (nat \<times> rmatch) option" where
  "find_symbol cl 0 line = map_option (Pair 0) (re_match re_last_symbol line)"
| "find_symbol cl (Suc start) line =
     (case re_match re_last_symbol line of
        Some m \<Rightarrow> Some (Suc start, m)
      | None \<Rightarrow> find_symbol cl start (elided cl ! start))"

text \<open>A semicolon before the brace that closes the block: the answer, or the depth reached.\<close>

fun semicolon_first :: "nat \<Rightarrow> string \<Rightarrow> bool + nat" where
  "semicolon_first depth [] = Inr depth"
| "semicolon_first depth (c # cs) =
     (if c = CHR '';'' then Inl True
      else if c = CHR ''{'' then semicolon_first (depth + 1) cs
      else if c = CHR ''}'' then
        if depth = 1 then Inl False else semicolon_first (depth - 1) cs
      else semicolon_first depth cs)"

fun semicolon_first_lines :: "nat \<Rightarrow> string list \<Rightarrow> bool" where
  "semicolon_first_lines depth [] = False"
| "semicolon_first_lines depth (l # ls) =
     (case semicolon_first depth l of Inl b \<Rightarrow> b | Inr depth \<Rightarrow> semicolon_first_lines depth ls)"

text \<open>
  An opening parenthesis before the type: the answer, or the column of the return type that
  remains to be looked at.
\<close>

definition rvalue_in_parens :: "nesting_state \<Rightarrow> string \<Rightarrow> string \<Rightarrow> bool + nat" where
  "rvalue_in_parens ns prefix before_text =
     (if searches re_type_context before_text then Inl True
      else if searches re_expression_context before_text then Inl False
      else case re_match re_return_type_name before_text of
        Some match_func \<Rightarrow>
          if searches re_explicit_inline_end (grp 1 match_func) then Inl True
          else if (case re_match re_implicit_constructor prefix of
                     Some m \<Rightarrow> grp 1 m = grp 2 m | None \<Rightarrow> False) then Inl True
          else Inr (length (grp 1 match_func))
      | None \<Rightarrow> Inl (\<not> (case previous_stack_top ns of Some b \<Rightarrow> IsBlockInfo b | None \<Rightarrow> False)))"

definition rvalue_after_symbol ::
  "cleansed \<Rightarrow> nesting_state \<Rightarrow> string \<Rightarrow> nat \<Rightarrow> rmatch \<Rightarrow> bool + nat" where
  "rvalue_after_symbol cl ns prefix start match_symbol =
     (let symbol = grp 2 match_symbol; before_text = grp 1 match_symbol
      in if symbol = ''}'' then Inl True
         else if symbol = '';'' then
           Inl (\<not> searches re_for_init
             (concat (map (\<lambda>i. elided cl ! i) [start - 6 + 1..<start]) @ before_text))
         else if symbol = ''{'' then
           Inl (semicolon_first_lines 1
             (take (length before_text + 1) (elided cl ! start)
              # map (\<lambda>i. elided cl ! i) [start + 1..<NumLines cl]))
         else if symbol = ''('' then rvalue_in_parens ns prefix before_text
         else if symbol = ''>'' then Inl (IsTemplateParameterList cl start (length before_text))
         else Inl False)"

definition TYPE_TOKENS :: "string list" where
  "TYPE_TOKENS =
     [''char'', ''char16_t'', ''char32_t'', ''wchar_t'', ''bool'', ''short'', ''int'', ''long'',
      ''signed'', ''unsigned'', ''float'', ''double'', ''void'', ''auto'', ''>'', ''*'', ''&'']"

definition rvalue_step :: "cleansed \<Rightarrow> nesting_state \<Rightarrow> nat \<Rightarrow> nat \<Rightarrow> bool + nat" where
  "rvalue_step cl ns linenum column =
     (let prefix = take column (elided cl ! linenum)
      in case re_match re_type_token prefix of
           None \<Rightarrow> Inl False
         | Some m \<Rightarrow>
             if matches re_rvalue_suffix (drop column (elided cl ! linenum)) then Inl True
             else if grp 2 m \<in> set TYPE_TOKENS then Inl True
             else if grp 2 m = '')''
             then Inl (IsDecltype cl linenum (length (grp 1 m) + length (grp 2 m) - 1))
             else if searches re_cast_or_word (grp 1 m) then Inl True
             else case find_symbol cl linenum (grp 1 m) of
                    None \<Rightarrow> Inl True
                  | Some (start, match_symbol) \<Rightarrow>
                      rvalue_after_symbol cl ns prefix start match_symbol)"

text \<open>
  The column of the return type may belong to an earlier line, but is looked up on the same
  line again; the recursion need not end, and not returning is \<open>None\<close>.
\<close>

partial_function (option) IsRValueType ::
  "cleansed \<Rightarrow> nesting_state \<Rightarrow> nat \<Rightarrow> nat \<Rightarrow> bool option" where
  "IsRValueType cl ns linenum column =
     (case rvalue_step cl ns linenum column of
        Inl b \<Rightarrow> Some b
      | Inr column \<Rightarrow> IsRValueType cl ns linenum column)"

section \<open>Where they are allowed\<close>

definition IsDeletedOrDefault :: "cleansed \<Rightarrow> nat \<Rightarrow> bool" where
  "IsDeletedOrDefault cl linenum =
     (case find_str ''('' (elided cl ! linenum) of
        None \<Rightarrow> False
      | Some open_paren \<Rightarrow>
          (case CloseExpression cl linenum open_paren of
             (close_line, _, Some close_paren) \<Rightarrow>
               matches re_deleted_default (drop close_paren close_line)
           | (_, _, None) \<Rightarrow> False))"

text \<open>The region marked by \<^verbatim>\<open>PUSH\<close> and \<^verbatim>\<open>POP\<close>; \<open>None\<close> when no mark decides.\<close>

fun marked_region :: "cleansed \<Rightarrow> nat \<Rightarrow> nat list \<Rightarrow> bool option" where
  "marked_region cl linenum [] = None"
| "marked_region cl linenum (i # is) =
     (let line = elided cl ! i
      in if matches re_allow_rvalue line then
           if \<not> ends_with line ''PUSH'' then Some False
           else (case find (\<lambda>j. matches re_allow_rvalue (elided cl ! j)) [linenum..<NumLines cl] of
                   Some j \<Rightarrow> Some (ends_with (elided cl ! j) ''POP'')
                 | None \<Rightarrow> marked_region cl linenum is)
         else marked_region cl linenum is)"

definition IsRValueAllowed :: "cleansed \<Rightarrow> nat \<Rightarrow> bool" where
  "IsRValueAllowed cl linenum =
     (case marked_region cl linenum (rev [1..<linenum + 1]) of
        Some b \<Rightarrow> b
      | None \<Rightarrow>
          let line = elided cl ! linenum
          in if searches re_operator_assign line then IsDeletedOrDefault cl linenum
             else if (case re_match re_qualified_constructor line of
                        Some m \<Rightarrow> grp 1 m = grp 2 m | None \<Rightarrow> False)
             then IsDeletedOrDefault cl linenum
             else if searches re_explicit_inline line then IsDeletedOrDefault cl linenum
             else if matches re_plain_constructor line then
               let previous_line = (if 0 < linenum then elided cl ! (linenum - 1) else ''ReturnType'')
               in if matches re_blank previous_line \<or> searches re_statement_end previous_line
                  then IsDeletedOrDefault cl linenum else False
             else False)"

definition CheckRValueReference :: "cleansed \<Rightarrow> nat \<Rightarrow> nesting_state \<Rightarrow> diag list option" where
  "CheckRValueReference cl linenum ns =
     (let line = elided cl ! linenum
      in case (case re_match re_and_tight_left line of
                 None \<Rightarrow> re_match re_and_tight_right line | Some m \<Rightarrow> Some m) of
           None \<Rightarrow> Some []
         | Some m \<Rightarrow>
             if contains ''(&&)'' line \<or> searches re_operator_end_word (grp 1 m) then Some []
             else
               map_option (\<lambda>is_type.
                 if is_type then
                   report_if (\<not> IsRValueAllowed cl linenum) linenum ''build/c++11'' 3
                     ''RValue references are an unapproved C++ feature.''
                 else [diag linenum ''whitespace/operators'' 3 ''Missing spaces around &&''])
               (IsRValueType cl ns linenum (length (grp 1 m))))"

section \<open>The recursion\<close>

lemma IsRValueType_loops:
  assumes "rvalue_step cl ns linenum column = Inr column"
  shows "IsRValueType cl ns linenum column = None"
proof -
  have "(cl', ns', l, c) \<noteq> (cl, ns, linenum, column)" if "IsRValueType cl' ns' l c = Some b" for cl' ns' l c b
    by (rule IsRValueType.raw_induct [where P = "\<lambda>cl' ns' l c b. (cl', ns', l, c) \<noteq> (cl, ns, linenum, column)",
          OF _ that])
       (use assms in \<open>auto split: sum.splits\<close>)
  from this [of cl ns linenum column] show ?thesis
    by (cases "IsRValueType cl ns linenum column") simp_all
qed

lemma re_last_symbol_length:
  "re_match re_last_symbol line = Some m \<Longrightarrow> length (grp 1 m) < length line"
proof -
  assume m: "re_match re_last_symbol line = Some m"
  obtain ws rest where ws: "line = concat ws @ rest"
      "list_all2 lang [Bol, Grp 1 (many Dot), Grp 2 (NSet [Wrd, Spc, C (CHR '','')]),
        many (Set [Wrd, Spc, C (CHR '','')]), Eol] ws"
      "captures m = (0, 0, concat ws) # seq_caps [Bol, Grp 1 (many Dot),
        Grp 2 (NSet [Wrd, Spc, C (CHR '','')]), many (Set [Wrd, Spc, C (CHR '','')]), Eol] 0 ws []"
    using m unfolding re_last_symbol_def by (rule re_match_pieces) (simp_all add: many_def)
  from ws(2) obtain w1 c w3 where "ws = [[], w1, [c], w3, []]" by (auto simp: list_all2_Cons1)
  with ws show ?thesis by (simp add: grp_def group_def)
qed

lemma re_type_token_length:
  "re_match re_type_token line = Some m \<Longrightarrow> length (grp 1 m) \<le> length line"
proof -
  let ?t = "alts [seq [WordB, some (Set [Wrd])], Set [C (CHR ''>''), C (CHR ''*''), C (CHR '')''), C (CHR ''&'')]]"
  assume m: "re_match re_type_token line = Some m"
  obtain ws rest where ws: "line = concat ws @ rest"
      "list_all2 lang [Bol, Grp 1 (many Dot), Grp 2 ?t, many (Set [Spc]), Eol] ws"
      "captures m = (0, 0, concat ws) # seq_caps [Bol, Grp 1 (many Dot), Grp 2 ?t, many (Set [Spc]), Eol] 0 ws []"
    using m unfolding re_type_token_def by (rule re_match_pieces) (simp_all add: many_def some_def)
  from ws(2) obtain w1 w2 w3 where "ws = [[], w1, w2, w3, []]" by (auto simp: list_all2_Cons1)
  with ws show ?thesis by (simp add: grp_def group_def)
qed

lemma find_symbol_length:
  assumes "find_symbol cl linenum line = Some (linenum, m)"
  shows "length (grp 1 m) < length line"
proof (cases "re_match re_last_symbol line")
  case None
  have "start \<le> n" if "find_symbol cl n s = Some (start, m)" for n s start
    using that by (induction cl n s rule: find_symbol.induct) (auto split: option.splits)
  then have "find_symbol cl n s \<noteq> Some (Suc n, m)" for n s by fastforce
  with None assms show ?thesis by (cases linenum) auto
next
  case (Some m')
  with assms have "m' = m" by (cases linenum) auto
  with Some re_last_symbol_length show ?thesis by blast
qed

lemma re_return_type_name_length:
  "re_match re_return_type_name line = Some m \<Longrightarrow> length (grp 1 m) < length line"
proof -
  let ?rs = "[Bol, Grp 1 (many Dot), some (Set [Spc]), Set [Wrd], many (alts [Set [Wrd],
    Str ''::'']), opt (seq [Str ''<'', many (NSet [C (CHR ''<''), C (CHR ''>'')]),
    Str ''>'']), many (Set [Spc]), Eol]"
  assume m: "re_match re_return_type_name line = Some m"
  obtain ws rest where ws: "line = concat ws @ rest" "list_all2 lang ?rs ws"
      "captures m = (0, 0, concat ws) # seq_caps ?rs 0 ws []"
    using m unfolding re_return_type_name_def by (rule re_match_pieces) simp_all
  from ws(2) obtain w1 w2 c w3 w4 w5 where "ws = [[], w1, w2, [c], w3, w4, w5, []]"
    by (auto simp: list_all2_Cons1)
  with ws show ?thesis by (simp add: grp_def group_def)
qed

text \<open>While the symbol is on the line itself the column goes down.\<close>

lemma rvalue_step_less:
  assumes step: "rvalue_step cl ns linenum column = Inr column'"
    and here: "\<And>m start sym. re_match re_type_token (take column (elided cl ! linenum)) = Some m \<Longrightarrow>
      find_symbol cl linenum (grp 1 m) = Some (start, sym) \<Longrightarrow> start = linenum"
  shows "column' < column"
proof -
  obtain m start sym where m: "re_match re_type_token (take column (elided cl ! linenum)) = Some m"
      "find_symbol cl linenum (grp 1 m) = Some (start, sym)"
      "rvalue_after_symbol cl ns (take column (elided cl ! linenum)) start sym = Inr column'"
    using step by (auto simp: rvalue_step_def Let_def split: option.splits if_splits prod.splits)
  then obtain f where f: "re_match re_return_type_name (grp 1 sym) = Some f" "column' = length (grp 1 f)"
    by (auto simp: rvalue_after_symbol_def rvalue_in_parens_def Let_def split: option.splits if_splits)
  have "start = linenum" using here m by blast
  with m(2) have "length (grp 1 sym) < length (grp 1 m)" using find_symbol_length by blast
  moreover have "length (grp 1 m) \<le> column" using re_type_token_length [OF m(1)] by simp
  ultimately show ?thesis using re_return_type_name_length [OF f(1)] f(2) by simp
qed

lemma IsRValueType_returns:
  assumes "\<And>c m start sym. re_match re_type_token (take c (elided cl ! linenum)) = Some m \<Longrightarrow>
      find_symbol cl linenum (grp 1 m) = Some (start, sym) \<Longrightarrow> start = linenum"
  shows "\<exists>b. IsRValueType cl ns linenum column = Some b"
proof (induction column rule: less_induct)
  case (less column)
  show ?case
  proof (cases "rvalue_step cl ns linenum column")
    case (Inl b)
    then show ?thesis by (simp add: IsRValueType.simps [of cl ns linenum column])
  next
    case (Inr column')
    with rvalue_step_less [OF Inr assms] less.IH show ?thesis
      by (simp add: IsRValueType.simps [of cl ns linenum column])
  qed
qed

end
