(* ===== verification/Lint_Braces.thy ===== *)
theory Lint_Braces
  imports Lint_RValue
begin

text \<open>
  The checks of \<^verbatim>\<open>tools/cpplint.py\<close> on braces, on semicolons behind blocks, and on the
  \<^verbatim>\<open>CHECK\<close> macros that have a more specific form.
\<close>

section \<open>Braces\<close>

text \<open>\<^verbatim>\<open>s[pos:]\<close>, where the position \<^verbatim>\<open>-1\<close> stands for the last character.\<close>

definition from_pos :: "nat option \<Rightarrow> string \<Rightarrow> string" where
  "from_pos p s = (case p of Some p \<Rightarrow> drop p s | None \<Rightarrow> drop (length s - 1) s)"

definition brace_placement :: "cleansed \<Rightarrow> nat \<Rightarrow> diag list" where
  "brace_placement cl linenum =
     (let line = elided cl ! linenum; prevline = fst (GetPreviousNonBlankLine cl linenum)
      in report_if (matches re_lone_brace line \<and> \<not> searches re_continues prevline
                    \<and> \<not> matches re_hash prevline)
           linenum ''whitespace/braces'' 4
           ''{ should almost always be at the end of the previous line'' @
         report_if (matches re_else_start line \<and> matches re_lone_close prevline)
           linenum ''whitespace/newline'' 4
           ''An else should appear on the same line as the preceding }'')"

text \<open>The parenthesis behind the first \<^verbatim>\<open>else if\<close>.\<close>

definition else_if_paren :: "string \<Rightarrow> nat option" where
  "else_if_paren line =
     (case find_str ''else if'' line of
        None \<Rightarrow> find_str ''('' (drop (length line - 1) line)
      | Some p \<Rightarrow> map_option (\<lambda>q. p + q) (find_str ''('' (drop p line)))"

definition else_braces :: "cleansed \<Rightarrow> nat \<Rightarrow> diag list" where
  "else_braces cl linenum =
     (let line = elided cl ! linenum;
          message = ''If an else has a brace on one side, it should have it on both''
      in if searches re_else_if_paren line then
           (case else_if_paren line of
              None \<Rightarrow> []
            | Some p \<Rightarrow>
                if 0 < p then
                  (case CloseExpression cl linenum p of (endline, _, endpos) \<Rightarrow>
                     report_if (searches re_brace_else_if line \<noteq> contains ''{'' (from_pos endpos endline))
                       linenum ''readability/braces'' 5 message)
                else [])
         else report_if (searches re_brace_else_end line \<or> matches re_else_brace line)
                linenum ''readability/braces'' 5 message)"

definition one_line_clauses :: "cleansed \<Rightarrow> nat \<Rightarrow> diag list" where
  "one_line_clauses cl linenum =
     (let line = elided cl ! linenum
      in report_if (searches re_else_clause line \<and> \<not> searches re_else_if_word line)
           linenum ''whitespace/newline'' 4
           ''Else clause should never be on same line as else (use 2 lines)'' @
         report_if (matches re_do_clause line) linenum ''whitespace/newline'' 4
           ''do/while clauses should not be on a single line'')"

text \<open>The line with the first semicolon from a position on.\<close>

definition semicolon_line :: "cleansed \<Rightarrow> nat \<Rightarrow> nat option \<Rightarrow> nat option" where
  "semicolon_line cl n p =
     (if n < length (elided cl) then
        if contains '';'' (from_pos p (elided cl ! n)) then Some n
        else find (\<lambda>i. contains '';'' (elided cl ! i)) [n + 1..<length (elided cl)]
      else None)"

definition statement_diags :: "cleansed \<Rightarrow> nat \<Rightarrow> bool \<Rightarrow> nat \<Rightarrow> diag list" where
  "statement_diags cl linenum is_if endlinenum =
     (let if_indent = GetIndentLevel (elided cl ! linenum);
          endline = elided cl ! endlinenum;
          endpos = find_str '';'' endline;
          many_statements = ''If/else bodies with multiple statements require braces''
      in if \<not> matches re_statement_tail (from_pos endpos endline) then
           report_if (\<not> matches re_lambda_statement endline)
             linenum ''readability/braces'' 4 many_statements
         else if endlinenum < length (elided cl) - 1 then
           let next_line = elided cl ! (endlinenum + 1); next_indent = GetIndentLevel next_line
           in if is_if \<and> matches re_else_line next_line \<and> next_indent \<noteq> if_indent
              then [diag linenum ''readability/braces'' 4
                      (''Else clause should be indented at the same level as if. Ambiguous ''
           @ ''nested if/else chains require braces.'')]
              else report_if (if_indent < next_indent) linenum ''readability/braces'' 4 many_statements
         else [])"

definition single_statement :: "cleansed \<Rightarrow> nat \<Rightarrow> diag list" where
  "single_statement cl linenum =
     (let line = elided cl ! linenum
      in case re_search re_if_else line of
           None \<Rightarrow> []
         | Some if_else_match \<Rightarrow>
             if matches re_hash line then []
             else
               let if_match = re_search re_if_paren line;
                   (endline, endlinenum, endpos) =
                     (case if_match of
                        None \<Rightarrow> (line, linenum, Some (m_end 0 if_else_match))
                      | Some m \<Rightarrow> CloseExpression cl linenum (m_end 0 m - 1));
                   rest = from_pos endpos endline
               in if \<not> matches re_then_brace rest
                     \<and> \<not> (matches re_only_space rest \<and> endlinenum < length (elided cl) - 1
                          \<and> matches re_then_brace (elided cl ! (endlinenum + 1)))
                  then case semicolon_line cl endlinenum endpos of
                         None \<Rightarrow> []
                       | Some n \<Rightarrow> statement_diags cl linenum (if_match \<noteq> None) n
                  else [])"

definition CheckBraces :: "cleansed \<Rightarrow> nat \<Rightarrow> diag list" where
  "CheckBraces cl linenum =
     brace_placement cl linenum @ else_braces cl linenum @ one_line_clauses cl linenum @
     single_statement cl linenum"

section \<open>Semicolons behind blocks\<close>

definition SAFE_MACROS :: "string list" where
  "SAFE_MACROS =
     [''TEST'', ''TEST_F'', ''MATCHER'', ''MATCHER_P'', ''TYPED_TEST'',
      ''EXCLUSIVE_LOCKS_REQUIRED'', ''SHARED_LOCKS_REQUIRED'', ''LOCKS_EXCLUDED'',
      ''INTERFACE_DEF'']"

text \<open>A block behind a closing parenthesis that may be a macro, a literal or a lambda.\<close>

definition exempt_prefix :: "string \<Rightarrow> bool" where
  "exempt_prefix line_prefix \<longleftrightarrow>
     (case re_search re_macro_end line_prefix of
        Some macro \<Rightarrow> grp 1 macro \<notin> set SAFE_MACROS | None \<Rightarrow> False) \<or>
     (case re_match re_lambda_end line_prefix of
        Some func \<Rightarrow> \<not> searches re_operator_index (grp 1 func) | None \<Rightarrow> False) \<or>
     searches re_assigned line_prefix"

definition block_behind_paren :: "cleansed \<Rightarrow> nat \<Rightarrow> rmatch \<Rightarrow> bool" where
  "block_behind_paren cl linenum m =
     (case ReverseCloseExpression cl linenum (the (rfind_str '')'' (grp 1 m))) of
        (paren_line, paren_linenum, paren_pos) \<Rightarrow>
          \<not> (case paren_pos of Some p \<Rightarrow> exempt_prefix (take p paren_line) | None \<Rightarrow> False) \<and>
          \<not> (1 < paren_linenum \<and> searches re_bracket_end (elided cl ! (paren_linenum - 1))))"

text \<open>Where the block opens whose closing brace should not be followed by a semicolon.\<close>

definition plain_block_start :: "cleansed \<Rightarrow> nat \<Rightarrow> nat option" where
  "plain_block_start cl linenum =
     (let line = elided cl ! linenum
      in map_option (\<lambda>m. length (grp 1 m))
           (case re_match re_paren_block line of
              Some m \<Rightarrow> if block_behind_paren cl linenum m then Some m else None
            | None \<Rightarrow>
                (case re_match re_else_block line of
                   Some m \<Rightarrow> Some m
                 | None \<Rightarrow>
                     let prevline = fst (GetPreviousNonBlankLine cl linenum)
                     in if prevline \<noteq> [] \<and> searches re_block_end prevline
                        then re_match re_block_start line else None)))"

definition CheckTrailingSemicolon :: "cleansed \<Rightarrow> nat \<Rightarrow> diag list" where
  "CheckTrailingSemicolon cl linenum =
     (case plain_block_start cl linenum of
        None \<Rightarrow> []
      | Some p \<Rightarrow>
          (case CloseExpression cl linenum p of
             (endline, endlinenum, Some endpos) \<Rightarrow>
               report_if (matches re_then_semicolon (drop endpos endline))
                 endlinenum ''readability/braces'' 4
                 (''You don'' @ [CHR 0x27] @ ''t need a ; after a }'')
           | (_, _, None) \<Rightarrow> []))"

section \<open>Check macros\<close>

definition CHECK_MACROS :: "string list" where
  "CHECK_MACROS =
     [''DCHECK'', ''CHECK'', ''EXPECT_TRUE_M'', ''EXPECT_TRUE'', ''ASSERT_TRUE_M'', ''ASSERT_TRUE'',
      ''EXPECT_FALSE_M'', ''EXPECT_FALSE'', ''ASSERT_FALSE_M'', ''ASSERT_FALSE'']"

text \<open>What comes before and behind the relation in the replacement of a macro.\<close>

definition TRUE_MACROS :: "(string \<times> string \<times> string) list" where
  "TRUE_MACROS =
     [(''DCHECK'', ''DCHECK_'', []), (''CHECK'', ''CHECK_'', []), (''EXPECT_TRUE'', ''EXPECT_'', []),
      (''ASSERT_TRUE'', ''ASSERT_'', []), (''EXPECT_TRUE_M'', ''EXPECT_'', ''_M''),
      (''ASSERT_TRUE_M'', ''ASSERT_'', ''_M'')]"

definition FALSE_MACROS :: "(string \<times> string \<times> string) list" where
  "FALSE_MACROS =
     [(''EXPECT_FALSE'', ''EXPECT_'', []), (''ASSERT_FALSE'', ''ASSERT_'', []),
      (''EXPECT_FALSE_M'', ''EXPECT_'', ''_M''), (''ASSERT_FALSE_M'', ''ASSERT_'', ''_M'')]"

definition RELATIONS :: "(string \<times> string) list" where
  "RELATIONS =
     [(''=='', ''EQ''), (''!='', ''NE''), (''>='', ''GE''), (''>'', ''GT''), (''<='', ''LE''),
      (''<'', ''LT'')]"

definition INVERSE_RELATIONS :: "(string \<times> string) list" where
  "INVERSE_RELATIONS =
     [(''=='', ''NE''), (''!='', ''EQ''), (''>='', ''LT''), (''>'', ''LE''), (''<='', ''GT''),
      (''<'', ''GE'')]"

definition CHECK_REPLACEMENT :: "string \<Rightarrow> string \<Rightarrow> string option" where
  "CHECK_REPLACEMENT check_macro operator =
     (case map_of TRUE_MACROS check_macro of
        Some (pre, post) \<Rightarrow> map_option (\<lambda>r. pre @ r @ post) (map_of RELATIONS operator)
      | None \<Rightarrow>
          (case map_of FALSE_MACROS check_macro of
             Some (pre, post) \<Rightarrow> map_option (\<lambda>r. pre @ r @ post) (map_of INVERSE_RELATIONS operator)
           | None \<Rightarrow> None))"

fun find_macro :: "string list \<Rightarrow> string \<Rightarrow> (string \<times> nat) option" where
  "find_macro [] line = None"
| "find_macro (macro # macros) line =
     (if contains macro line then
        case re_match (re_check_macro macro) line of
          None \<Rightarrow> find_macro macros line
        | Some m \<Rightarrow> Some (macro, length (grp 1 m))
      else find_macro macros line)"

definition FindCheckMacro :: "string \<Rightarrow> (string \<times> nat) option" where
  "FindCheckMacro line = find_macro CHECK_MACROS line"

lemma re_check_operator_shorter:
  assumes "re_match re_check_operator s = Some m"
  shows "length (grp 2 m) < length s"
proof -
  obtain rs where rs: "re_check_operator = seq (rs @ [Grp 2 (many Dot), Eol])"
    and ne: "\<And>u. lang (seq rs) u \<Longrightarrow> u \<noteq> []"
  proof
    show "re_check_operator = seq (([Bol, many (Set [Spc]), Grp 1 (alts [Str ''<<'', Str ''<<='',
      Str ''>>'', Str ''>>='', Str ''->*'', Str ''->'', Str ''&&'', Str ''||'', Str ''=='', Str ''!='',
      Str ''>='', Str ''>'', Str ''<='', Str ''<'', Str ''('']) ]) @ [Grp 2 (many Dot), Eol])"
      by (simp add: re_check_operator_def)
  qed auto
  have "groups (many Dot) = {}" "2 \<noteq> (0 :: nat)" by simp_all
  with assms rs obtain u rest where "s = u @ grp 2 m @ rest" "lang (seq rs) u"
    using re_match_last_group by metis
  with ne [of u] show ?thesis by auto
qed

lemma re_check_operand_shorter:
  assumes "re_match re_check_operand s = Some m"
  shows "length (grp 2 m) < length s"
proof -
  obtain ws rest where "s = concat ws @ rest" "captures m = (0, 0, concat ws) # seq_caps
      [Bol, Grp 1 (some (NSet [C (CHR ''-''), C (CHR ''=''), C (CHR ''!''),
    C (CHR ''<''), C (CHR ''>''), C (CHR ''(''), C (CHR '')''), C (CHR ''&''),
    C (CHR ''|'')])), Grp 2 (many Dot), Eol] 0 ws []"
    "list_all2 lang [Bol, Grp 1 (some (NSet [C (CHR ''-''), C (CHR ''=''), C (CHR ''!''),
    C (CHR ''<''), C (CHR ''>''), C (CHR ''(''), C (CHR '')''), C (CHR ''&''),
    C (CHR ''|'')])), Grp 2 (many Dot), Eol] ws"
    using assms unfolding re_check_operand_def by (rule re_match_pieces) (simp_all add: many_def some_def)
  moreover have "\<not> lang (some (NSet cs)) []" for cs
    using lang_some_nonempty [of "NSet cs" "[]"] by auto
  ultimately show ?thesis
    by (auto simp: list_all2_Cons1 grp_def group_def)
qed

lemma re_check_char_shorter:
  assumes "re_match re_check_char s = Some m"
  shows "length (grp 2 m) < length s"
proof -
  have "re_match (seq ([Bol, Grp 1 (seq [many (Set [Spc]), Set [NSpc]])] @ [Grp 2 (many Dot), Eol])) s = Some m"
    using assms by (simp add: re_check_char_def)
  moreover have "groups (many Dot) = {}" "2 \<noteq> (0 :: nat)" by simp_all
  ultimately obtain u rest where "s = u @ grp 2 m @ rest"
      "lang (seq [Bol, Grp 1 (seq [many (Set [Spc]), Set [NSpc]])]) u"
    using re_match_last_group by metis
  then show ?thesis by auto
qed

text \<open>
  The operands and the relation of a condition, given what has been read of the left-hand side.
  \<open>None\<close> stands for a return without a suggestion.
\<close>

function parse_check :: "string \<Rightarrow> string \<Rightarrow> (string \<times> string option \<times> string) option" where
  "parse_check lhs expression =
     (if expression = [] then Some (lhs, None, [])
      else case re_match re_check_operator expression of
        Some m \<Rightarrow>
          let token = grp 1 m; rest = grp 2 m
          in if token = ''('' then
               (case FindEndOfExpressionInLine rest 0 [CHR ''(''] of
                  Found end_pos \<Rightarrow> parse_check (lhs @ ''('' @ take end_pos rest) (drop end_pos rest)
                | _ \<Rightarrow> None)
             else if token \<in> {''&&'', ''||''} then None
             else if token \<in> {''<<'', ''<<='', ''>>'', ''>>='', ''->*'', ''->''}
             then parse_check (lhs @ token) rest
             else Some (lhs, Some token, rest)
      | None \<Rightarrow>
          (case re_match re_check_operand expression of
             Some m \<Rightarrow> parse_check (lhs @ grp 1 m) (grp 2 m)
           | None \<Rightarrow>
               (case re_match re_check_char expression of
                  Some m \<Rightarrow> parse_check (lhs @ grp 1 m) (grp 2 m)
                | None \<Rightarrow> Some (lhs, None, []))))"
  by pat_completeness auto
termination
  by (relation "measure (\<lambda>(lhs, expression). length expression)")
    (auto dest: re_check_operator_shorter re_check_operand_shorter re_check_char_shorter)

declare parse_check.simps [simp del]

definition check_expression :: "cleansed \<Rightarrow> nat \<Rightarrow> nat \<Rightarrow> string \<Rightarrow> nat \<Rightarrow> nat \<Rightarrow> string" where
  "check_expression cl linenum start_pos final_line end_line end_pos =
     (if linenum = end_line
      then drop (start_pos + 1) (take (end_pos - 1) (elided cl ! linenum))
      else drop (start_pos + 1) (elided cl ! linenum) @
        concat (map (\<lambda>i. elided cl ! i) [linenum + 1..<end_line]) @ take (end_pos - 1) final_line)"

definition check_suggestion :: "nat \<Rightarrow> string \<Rightarrow> string \<Rightarrow> diag list" where
  "check_suggestion linenum check_macro expression =
     (case parse_check [] expression of
        Some (lhs, Some operator, rhs) \<Rightarrow>
          report_if (lhs \<noteq> [] \<and> rhs \<noteq> [] \<and> \<not> contains ''&&'' rhs \<and> \<not> contains ''||'' rhs
                     \<and> (matches re_constant (strip lhs) \<or> matches re_constant (strip rhs)))
            linenum ''readability/check'' 2
            (''Consider using '' @ the (CHECK_REPLACEMENT check_macro operator) @ '' instead of ''
             @ check_macro @ ''(a '' @ operator @ '' b)'')
      | _ \<Rightarrow> [])"

definition CheckCheck :: "cleansed \<Rightarrow> nat \<Rightarrow> diag list" where
  "CheckCheck cl linenum =
     (case FindCheckMacro (elided cl ! linenum) of
        None \<Rightarrow> []
      | Some (check_macro, start_pos) \<Rightarrow>
          (case CloseExpression cl linenum start_pos of
             (final_line, end_line, Some end_pos) \<Rightarrow>
               if matches re_statement_ends (drop end_pos final_line)
               then check_suggestion linenum check_macro
                      (check_expression cl linenum start_pos final_line end_line end_pos)
               else []
           | (_, _, None) \<Rightarrow> []))"

end
