(* ===== verification/Lint_Style.thy ===== *)
theory Lint_Style
  imports Lint_Braces
begin

text \<open>
  The style rules of \<^verbatim>\<open>tools/cpplint.py\<close>: tabs, indentation, the length of a line, several
  statements on a line, and then the checks of the other theories one after the other.
\<close>

text \<open>
  \<^verbatim>\<open>unicodedata\<close> knows no wide and no combining character below 256, and none that its normal
  form changes: every character of the model is one column.
\<close>

definition GetLineWidth :: "string \<Rightarrow> nat" where
  "GetLineWidth line = sum_list (map (\<lambda>_. 1) line)"

lemma GetLineWidth_length [simp]: "GetLineWidth line = length line"
  by (induction line) (simp_all add: GetLineWidth_def)

definition initial_spaces :: "string \<Rightarrow> nat" where
  "initial_spaces line = length (takeWhile (\<lambda>c. c = CHR '' '') line)"

definition indentation_diags :: "cleansed \<Rightarrow> nat \<Rightarrow> diag list" where
  "indentation_diags cl linenum =
     (let line = lines_without_raw_strings cl ! linenum
      in report_if (contains [CHR 0x09] line) linenum ''whitespace/tab'' 1
           ''Tab found; better to use spaces'' @
         (if line \<noteq> [] \<and> is_uspace (last line)
          then [diag linenum ''whitespace/end_of_line'' 4
                  ''Line ends in whitespace.  Consider deleting these extra spaces.'']
          else report_if (initial_spaces line \<in> {1, 3}
                          \<and> \<not> matches re_scope_or_label (elided cl ! linenum)
                          \<and> \<not> (raw_lines cl ! linenum \<noteq> line \<and> matches re_empty_string_start line))
                 linenum ''whitespace/indent'' 3
                 (''Weird number of spaces at line-start.  Are you using a 2-space ''
           @ ''indent?'')))"

text \<open>\<^verbatim>\<open>int(_line_length * 1.25)\<close>: exact for lengths below \<open>2 ^ 50\<close>, rounded towards zero.\<close>

definition extended_length :: "int \<Rightarrow> int" where
  "extended_length line_length = sgn line_length * (\<bar>line_length\<bar> * 5 div 4)"

text \<open>Only the name of a header's guard is computed; that may fail to return.\<close>

definition is_header_guard :: "os \<Rightarrow> regex option \<Rightarrow> string \<Rightarrow> string \<Rightarrow> string \<Rightarrow> bool option" where
  "is_header_guard os root filename file_extension line =
     (if file_extension = ''h'' then
        map_option (\<lambda>cppvar. starts_with line (''#ifndef '' @ cppvar)
            \<or> starts_with line (''#define '' @ cppvar) \<or> starts_with line (''#endif  // '' @ cppvar))
          (GetHeaderGuardCPPVariable os root filename)
      else Some False)"

definition line_length_diags :: "int \<Rightarrow> nat \<Rightarrow> string \<Rightarrow> bool \<Rightarrow> diag list" where
  "line_length_diags line_length linenum line guard =
     (if \<not> starts_with line ''#include'' \<and> \<not> guard \<and> \<not> matches re_url_comment line
         \<and> \<not> matches re_id_comment line then
        if extended_length line_length < int (GetLineWidth line)
        then [diag linenum ''whitespace/line_length'' 4
                (''Lines should very rarely be longer than '' @ show_int (extended_length line_length)
                 @ '' characters'')]
        else report_if (line_length < int (GetLineWidth line)) linenum ''whitespace/line_length'' 2
               (''Lines should be <= '' @ show_int line_length @ '' characters long'')
      else [])"

definition many_commands :: "cleansed \<Rightarrow> nat \<Rightarrow> diag list" where
  "many_commands cl linenum =
     (let cleansed_line = elided cl ! linenum; prevline = fst (GetPreviousNonBlankLine cl linenum)
      in report_if (1 < count_str '';'' cleansed_line \<and> \<not> contains ''for'' cleansed_line
                    \<and> (\<not> contains ''for'' prevline \<or> contains '';'' prevline)
                    \<and> \<not> ((contains ''case '' cleansed_line \<or> contains ''default:'' cleansed_line)
                         \<and> contains ''break;'' cleansed_line))
           linenum ''whitespace/newline'' 0 ''More than one command on the same line'')"

text \<open>
  The whole function. \<open>None\<close>: the name of the header guard or the type before \<^verbatim>\<open>&&\<close> is not
  found in finite time.
\<close>

definition CheckStyle :: "os \<Rightarrow> regex option \<Rightarrow> int \<Rightarrow> string \<Rightarrow> cleansed \<Rightarrow> nat \<Rightarrow> string \<Rightarrow>
    nesting_state \<Rightarrow> diag list option" where
  "CheckStyle os root line_length filename cl linenum file_extension ns =
     (let line = lines_without_raw_strings cl ! linenum
      in case is_header_guard os root filename file_extension line of
           None \<Rightarrow> None
         | Some guard \<Rightarrow>
             (case CheckRValueReference cl linenum ns of
                None \<Rightarrow> None
              | Some rvalue_diags \<Rightarrow>
                  Some (indentation_diags cl linenum @
                    line_length_diags line_length linenum line guard @
                    many_commands cl linenum @
                    CheckBraces cl linenum @
                    CheckTrailingSemicolon cl linenum @
                    CheckEmptyBlockBody cl linenum @
                    CheckAccess cl linenum ns @
                    CheckSpacing cl linenum ns @
                    CheckOperatorSpacing cl linenum @
                    CheckParenthesisSpacing cl linenum @
                    CheckCommaSpacing cl linenum @
                    CheckBracesSpacing cl linenum @
                    CheckSpacingForFunctionCall cl linenum @
                    rvalue_diags @
                    CheckCheck cl linenum @
                    CheckAltTokens cl linenum @
                    (case InnermostClass ns of
                       None \<Rightarrow> []
                     | Some classinfo \<Rightarrow> CheckSectionSpacing cl classinfo linenum))))"

end
