(* ===== verification/Lint_Casts.thy ===== *)
theory Lint_Casts
  imports Lint_Style
begin

text \<open>
  The checks of \<^verbatim>\<open>tools/cpplint.py\<close> on casts and on parameters that are references.
\<close>

section \<open>Casts\<close>

definition ExpectingFunctionArgs :: "cleansed \<Rightarrow> nat \<Rightarrow> bool" where
  "ExpectingFunctionArgs cl linenum \<longleftrightarrow>
     matches re_mock_method (elided cl ! linenum) \<or>
     (2 \<le> linenum \<and>
        (matches re_mock_open_arg (elided cl ! (linenum - 1)) \<or>
         matches re_mock_open (elided cl ! (linenum - 2)) \<or>
         searches re_std_function (elided cl ! (linenum - 1))))"

text \<open>
  What comes before the cast, with up to four lines above it. The source's
  \<^verbatim>\<open>xrange(linenum - 1, max(0, linenum - 5), -1)\<close> never takes in the first line.
\<close>

definition cast_context :: "cleansed \<Rightarrow> nat \<Rightarrow> string \<Rightarrow> string" where
  "cast_context cl linenum context =
     concat (map (\<lambda>i. elided cl ! i) [max 1 (linenum - 4)..<linenum]) @ context"

text \<open>A cast without its operand: looks like a parameter without a name.\<close>

definition unnamed_parameter :: "cleansed \<Rightarrow> nat \<Rightarrow> rmatch \<Rightarrow> diag list" where
  "unnamed_parameter cl linenum m =
     (let line = elided cl ! linenum; remainder = drop (m_end 0 m) line
      in report_if (\<not> matches re_template_tail remainder
           \<and> \<not> (case re_match re_assigned_value remainder of
                   Some z \<Rightarrow> grp 1 z \<noteq> ''0'' | None \<Rightarrow> False)
           \<and> \<not> matches re_close_end (take (m_start 0 m) line)
           \<and> \<not> contains ''/*'' (raw_lines cl ! linenum))
           linenum ''readability/function'' 3 ''All parameters should be named in a function'')"

text \<open>The value returned by the source says whether there was a message.\<close>

definition CheckCStyleCast :: "cleansed \<Rightarrow> nat \<Rightarrow> string \<Rightarrow> regex \<Rightarrow> diag list" where
  "CheckCStyleCast cl linenum cast_type pattern =
     (let line = elided cl ! linenum
      in case re_search pattern line of
           None \<Rightarrow> []
         | Some m \<Rightarrow>
             let context = take (m_start 1 m - 1) line; above_context = cast_context cl linenum context
             in if matches re_sizeof_context context then []
                else if matches re_macro_context above_context then []
                else if ends_with above_context '' operator++''
                        \<or> ends_with above_context '' operator--'' then []
                else if matches re_unnamed_parameter (drop (m_end 0 m) line)
                then unnamed_parameter cl linenum m
                else [diag linenum ''readability/casting'' 4
                        (''Using C-style cast.  Use '' @ cast_type @ ''<'' @ grp 1 m @ ''>(...) instead'')])"

text \<open>A conversion written as a call. \<open>None\<close>: an array, and the function returns at once.\<close>

definition function_cast :: "cleansed \<Rightarrow> nat \<Rightarrow> diag list option" where
  "function_cast cl linenum =
     (let line = elided cl ! linenum
      in case re_search re_function_cast line of
           None \<Rightarrow> Some []
         | Some m \<Rightarrow>
             if ExpectingFunctionArgs cl linenum then Some []
             else if matches re_array_behind (grp 3 m) then None
             else Some (report_if
               (group 1 m = None
                \<and> \<not> (grp 3 m \<noteq> [] \<and>
                       (matches re_function_pointer (grp 3 m) \<or> starts_with (grp 3 m) ''(*)''))
                \<and> \<not> matches (re_using_alias (grp 2 m)) line
                \<and> \<not> searches (re_placement_new (grp 2 m)) line)
               linenum ''readability/casting'' 4
               (''Using deprecated casting style.  Use static_cast<'' @ grp 2 m @ ''>(...) instead'')))"

text \<open>
  Is it a member of the object behind the cast whose address is taken? \<^verbatim>\<open>elided[y1][x1]\<close> does
  not exist when the template arguments end the line, which is an exception: \<open>None\<close>.
\<close>

definition parenthesis_error :: "cleansed \<Rightarrow> nat \<Rightarrow> bool option" where
  "parenthesis_error cl linenum =
     (case re_match re_cast_template (elided cl ! linenum) of
        None \<Rightarrow> Some False
      | Some m \<Rightarrow>
          (case CloseExpression cl linenum (length (grp 1 m)) of
             (_, y1, Some x1) \<Rightarrow>
               if length (elided cl ! y1) \<le> x1 then None
               else if elided cl ! y1 ! x1 = CHR ''('' then
                 (case CloseExpression cl y1 x1 of
                    (_, y2, Some x2) \<Rightarrow>
                      Some (matches re_dereferenced
                        (drop x2 (elided cl ! y2) @
                         (if y2 < NumLines cl - 1 then elided cl ! (y2 + 1) else [])))
                  | (_, _, None) \<Rightarrow> Some False)
               else Some False
           | (_, _, None) \<Rightarrow> Some False))"

definition address_of_cast :: "cleansed \<Rightarrow> nat \<Rightarrow> diag list option" where
  "address_of_cast cl linenum =
     (case re_search re_address_of_cast (elided cl ! linenum) of
        None \<Rightarrow> Some []
      | Some m \<Rightarrow>
          if group 1 m = Some ''*'' then Some []
          else map_option (\<lambda>parenthesis.
            if parenthesis
            then [diag linenum ''readability/casting'' 4
              (''Are you taking an address of something dereferenced from a cast?  ''
           @ ''Wrapping the dereferenced expression in parentheses will make the ''
           @ ''binding more obvious'')]
            else [diag linenum ''runtime/casting'' 4
              (''Are you taking an address of a cast?  This is dangerous: could be ''
           @ ''a temp var.  Take the address before doing the cast, rather than ''
           @ ''after'')])
            (parenthesis_error cl linenum))"

definition CheckCasts :: "cleansed \<Rightarrow> nat \<Rightarrow> diag list option" where
  "CheckCasts cl linenum =
     (case function_cast cl linenum of
        None \<Rightarrow> Some []
      | Some ds1 \<Rightarrow>
          let ds2 = (if ExpectingFunctionArgs cl linenum then []
                     else CheckCStyleCast cl linenum ''static_cast'' re_static_cast_c);
              ds3 = CheckCStyleCast cl linenum ''const_cast'' re_const_cast_c;
              ds4 = (if ds3 \<noteq> [] then []
                     else CheckCStyleCast cl linenum ''reinterpret_cast'' re_reinterpret_cast_c)
          in map_option (\<lambda>ds5. ds1 @ ds2 @ ds3 @ ds4 @ ds5) (address_of_cast cl linenum))"

section \<open>References\<close>

definition IsDerivedFunction :: "cleansed \<Rightarrow> nat \<Rightarrow> bool" where
  "IsDerivedFunction cl linenum =
     (case find (\<lambda>i. matches re_function_open (elided cl ! i)) (rev [linenum - 9..<linenum + 1]) of
        None \<Rightarrow> False
      | Some i \<Rightarrow>
          (case re_match re_function_open (elided cl ! i) of
             None \<Rightarrow> False
           | Some m \<Rightarrow>
               (case CloseExpression cl i (length (grp 1 m)) of
                  (line, _, Some closing_paren) \<Rightarrow> searches re_override (drop closing_paren line)
                | (_, _, None) \<Rightarrow> False)))"

definition initializer_line :: "string \<Rightarrow> bool option" where
  "initializer_line line =
     (if searches re_initializer_colon line then Some True
      else if searches re_initializer_comma line then Some True
      else if searches re_definition_end line then Some False
      else None)"

text \<open>The lines from one upwards, as far as the third line of the file.\<close>

fun initializer_list_above :: "cleansed \<Rightarrow> nat \<Rightarrow> bool" where
  "initializer_list_above cl 0 = False"
| "initializer_list_above cl (Suc i) =
     (if Suc i \<le> 1 then False
      else case initializer_line (elided cl ! Suc i) of
             Some b \<Rightarrow> b | None \<Rightarrow> initializer_list_above cl i)"

definition IsInitializerList :: "cleansed \<Rightarrow> nat \<Rightarrow> bool" where
  "IsInitializerList cl linenum =
     (if linenum \<le> 1 then False
      else
        let line = elided cl ! linenum;
            line = (case re_match re_body_open line of Some m \<Rightarrow> grp 1 m | None \<Rightarrow> line)
        in case initializer_line line of
             Some b \<Rightarrow> b | None \<Rightarrow> initializer_list_above cl (linenum - 1))"

text \<open>The line, together with the lines its first type is broken over.\<close>

definition joined_type :: "cleansed \<Rightarrow> nat \<Rightarrow> string" where
  "joined_type cl linenum =
     (let line = elided cl ! linenum
      in if linenum \<le> 1 then line
         else case (if matches re_type_continued line
                    then re_search re_type_broken (elided cl ! (linenum - 1))
                    else if matches re_type_end line
                    then re_search re_type_broken_colons (elided cl ! (linenum - 1))
                    else None) of
           Some previous \<Rightarrow> grp 1 previous @ lstrip line
         | None \<Rightarrow>
             (case rfind_str ''>'' line of
                None \<Rightarrow> line
              | Some endpos \<Rightarrow>
                  (case ReverseCloseExpression cl linenum endpos of
                     (_, startline, Some _) \<Rightarrow>
                       if startline < linenum
                       then concat (map (\<lambda>i. strip (elided cl ! i)) [startline..<linenum + 1])
                       else line
                   | (_, _, None) \<Rightarrow> line)))"

text \<open>Upwards over lines that end in a comma or a parenthesis: is one of them an initializer?\<close>

fun in_initializers :: "cleansed \<Rightarrow> nat list \<Rightarrow> bool" where
  "in_initializers cl [] = False"
| "in_initializers cl (i # is) =
     (let previous_line = elided cl ! i
      in if \<not> searches re_list_continues previous_line then False
         else if matches re_colon_start previous_line then True
         else in_initializers cl is)"

definition whitelisted :: "cleansed \<Rightarrow> nat \<Rightarrow> string \<Rightarrow> bool" where
  "whitelisted cl linenum line \<longleftrightarrow>
     searches re_whitelisted line \<or>
     (\<not> searches re_open_call line \<and>
        (\<exists>i \<in> set [0..<2]. i < linenum \<and> searches re_whitelisted (elided cl ! (linenum - i - 1))))"

definition CheckForNonConstReference :: "cleansed \<Rightarrow> nat \<Rightarrow> nesting_state \<Rightarrow> diag list" where
  "CheckForNonConstReference cl linenum ns =
     (let line = joined_type cl linenum
      in if \<not> contains ''&'' (elided cl ! linenum) then []
         else if IsDerivedFunction cl linenum then []
         else if (case previous_stack_top ns of
                    Some b \<Rightarrow> \<not> (is_class b \<or> is_namespace b) | None \<Rightarrow> False) then []
         else if in_initializers cl (rev [max 1 (linenum - 9)..<linenum]) then []
         else if searches re_backslash_line line then []
         else if IsInitializerList cl linenum then []
         else if whitelisted cl linenum line then []
         else
           let decls = re_sub re_inline_body (\<lambda>_. '' '') line;
               parameters = map (grp 1) (all_matches re_ref_param decls)
           in map (\<lambda>parameter. diag linenum ''runtime/references'' 2
                ((''Is this a non-const reference? If so, make const or use a ''
           @ ''pointer: '')
                 @ re_sub re_spaces_less (\<lambda>_. ''<'') parameter))
              (filter (\<lambda>parameter. \<not> matches re_const_ref_param parameter) parameters))"

end
