(* ===== verification/Lint_Language.thy ===== *)
theory Lint_Language
  imports Lint_Casts
begin

text \<open>
  The language rules of \<^verbatim>\<open>tools/cpplint.py\<close>: text between parentheses, global strings,
  \<^verbatim>\<open>printf\<close> and its relatives, variable-length arrays, and \<^verbatim>\<open>CheckLanguage\<close>, which
  goes through the includes and these checks.
\<close>

section \<open>Text between parentheses\<close>

definition closing_of :: "char \<Rightarrow> char" where
  "closing_of c =
     (if c = CHR ''('' then CHR '')'' else if c = CHR ''{'' then CHR ''}''
      else if c = CHR ''['' then CHR '']'' else c)"

text \<open>The text up to where the last of the expected closing characters is found.\<close>

fun text_inside :: "char list \<Rightarrow> string \<Rightarrow> string option" where
  "text_inside [] s = Some []"
| "text_inside (t # ts) [] = None"
| "text_inside (t # ts) (c # cs) =
     (if c = t then
        (if ts = [] then Some [] else map_option ((#) c) (text_inside ts cs))
      else if is_closing c then None
      else if is_opening c then map_option ((#) c) (text_inside (closing_of c # t # ts) cs)
      else map_option ((#) c) (text_inside (t # ts) cs))"

text \<open>The failed \<^verbatim>\<open>assert\<close> is the outer \<open>None\<close>.\<close>

definition GetTextInside :: "string \<Rightarrow> regex \<Rightarrow> string option option" where
  "GetTextInside s start_pattern =
     (case re_search start_pattern s of
        None \<Rightarrow> Some None
      | Some m \<Rightarrow>
          let start_position = m_end 0 m
          in if start_position = 0 \<or> \<not> is_opening (s ! (start_position - 1)) then None
             else Some (text_inside [closing_of (s ! (start_position - 1))] (drop start_position s)))"

section \<open>Global objects and printf\<close>

definition CheckGlobalStatic :: "cleansed \<Rightarrow> nat \<Rightarrow> diag list" where
  "CheckGlobalStatic cl linenum =
     (let line = elided cl ! linenum;
          line = (if linenum + 1 < NumLines cl \<and> \<not> searches re_declares line
                  then line @ strip (elided cl ! (linenum + 1)) else line)
      in (case re_match re_global_string line of
            None \<Rightarrow> []
          | Some m \<Rightarrow>
              report_if (\<not> searches re_string_pointer line \<and> \<not> searches re_operator_symbol line
                         \<and> \<not> matches re_string_function (grp 3 m))
                linenum ''runtime/string'' 4
                ((''For a static/global string constant, use a C style string ''
           @ ''instead: '' @ [CHR 0x22])
                 @ grp 1 m @ ''char '' @ grp 2 m @ (''[]'' @ [CHR 0x22] @ ''.''))) @
         report_if (searches re_self_init line) linenum ''runtime/init'' 4
           ''You seem to be initializing a member variable with itself.'')"

definition CheckPrintf :: "cleansed \<Rightarrow> nat \<Rightarrow> diag list" where
  "CheckPrintf cl linenum =
     (let line = elided cl ! linenum
      in (case re_search re_snprintf line of
            None \<Rightarrow> []
          | Some m \<Rightarrow> report_if (grp 2 m \<noteq> ''0'') linenum ''runtime/printf'' 3
              (''If you can, use sizeof('' @ grp 1 m @ '') instead of '' @ grp 2 m
               @ '' as the 2nd arg to snprintf.'')) @
         report_if (searches re_sprintf line) linenum ''runtime/printf'' 5
           ''Never use sprintf. Use snprintf instead.'' @
         (case re_search re_strcpy line of
            None \<Rightarrow> []
          | Some m \<Rightarrow> [diag linenum ''runtime/printf'' 4
              (''Almost always, snprintf is better than '' @ grp 1 m)]))"

text \<open>\<^verbatim>\<open>None\<close> is the failed assertion of \<open>GetTextInside\<close>.\<close>

definition printf_format :: "nat \<Rightarrow> string \<Rightarrow> diag list option" where
  "printf_format linenum line =
     map_option (\<lambda>printf_args. case printf_args of
        None \<Rightarrow> []
      | Some args \<Rightarrow>
          if args = [] then []
          else (case re_match re_printf_args args of
            None \<Rightarrow> []
          | Some m \<Rightarrow>
              report_if (grp 1 m \<noteq> ''__VA_ARGS__'') linenum ''runtime/printf'' 4
                (''Potential format string bug. Do ''
                 @ (case re_search re_printf_name line of Some p \<Rightarrow> grp 1 p | None \<Rightarrow> [])
                 @ (''('' @ [CHR 0x22] @ ''%s'' @ [CHR 0x22] @ '', '') @ grp 1 m @ '') instead.'')))
       (GetTextInside line re_printf_start)"

section \<open>Variable-length arrays\<close>

fun pieces_between :: "rmatch list \<Rightarrow> nat \<Rightarrow> string \<Rightarrow> string list" where
  "pieces_between [] i s = [drop i s]"
| "pieces_between (m # ms) i s = take (m_start 0 m - i) (drop i s) # pieces_between ms (m_end 0 m) s"

text \<open>\<^verbatim>\<open>re.split\<close> for a pattern that matches no empty text.\<close>

definition re_split :: "regex \<Rightarrow> string \<Rightarrow> string list" where
  "re_split r s = pieces_between (all_matches r s) 0 s"

definition strip_parens :: "string \<Rightarrow> string" where
  "strip_parens tok =
     rev (dropWhile (\<lambda>c. c = CHR '')'') (rev (dropWhile (\<lambda>c. c = CHR ''('') tok)))"

definition constant_token :: "string \<Rightarrow> bool" where
  "constant_token tok \<longleftrightarrow>
     tok = [] \<or> matches re_digits tok \<or> matches re_hex tok \<or> matches re_k_constant tok
     \<or> matches re_scoped_k_constant tok \<or> matches re_scoped_constant tok"

text \<open>Are all parts of the size constant? The part behind a \<^verbatim>\<open>sizeof\<close> is not looked at.\<close>

fun constant_size :: "bool \<Rightarrow> string list \<Rightarrow> bool" where
  "constant_size skip_next [] = True"
| "constant_size skip_next (tok # toks) =
     (if skip_next then constant_size False toks
      else if searches re_sizeof tok \<or> searches re_arraysize tok then constant_size False toks
      else if constant_token (strip_parens tok) then constant_size False toks
      else if starts_with (strip_parens tok) ''sizeof'' then constant_size True toks
      else False)"

definition variable_length_array :: "nat \<Rightarrow> string \<Rightarrow> diag list" where
  "variable_length_array linenum line =
     (case re_match re_array_declaration line of
        None \<Rightarrow> []
      | Some m \<Rightarrow>
          if grp 2 m \<noteq> ''return'' \<and> grp 2 m \<noteq> ''delete'' \<and> \<not> contains '']'' (grp 3 m) then
            report_if (\<not> constant_size False (re_split re_size_separator (grp 3 m)))
              linenum ''runtime/arrays'' 1
              (''Do not use variable-length arrays.  Use an appropriately named ''
           @ ''('' @ [CHR 0x27] @ ''k'' @ [CHR 0x27] @ '' followed by CamelCase) compile-time constant for the size.'')
          else [])"

section \<open>Language rules\<close>

definition integer_types :: "nat \<Rightarrow> string \<Rightarrow> diag list" where
  "integer_types linenum line =
     (if searches re_short_port line then
        report_if (\<not> searches re_unsigned_port line) linenum ''runtime/int'' 4
          (''Use '' @ [CHR 0x22] @ ''unsigned short'' @ [CHR 0x22] @ '' for ports, not '' @ [CHR 0x22] @ ''short'' @ [CHR 0x22])
      else case re_search re_c_integer line of
        None \<Rightarrow> []
      | Some m \<Rightarrow> [diag linenum ''runtime/int'' 4
          (''Use int16/int64/etc, rather than the C type '' @ grp 1 m)])"

definition suspicious_text :: "nat \<Rightarrow> string \<Rightarrow> diag list" where
  "suspicious_text linenum line =
     report_if (searches re_unary_and line) linenum ''runtime/operator'' 4
       ''Unary operator& is dangerous.  Do not use it.'' @
     report_if (searches re_brace_if line) linenum ''readability/braces'' 4
       (''Did you mean '' @ [CHR 0x22] @ ''else if'' @ [CHR 0x22] @ ''? If not, start a new line for '' @ [CHR 0x22] @ ''if'' @ [CHR 0x22] @ ''.'')"

definition memset_arguments :: "nat \<Rightarrow> string \<Rightarrow> diag list" where
  "memset_arguments linenum line =
     (case re_search re_memset line of
        None \<Rightarrow> []
      | Some m \<Rightarrow> report_if (\<not> matches re_memset_value (grp 2 m)) linenum ''runtime/memset'' 4
          ((''Did you mean '' @ [CHR 0x22] @ ''memset('') @ grp 1 m @ '', 0, '' @ grp 2 m @ ('')'' @ [CHR 0x22] @ ''?'')))"

definition disallow_last :: "cleansed \<Rightarrow> nat \<Rightarrow> diag list" where
  "disallow_last cl linenum =
     (case re_match re_disallow_line (elided cl ! linenum) of
        None \<Rightarrow> []
      | Some m \<Rightarrow>
          report_if (linenum + 1 < NumLines cl \<and> \<not> searches re_class_tail (elided cl ! (linenum + 1)))
            linenum ''readability/constructors'' 3
            (grp 1 m @ '' should be the last thing in the class''))"

definition unnamed_namespace :: "nat \<Rightarrow> string \<Rightarrow> string \<Rightarrow> diag list" where
  "unnamed_namespace linenum line file_extension =
     report_if (file_extension = ''h'' \<and> searches re_unnamed_namespace line \<and> last line \<noteq> CHR 0x5C)
       linenum ''build/namespaces'' 4
       (''Do not use unnamed namespaces in header files.  See ''
           @ ''http://google-styleguide.googlecode.com/svn/trunk/cppguide.xml#Namespaces ''
           @ ''for more information.'')"

definition language_rules :: "cleansed \<Rightarrow> nat \<Rightarrow> string \<Rightarrow> diag list option" where
  "language_rules cl linenum file_extension =
     (let line = elided cl ! linenum
      in case CheckCasts cl linenum of
           None \<Rightarrow> None
         | Some casts \<Rightarrow>
             (case printf_format linenum line of
                None \<Rightarrow> None
              | Some format \<Rightarrow>
                  Some (casts @ CheckGlobalStatic cl linenum @ CheckPrintf cl linenum @
                    integer_types linenum line @ suspicious_text linenum line @ format @
                    memset_arguments linenum line @
                    report_if (searches re_using_namespace line) linenum ''build/namespaces'' 5
                      (''Do not use namespace using-directives.  Use using-declarations ''
           @ ''instead.'') @
                    variable_length_array linenum line @ disallow_last cl linenum @
                    unnamed_namespace linenum line file_extension)))"

definition CheckLanguage :: "os \<Rightarrow> string \<Rightarrow> cleansed \<Rightarrow> nat \<Rightarrow> string \<Rightarrow> include_state \<Rightarrow>
    (diag list \<times> include_state) option" where
  "CheckLanguage os filename cl linenum file_extension s =
     (let line = elided cl ! linenum
      in if line = [] then Some ([], s)
         else if searches re_include line then CheckIncludeLine os filename cl linenum s
         else
           let s = (case re_match re_conditional line of
                      Some m \<Rightarrow> ResetSection (grp 1 m) s | None \<Rightarrow> s)
           in map_option (\<lambda>ds. (ds, s)) (language_rules cl linenum file_extension))"

end
