(* ===== verification/Lint_IWYU.thy ===== *)
theory Lint_IWYU
  imports Lint_Language "HOL-Library.AList"
begin

text \<open>
  Include what you use, in \<^verbatim>\<open>tools/cpplint.py\<close>: the headers of the standard library that
  the templates and algorithms of a file call for.
\<close>

definition HEADERS_CONTAINING_TEMPLATES :: "(string \<times> string list) list" where
  "HEADERS_CONTAINING_TEMPLATES =
     [(''<deque>'', [''deque'']),
      (''<functional>'', [''unary_function'', ''binary_function'', ''plus'', ''minus'',
         ''multiplies'', ''divides'', ''modulus'', ''negate'', ''equal_to'', ''not_equal_to'',
         ''greater'', ''less'', ''greater_equal'', ''less_equal'', ''logical_and'',
         ''logical_or'', ''logical_not'', ''unary_negate'', ''not1'', ''binary_negate'',
         ''not2'', ''bind1st'', ''bind2nd'', ''pointer_to_unary_function'',
         ''pointer_to_binary_function'', ''ptr_fun'', ''mem_fun_t'', ''mem_fun'',
         ''mem_fun1_t'', ''mem_fun1_ref_t'', ''mem_fun_ref_t'', ''const_mem_fun_t'',
         ''const_mem_fun1_t'', ''const_mem_fun_ref_t'', ''const_mem_fun1_ref_t'',
         ''mem_fun_ref'']),
      (''<limits>'', [''numeric_limits'']),
      (''<list>'', [''list'']),
      (''<map>'', [''map'', ''multimap'']),
      (''<memory>'', [''allocator'']),
      (''<queue>'', [''queue'', ''priority_queue'']),
      (''<set>'', [''set'', ''multiset'']),
      (''<stack>'', [''stack'']),
      (''<string>'', [''char_traits'', ''basic_string'']),
      (''<utility>'', [''pair'']),
      (''<vector>'', [''vector'']),
      (''<hash_map>'', [''hash_map'', ''hash_multimap'']),
      (''<hash_set>'', [''hash_set'', ''hash_multiset'']),
      (''<slist>'', [''slist''])]"

definition re_pattern_algorithm_header :: "(regex \<times> string \<times> string) list" where
  "re_pattern_algorithm_header =
     map (\<lambda>t. (re_algorithm t, t, ''<algorithm>''))
       [''copy'', ''max'', ''min'', ''min_element'', ''sort'', ''swap'', ''transform'']"

definition re_pattern_templates :: "(regex \<times> string \<times> string) list" where
  "re_pattern_templates =
     concat (map (\<lambda>(header, templates). map (\<lambda>t. (re_template_use t, t @ ''<>'', header)) templates)
       HEADERS_CONTAINING_TEMPLATES)"

text \<open>
  The dictionary of required headers, each with the line and the entity that calls for it, in
  the order in which the keys came in.
\<close>

type_synonym required = "(string \<times> nat \<times> string) list"

fun require :: "(regex \<times> string \<times> string) list \<Rightarrow> nat \<Rightarrow> string \<Rightarrow> required \<Rightarrow> required" where
  "require [] linenum line req = req"
| "require ((pattern, template, header) # ps) linenum line req =
     require ps linenum line
       (if searches pattern line then AList.update header (linenum, template) req else req)"

definition require_string :: "nat \<Rightarrow> string \<Rightarrow> required \<Rightarrow> required" where
  "require_string linenum line req =
     (case re_search re_string_word line of
        None \<Rightarrow> req
      | Some matched \<Rightarrow>
          let prefix = take (m_start 0 matched) line
          in if ends_with prefix ''std::'' \<or> \<not> ends_with prefix ''::''
             then AList.update ''<string>'' (linenum, ''string'') req else req)"

definition required_by_line :: "nat \<Rightarrow> string \<Rightarrow> required \<Rightarrow> required" where
  "required_by_line linenum line req =
     (if line = [] \<or> hd line = CHR ''#'' then req
      else
        let req = require re_pattern_algorithm_header linenum line (require_string linenum line req)
        in if \<not> contains ''<'' line then req
           else require re_pattern_templates linenum line req)"

definition required_headers :: "cleansed \<Rightarrow> required" where
  "required_headers cl =
     fold (\<lambda>linenum. required_by_line linenum (elided cl ! linenum)) [0..<NumLines cl] []"

text \<open>
  Other headers of the module are read through \<^verbatim>\<open>io\<close>. The order in which a dictionary goes
  through its keys is the parameter \<open>order\<close>.
\<close>

fun read_module_headers :: "(string \<Rightarrow> string list option) \<Rightarrow> string \<Rightarrow> string list \<Rightarrow>
    bool \<times> (string \<Rightarrow> nat option) \<Rightarrow> bool \<times> (string \<Rightarrow> nat option)" where
  "read_module_headers io_open abs_filename [] r = r"
| "read_module_headers io_open abs_filename (header # headers) (header_found, include_dict) =
     (case FilesBelongToSameModule abs_filename header of
        (same_module, common_path) \<Rightarrow>
          read_module_headers io_open abs_filename headers
            (if same_module then
               (case UpdateIncludeState io_open (common_path @ header) include_dict of
                  (found, include_dict) \<Rightarrow> (header_found \<or> found, include_dict))
             else (header_found, include_dict)))"

definition strip_header :: "string \<Rightarrow> string" where
  "strip_header s =
     (let quoting = (\<lambda>c. c \<in> {CHR ''<'', CHR ''>'', CHR 0x22})
      in rev (dropWhile quoting (rev (dropWhile quoting s))))"

definition included_headers :: "os \<Rightarrow> (string \<Rightarrow> string list option) \<Rightarrow> (string list \<Rightarrow> string list) \<Rightarrow>
    string \<Rightarrow> include_state \<Rightarrow> bool \<times> (string \<Rightarrow> nat option)" where
  "included_headers os io_open order filename s =
     (let items = concat (include_list s);
          include_dict = map_of (rev items);
          abs_filename = re_sub re_flymake_cc (\<lambda>_. ''.cc'') (FullName os filename)
      in read_module_headers io_open abs_filename (order (rev (remdups (rev (map fst items)))))
           (False, include_dict))"

definition CheckForIncludeWhatYouUse :: "os \<Rightarrow> (string \<Rightarrow> string list option) \<Rightarrow>
    (string list \<Rightarrow> string list) \<Rightarrow> string \<Rightarrow> cleansed \<Rightarrow> include_state \<Rightarrow> diag list" where
  "CheckForIncludeWhatYouUse os io_open order filename cl s =
     (let req = required_headers cl;
          (header_found, include_dict) = included_headers os io_open order filename s
      in if ends_with filename ''.cc'' \<and> \<not> header_found then []
         else concat (map (\<lambda>header.
           case map_of req header of
             None \<Rightarrow> []
           | Some (linenum, template) \<Rightarrow>
               report_if (include_dict (strip_header header) = None)
                 linenum ''build/include_what_you_use'' 4
                 (''Add #include '' @ header @ '' for '' @ template))
           (order (map fst req))))"

section \<open>What a line calls for\<close>

text \<open>The headers a line calls for, each with the entity, in the order in which they are noted.\<close>

definition pattern_entities :: "(regex \<times> string \<times> string) list \<Rightarrow> string \<Rightarrow> (string \<times> string) list" where
  "pattern_entities ps line = map (\<lambda>(p, t, h). (h, t)) (filter (\<lambda>(p, t, h). searches p line) ps)"

definition string_entities :: "string \<Rightarrow> (string \<times> string) list" where
  "string_entities line =
     (case re_search re_string_word line of
        None \<Rightarrow> []
      | Some matched \<Rightarrow>
          let prefix = take (m_start 0 matched) line
          in if ends_with prefix ''std::'' \<or> \<not> ends_with prefix ''::'' then [(''<string>'', ''string'')] else [])"

definition entities :: "string \<Rightarrow> (string \<times> string) list" where
  "entities line =
     (if line = [] \<or> hd line = CHR ''#'' then []
      else string_entities line @ pattern_entities re_pattern_algorithm_header line
        @ (if contains ''<'' line then pattern_entities re_pattern_templates line else []))"

definition note_all :: "nat \<Rightarrow> (string \<times> string) list \<Rightarrow> required \<Rightarrow> required" where
  "note_all n es = fold (\<lambda>(h, t). AList.update h (n, t)) es"

lemma require_note_all: "require ps n line = note_all n (pattern_entities ps line)"
proof
  show "require ps n line req = note_all n (pattern_entities ps line) req" for req
    by (induction ps arbitrary: req) (auto simp: note_all_def pattern_entities_def)
qed

lemma required_by_line_note_all: "required_by_line n line = note_all n (entities line)"
proof
  have "require_string n line = note_all n (string_entities line)"
    by (auto simp: fun_eq_iff require_string_def string_entities_def note_all_def Let_def split: option.splits)
  then show "required_by_line n line req = note_all n (entities line) req" for req
    by (simp add: required_by_line_def entities_def require_note_all Let_def note_all_def)
qed

lemma note_all_map_of:
  "map_of (note_all n es req) h = (case map_of (rev es) h of None \<Rightarrow> map_of req h | Some t \<Rightarrow> Some (n, t))"
  by (induction es arbitrary: req)
     (auto simp: note_all_def update_conv' map_add_def split: option.splits)

lemma distinct_keys_note_all: "distinct (map fst req) \<Longrightarrow> distinct (map fst (note_all n es req))"
  by (induction es arbitrary: req) (auto simp: note_all_def distinct_update)

text \<open>A header is noted with the last line that calls for it, and what that line notes last.\<close>

definition called_last :: "cleansed \<Rightarrow> string \<Rightarrow> nat \<Rightarrow> string \<Rightarrow> bool" where
  "called_last cl h n t \<longleftrightarrow>
     n < NumLines cl \<and> map_of (rev (entities (elided cl ! n))) h = Some t \<and>
     (\<forall>k. n < k \<and> k < NumLines cl \<longrightarrow> h \<notin> fst ` set (entities (elided cl ! k)))"

lemma required_prefix:
  "map_of (fold (\<lambda>n. required_by_line n (ls n)) [0..<m] []) h = Some (n, t) \<longleftrightarrow>
     n < m \<and> map_of (rev (entities (ls n))) h = Some t \<and>
     (\<forall>k. n < k \<and> k < m \<longrightarrow> h \<notin> fst ` set (entities (ls k)))"
proof (induction m)
  case 0
  then show ?case by simp
next
  case (Suc m)
  have step: "map_of (fold (\<lambda>n. required_by_line n (ls n)) [0..<Suc m] []) h =
      (case map_of (rev (entities (ls m))) h of
         None \<Rightarrow> map_of (fold (\<lambda>n. required_by_line n (ls n)) [0..<m] []) h
       | Some t \<Rightarrow> Some (m, t))"
    by (simp add: required_by_line_note_all [of m] note_all_map_of)
  show ?case
  proof (cases "map_of (rev (entities (ls m))) h")
    case None
    then have "h \<notin> fst ` set (entities (ls m))" by (simp add: map_of_eq_None_iff)
    then show ?thesis
      unfolding step None option.case Suc.IH using None by (auto simp: less_Suc_eq)
  next
    case (Some u)
    then have "h \<in> fst ` set (entities (ls m))"
      using map_of_eq_None_iff [of "rev (entities (ls m))" h] by auto
    note mem = this
    have "Some (m, u) = Some (n, t) \<longleftrightarrow> n < Suc m \<and> map_of (rev (entities (ls n))) h = Some t \<and>
        (\<forall>k. n < k \<and> k < Suc m \<longrightarrow> h \<notin> fst ` set (entities (ls k)))"
      using mem Some by (cases n m rule: linorder_cases) auto
    then show ?thesis unfolding step Some option.case .
  qed
qed

lemma required_headers_iff: "map_of (required_headers cl) h = Some (n, t) \<longleftrightarrow> called_last cl h n t"
  unfolding required_headers_def called_last_def by (rule required_prefix)

lemma IWYU_iff:
  assumes "\<And>xs. set (order xs) = set xs"
  shows "d \<in> set (CheckForIncludeWhatYouUse os io_open order filename cl s) \<longleftrightarrow>
     (\<not> ends_with filename ''.cc'' \<or> fst (included_headers os io_open order filename s)) \<and>
     (\<exists>h n t. called_last cl h n t \<and> snd (included_headers os io_open order filename s) (strip_header h) = None
        \<and> d = diag n ''build/include_what_you_use'' 4 (''Add #include '' @ h @ '' for '' @ t))"
proof -
  have key: "h \<in> set (order (map fst (required_headers cl))) \<longleftrightarrow> (\<exists>n t. called_last cl h n t)" for h
    using required_headers_iff [of cl h] assms
    by (simp flip: map_of_eq_None_iff) (metis option.exhaust prod.exhaust option.distinct(1) dom_map_of_conv_image_fst domIff)
  define msg where "msg h t = ''Add #include '' @ h @ '' for '' @ t" for h t :: string
  obtain found incl where f: "included_headers os io_open order filename s = (found, incl)" by fastforce
  have each: "d \<in> set (case map_of (required_headers cl) h of None \<Rightarrow> [] | Some (n, t) \<Rightarrow>
        report_if (incl (strip_header h) = None) n ''build/include_what_you_use'' 4 (msg h t)) \<longleftrightarrow>
      (\<exists>n t. called_last cl h n t \<and> incl (strip_header h) = None
         \<and> d = diag n ''build/include_what_you_use'' 4 (msg h t))" for h
    by (cases "map_of (required_headers cl) h") (auto simp: report_if_def simp flip: required_headers_iff)
  show ?thesis
    unfolding CheckForIncludeWhatYouUse_def f msg_def [symmetric] Let_def prod.case fst_conv snd_conv
    using each key by (simp del: split_paired_Ex) blast
qed

end
