(* ===== verification/Lint_Config.thy ===== *)
theory Lint_Config
  imports Lint_State Lint_File
begin

text \<open>
  The settings of \<^verbatim>\<open>tools/cpplint.py\<close> and where they come from: the command line and the
  configuration files in the directories above a file.
\<close>

section \<open>The session and its surroundings\<close>

text \<open>
  The globals of the module. \<^verbatim>\<open>_root\<close> is \<open>None\<close> until \<^verbatim>\<open>--root\<close> sets it; the set of
  extensions is a list without duplicates.
\<close>

record session =
  s_lint :: lint
  line_length :: int
  root :: "string option"
  valid_extensions :: "string list"

definition session_init :: session where
  "session_init =
     \<lparr>s_lint = lint_init, line_length = 80, root = None,
      valid_extensions = [''cc'', ''h'', ''cpp'', ''cu'', ''cuh'']\<rparr>"

text \<open>
  What the program asks of the system: paths, the lines of a configuration file, the text of
  an input (\<^verbatim>\<open>-\<close> is the standard input), the lines of a header, with \<open>None\<close> for an
  \<^verbatim>\<open>IOError\<close>; patterns the user gives, with \<open>None\<close> for one that does not compile; and the
  order in which dictionaries and sets go through their elements.
\<close>

record env =
  e_os :: os
  e_isfile :: "string \<Rightarrow> bool"
  e_config :: "string \<Rightarrow> string list option"
  e_input :: "string \<Rightarrow> string option"
  e_header :: "string \<Rightarrow> string list option"
  e_compile :: "string \<Rightarrow> regex option"
  e_order :: "string list \<Rightarrow> string list"

definition write_err :: "string \<Rightarrow> session \<Rightarrow> session" where
  "write_err s S = S\<lparr>s_lint := s_lint S\<lparr>stderr := stderr (s_lint S) @ [s]\<rparr>\<rparr>"

definition on_state :: "(cpplint_state \<Rightarrow> cpplint_state) \<Rightarrow> session \<Rightarrow> session" where
  "on_state f S = S\<lparr>s_lint := s_lint S\<lparr>cpplint := f (cpplint (s_lint S))\<rparr>\<rparr>"

text \<open>\<^verbatim>\<open>AddFilters\<close> and \<^verbatim>\<open>SetFilters\<close>; \<open>None\<close> is the \<^verbatim>\<open>ValueError\<close>.\<close>

definition add_filters :: "string \<Rightarrow> session \<Rightarrow> session option" where
  "add_filters fs S =
     (case AddFilters fs (cpplint (s_lint S)) of
        (s, None) \<Rightarrow> Some (on_state (\<lambda>_. s) S) | (s, Some _) \<Rightarrow> None)"

definition set_filters :: "string \<Rightarrow> session \<Rightarrow> session option" where
  "set_filters fs S =
     (case SetFilters fs (cpplint (s_lint S)) of
        (s, None) \<Rightarrow> Some (on_state (\<lambda>_. s) S) | (s, Some _) \<Rightarrow> None)"

text \<open>\<^verbatim>\<open>int(val)\<close>; \<open>None\<close> is the \<^verbatim>\<open>ValueError\<close>.\<close>

definition py_int :: "string \<Rightarrow> int option" where
  "py_int val =
     (let s = bstrip val; negative = starts_with s ''-'';
          digits = (if negative \<or> starts_with s ''+'' then drop 1 s else s)
      in if digits \<noteq> [] \<and> list_all is_digit digits
         then Some (if negative then - foldl digit_value 0 digits else foldl digit_value 0 digits) else None)"

text \<open>A number that is written out is read back.\<close>

lemma bstrip_no_space: "list_all (\<lambda>c. \<not> is_space c) s \<Longrightarrow> bstrip s = s"
proof -
  assume "list_all (\<lambda>c. \<not> is_space c) s"
  then have "dropWhile is_space s = s" "dropWhile is_space (rev s) = rev s"
    by (auto simp: dropWhile_eq_self_iff list_all_iff hd_rev)
  then show ?thesis by (simp add: bstrip_def)
qed

lemma is_digit_plain: "is_digit c \<Longrightarrow> \<not> is_space c \<and> c \<noteq> CHR ''-'' \<and> c \<noteq> CHR ''+'' \<and> c \<noteq> CHR ''='' \<and> c \<noteq> CHR ''#''"
  by (auto simp: is_digit_def is_space_def code_def)

lemma show_int_plain:
  "list_all (\<lambda>c. \<not> is_space c \<and> c \<noteq> CHR ''='' \<and> c \<noteq> CHR ''#'') (show_int i) \<and> show_int i \<noteq> []"
proof -
  have "list_all (\<lambda>c. \<not> is_space c \<and> c \<noteq> CHR ''='' \<and> c \<noteq> CHR ''#'') (show_nat n)" "show_nat n \<noteq> []" for n
    using show_nat_digits [of 0 n] is_digit_plain by (auto simp: list_all_iff)
  moreover have "\<not> is_space (CHR ''-'')" by (simp add: is_space_def code_def)
  ultimately show ?thesis by (simp add: show_int_def)
qed

lemma bstrip_show_int [simp]: "bstrip (show_int i) = show_int i"
  using show_int_plain [of i] by (intro bstrip_no_space) (auto simp: list_all_iff)

lemma py_int_show_int [simp]: "py_int (show_int i) = Some i"
proof -
  have digits: "list_all is_digit (show_nat n)" "show_nat n \<noteq> []" "foldl digit_value 0 (show_nat n) = int n" for n
    using show_nat_digits [of 0 n] by simp_all
  have "\<not> starts_with (show_nat n) ''-''" "\<not> starts_with (show_nat n) ''+''" for n
    using digits(1,2) [of n] is_digit_plain by (cases "show_nat n"; auto)+
  then show ?thesis
    unfolding py_int_def bstrip_show_int
    using digits by (cases "i < 0") (simp_all add: show_int_def)
qed

section \<open>Configuration files\<close>

text \<open>The variables of the loop over the directories.\<close>

record config =
  cfg_filters :: "string list"
  keep_looking :: bool
  cfg_session :: session

datatype verdict = Process | Exclude

text \<open>\<^verbatim>\<open>line.partition('#')\<close> and \<^verbatim>\<open>line.partition('=')\<close>.\<close>

definition partition_at :: "char \<Rightarrow> string \<Rightarrow> string \<times> string" where
  "partition_at c s = (takeWhile (\<lambda>d. d \<noteq> c) s, drop 1 (dropWhile (\<lambda>d. d \<noteq> c) s))"

text \<open>One line of a configuration file. \<open>None\<close> is a pattern that does not compile.\<close>

definition config_line :: "env \<Rightarrow> string \<Rightarrow> string \<Rightarrow> string \<Rightarrow> string \<Rightarrow> config \<Rightarrow> (verdict \<times> config) option" where
  "config_line env filename cfg_file base_name line c =
     (let line = fst (partition_at (CHR ''#'') line);
          name = bstrip (fst (partition_at (CHR ''='') line));
          val = bstrip (snd (partition_at (CHR ''='') line));
          warn = (\<lambda>s. c\<lparr>cfg_session := write_err s (cfg_session c)\<rparr>)
      in if bstrip line = [] then Some (Process, c)
         else if name = ''set noparent'' then Some (Process, c\<lparr>keep_looking := False\<rparr>)
         else if name = ''filter'' then Some (Process, c\<lparr>cfg_filters := cfg_filters c @ [val]\<rparr>)
         else if name = ''exclude_files'' then
           (if base_name \<noteq> [] then
              map_option (\<lambda>pattern.
                if matches pattern base_name
                then (Exclude, warn ((''Ignoring '' @ [CHR 0x22]) @ filename @ ([CHR 0x22] @ '': file excluded by '' @ [CHR 0x22]) @ cfg_file
                        @ ([CHR 0x22] @ ''. File path component '' @ [CHR 0x22]) @ base_name @ ([CHR 0x22] @ '' matches pattern '' @ [CHR 0x22]) @ val
                        @ [CHR 0x22] @ ''\<newline>''))
                else (Process, c)) (e_compile env val)
            else Some (Process, c))
         else if name = ''linelength'' then
           (case py_int val of
              Some n \<Rightarrow> Some (Process, c\<lparr>cfg_session := (cfg_session c)\<lparr>line_length := n\<rparr>\<rparr>)
            | None \<Rightarrow> Some (Process, warn ''Line length must be numeric.''))
         else Some (Process, warn (''Invalid configuration option ('' @ name @ '') in file '' @ cfg_file
                @ ''\<newline>'')))"

lemma partition_at_app: "c \<notin> set s \<Longrightarrow> partition_at c (s @ c # t) = (s, t)"
  by (induction s) (auto simp: partition_at_def)

lemma partition_at_none: "c \<notin> set s \<Longrightarrow> partition_at c s = (s, [])"
  by (induction s) (auto simp: partition_at_def)

text \<open>The line of a configuration file that sets the length of a line.\<close>

definition linelength_line :: "int \<Rightarrow> string" where
  "linelength_line n = ''linelength='' @ show_int n"

lemma config_line_linelength:
  "config_line env filename cfg_file base_name (linelength_line n) c
     = Some (Process, c\<lparr>cfg_session := (cfg_session c)\<lparr>line_length := n\<rparr>\<rparr>)"
proof -
  have "partition_at (CHR ''#'') (linelength_line n) = (linelength_line n, [])"
    unfolding linelength_line_def
    using show_int_plain [of n] by (intro partition_at_none) (auto simp: list_all_iff)
  moreover have "partition_at (CHR ''='') (linelength_line n) = (''linelength'', show_int n)"
    using partition_at_app [of "CHR ''=''" "''linelength''" "show_int n"]
    by (simp add: linelength_line_def)
  moreover have "bstrip ''linelength'' = ''linelength''" by code_simp
  moreover have "bstrip (linelength_line n) \<noteq> []"
    unfolding linelength_line_def using show_int_plain [of n]
    by (subst bstrip_no_space) (auto simp: list_all_iff is_space_def code_def)
  ultimately show ?thesis by (simp add: config_line_def Let_def)
qed

fun config_lines :: "env \<Rightarrow> string \<Rightarrow> string \<Rightarrow> string \<Rightarrow> string list \<Rightarrow> config \<Rightarrow> (verdict \<times> config) option" where
  "config_lines env filename cfg_file base_name [] c = Some (Process, c)"
| "config_lines env filename cfg_file base_name (line # ls) c =
     (case config_line env filename cfg_file base_name line c of
        Some (Process, c) \<Rightarrow> config_lines env filename cfg_file base_name ls c
      | r \<Rightarrow> r)"

lemma path_split_shorter: "snd (path_split p) \<noteq> [] \<Longrightarrow> length (fst (path_split p)) < length p"
proof -
  define i where "i = (case rfind_str ''/'' p of None \<Rightarrow> 0 | Some i \<Rightarrow> i + 1)"
  assume "snd (path_split p) \<noteq> []"
  then have i: "i < length p" by (simp add: path_split_def i_def Let_def)
  define h where "h = take i p"
  have "length (dropWhile P (rev h)) \<le> length h" for P
    using length_dropWhile_le [of P "rev h"] by simp
  then have "length (fst (path_split p)) \<le> length h"
    by (simp add: path_split_def i_def [symmetric] h_def [symmetric] Let_def)
  with i show ?thesis by (simp add: h_def)
qed

function config_dirs :: "env \<Rightarrow> string \<Rightarrow> string \<Rightarrow> config \<Rightarrow> (verdict \<times> config) option" where
  "config_dirs env filename abs_filename c =
     (let (abs_path, base_name) = path_split abs_filename;
          cfg_file = path_join abs_path ''CPPLINT.cfg''
      in if base_name = [] then Some (Process, c)
         else if \<not> e_isfile env cfg_file then config_dirs env filename abs_path c
         else case e_config env cfg_file of
           None \<Rightarrow> Some (Process, c\<lparr>keep_looking := False, cfg_session :=
               write_err ((''Skipping config file '' @ [CHR 0x27]) @ cfg_file
                 @ ([CHR 0x27] @ '': Can'' @ [CHR 0x27] @ ''t open for reading'' @ ''\<newline>''))
               (cfg_session c)\<rparr>)
         | Some ls \<Rightarrow>
             (case config_lines env filename cfg_file base_name ls c of
                Some (Process, c) \<Rightarrow>
                  if keep_looking c then config_dirs env filename abs_path c else Some (Process, c)
              | r \<Rightarrow> r))"
  by pat_completeness auto
termination
proof (relation "measure (\<lambda>(env, filename, p, c). length p)", goal_cases)
  case 1
  show ?case by simp
next
  case (2 env filename p c abs_path base_name)
  then show ?case using path_split_shorter [of p] by (cases "path_split p") auto
next
  case (3 env filename p c abs_path base_name)
  then show ?case using path_split_shorter [of p] by (cases "path_split p") auto
qed

declare config_dirs.simps [simp del]

fun add_all_filters :: "string list \<Rightarrow> session \<Rightarrow> session option" where
  "add_all_filters [] S = Some S"
| "add_all_filters (fs # fss) S = Option.bind (add_filters fs S) (add_all_filters fss)"

text \<open>Whether the file is to be processed; \<open>None\<close> is an exception.\<close>

definition ProcessConfigOverrides :: "env \<Rightarrow> string \<Rightarrow> session \<Rightarrow> (bool \<times> session) option" where
  "ProcessConfigOverrides env filename S =
     (case config_dirs env filename (abspath (e_os env) filename)
             \<lparr>cfg_filters = [], keep_looking = True, cfg_session = S\<rparr> of
        None \<Rightarrow> None
      | Some (Exclude, c) \<Rightarrow> Some (False, cfg_session c)
      | Some (Process, c) \<Rightarrow>
          map_option (Pair True) (add_all_filters (rev (cfg_filters c)) (cfg_session c)))"

end
