(* ===== verification/Lint_Args.thy ===== *)
theory Lint_Args
  imports Lint_Config
begin

text \<open>
  The command line of \<^verbatim>\<open>tools/cpplint.py\<close>. A run of the program goes on, ends with an exit
  status, or is ended by an exception that nobody catches.
\<close>

datatype 'a run = Done 'a | Quit int session | Raised

definition USAGE :: string where
  "USAGE = join ''\<newline>''
     [
      [],
      ''Syntax: cpplint.py [--verbose=#] [--output=vs7] [--filter=-x,+y,...]'',
      ''                   [--counting=total|toplevel|detailed] [--root=subdir]'',
      ''                   [--linelength=digits]'',
      ''        <file> [file] ...'',
      [],
      ''  The style guidelines this tries to follow are those in'',
      ''    http://google-styleguide.googlecode.com/svn/trunk/cppguide.xml'',
      [],
      ''  Every problem is given a confidence score from 1-5, with 5 meaning we are'',
      ''  certain of the problem, and 1 meaning it could be a legitimate construct.'',
      ''  This will miss some errors, and is not a substitute for a code review.'',
      [],
      ''  To suppress false-positive errors of a certain category, add a'',
      ''  '' @ [CHR 0x27] @ ''NOLINT(category)'' @ [CHR 0x27] @ '' comment to the line.  NOLINT or NOLINT(*)'',
      ''  suppresses errors of all categories on that line.'',
      [],
      ''  The files passed in will be linted; at least one file must be provided.'',
      ''  Default linted extensions are .cc, .cpp, .cu, .cuh and .h.  Change the'',
      ''  extensions with the --extensions flag.'',
      [],
      ''  Flags:'',
      [],
      ''    output=vs7'',
      ''      By default, the output is formatted to ease emacs parsing.  Visual Studio'',
      ''      compatible output (vs7) may also be used.  Other formats are unsupported.'',
      [],
      ''    verbose=#'',
      ''      Specify a number 0-5 to restrict errors to certain verbosity levels.'',
      [],
      ''    filter=-x,+y,...'',
      ''      Specify a comma-separated list of category-filters to apply: only'',
      ''      error messages whose category names pass the filters will be printed.'',
      ''      (Category names are printed with the message and look like'',
      ''      '' @ [CHR 0x22] @ ''[whitespace/indent]'' @ [CHR 0x22] @ ''.)  Filters are evaluated left to right.'',
      ''      '' @ [CHR 0x22] @ ''-FOO'' @ [CHR 0x22] @ '' and '' @ [CHR 0x22] @ ''FOO'' @ [CHR 0x22] @ '' means '' @ [CHR 0x22] @ ''do not print categories that start with FOO'' @ [CHR 0x22] @ ''.'',
      ''      '' @ [CHR 0x22] @ ''+FOO'' @ [CHR 0x22] @ '' means '' @ [CHR 0x22] @ ''do print categories that start with FOO'' @ [CHR 0x22] @ ''.'',
      [],
      ''      Examples: --filter=-whitespace,+whitespace/braces'',
      ''                --filter=whitespace,runtime/printf,+runtime/printf_format'',
      ''                --filter=-,+build/include_what_you_use'',
      [],
      ''      To see a list of all the categories used in cpplint, pass no arg:'',
      ''         --filter='',
      [],
      ''    counting=total|toplevel|detailed'',
      ''      The total number of errors found is always printed. If'',
      ''      '' @ [CHR 0x27] @ ''toplevel'' @ [CHR 0x27] @ '' is provided, then the count of errors in each of'',
      ''      the top-level categories like '' @ [CHR 0x27] @ ''build'' @ [CHR 0x27] @ '' and '' @ [CHR 0x27] @ ''whitespace'' @ [CHR 0x27] @ '' will'',
      ''      also be printed. If '' @ [CHR 0x27] @ ''detailed'' @ [CHR 0x27] @ '' is provided, then a count'',
      ''      is provided for each category like '' @ [CHR 0x27] @ ''build/class'' @ [CHR 0x27] @ ''.'',
      [],
      ''    root=subdir'',
      ''      The root directory used for deriving header guard CPP variable.'',
      ''      By default, the header guard CPP variable is calculated as the relative'',
      ''      path to the directory that contains .git, .hg, or .svn.  When this flag'',
      ''      is specified, the relative path is calculated from the specified'',
      ''      directory. If the specified directory does not exist, this flag is'',
      ''      ignored.'',
      [],
      ''      Examples:'',
      ''        Assuming that src/.git exists, the header guard CPP variables for'',
      ''        src/chrome/browser/ui/browser.h are:'',
      [],
      ''        No flag => CHROME_BROWSER_UI_BROWSER_H_'',
      ''        --root=chrome => BROWSER_UI_BROWSER_H_'',
      ''        --root=chrome/browser => UI_BROWSER_H_'',
      [],
      ''    linelength=digits'',
      ''      This is the allowed line length for the project. The default value is'',
      ''      80 characters.'',
      [],
      ''      Examples:'',
      ''        --linelength=120'',
      [],
      ''    extensions=extension,extension,...'',
      ''      The allowed file extensions that cpplint will check'',
      [],
      ''      Examples:'',
      ''        --extensions=hpp,cpp'',
      [],
      ''    cpplint.py supports per-directory configurations specified in CPPLINT.cfg'',
      ''    files. CPPLINT.cfg file can contain a number of key=value pairs.'',
      ''    Currently the following options are supported:'',
      [],
      ''      set noparent'',
      ''      filter=+filter1,-filter2,...'',
      ''      exclude_files=regex'',
      ''      linelength=80'',
      [],
      ''    '' @ [CHR 0x22] @ ''set noparent'' @ [CHR 0x22] @ '' option prevents cpplint from traversing directory tree'',
      ''    upwards looking for more .cfg files in parent directories. This option'',
      ''    is usually placed in the top-level project directory.'',
      [],
      ''    The '' @ [CHR 0x22] @ ''filter'' @ [CHR 0x22] @ '' option is similar in function to --filter flag. It specifies'',
      ''    message filters in addition to the |_DEFAULT_FILTERS| and those specified'',
      ''    through --filter command-line flag.'',
      [],
      ''    '' @ [CHR 0x22] @ ''exclude_files'' @ [CHR 0x22] @ '' allows to specify a regular expression to be matched against'',
      ''    a file name. If the expression matches, the file is skipped and not run'',
      ''    through liner.'',
      [],
      ''    '' @ [CHR 0x22] @ ''linelength'' @ [CHR 0x22] @ '' allows to specify the allowed line length for the project.'',
      [],
      ''    CPPLINT.cfg has an effect on files in the same directory and all'',
      ''    sub-directories, unless overridden by a nested configuration file.'',
      [],
      ''      Example file:'',
      ''        filter=-build/include_order,+build/include_alpha'',
      ''        exclude_files=.*'' @ [CHR 0x5C] @ ''.cc'',
      [],
      ''    The above example disables build/include_order warning and enables'',
      ''    build/include_alpha as well as excludes all .cc from being'',
      ''    processed by linter, in the current directory (where the .cfg'',
      ''    file is located) and all sub-directories.'',
      []]"

text \<open>\<^verbatim>\<open>sys.exit\<close> prints a message that is not a number, and the status is then 1.\<close>

definition PrintUsage :: "string option \<Rightarrow> session \<Rightarrow> 'a run" where
  "PrintUsage message S =
     (let S = write_err USAGE S
      in case message of
           None \<Rightarrow> Quit 1 S
         | Some m \<Rightarrow> Quit 1 (write_err (''\<newline>'' @ ''FATAL ERROR: '' @ m @ ''\<newline>'') S))"

definition PrintCategories :: "session \<Rightarrow> 'a run" where
  "PrintCategories S =
     Quit 0 (write_err (concat (map (\<lambda>cat. ''  '' @ cat @ ''\<newline>'') ERROR_CATEGORIES)) S)"

section \<open>The getopt module\<close>

definition LONG_OPTIONS :: "string list" where
  "LONG_OPTIONS =
     [''help'', ''output='', ''verbose='', ''counting='', ''filter='', ''root='', ''linelength='',
      ''extensions='']"

text \<open>The full name, and whether there is an argument; a name may be cut short.\<close>

definition long_has_args :: "string \<Rightarrow> (bool \<times> string) option" where
  "long_has_args key =
     (let possibilities = filter (\<lambda>o'. starts_with o' key) LONG_OPTIONS
      in if possibilities = [] then None
         else if key \<in> set possibilities then Some (False, key)
         else if key @ ''='' \<in> set possibilities then Some (True, key)
         else if 1 < length possibilities then None
         else let unique = hd possibilities
              in if ends_with unique ''='' then Some (True, but_last unique) else Some (False, unique))"

definition do_longs :: "string \<Rightarrow> string list \<Rightarrow> ((string \<times> string) \<times> string list) option" where
  "do_longs arg args =
     (let key = fst (partition_at (CHR ''='') arg);
          optarg = (if contains ''='' arg then Some (snd (partition_at (CHR ''='') arg)) else None)
      in case long_has_args key of
           None \<Rightarrow> None
         | Some (True, name) \<Rightarrow>
             (case optarg of
                Some v \<Rightarrow> Some ((''--'' @ name, v), args)
              | None \<Rightarrow> (case args of [] \<Rightarrow> None | v # args \<Rightarrow> Some ((''--'' @ name, v), args)))
         | Some (False, name) \<Rightarrow>
             (if optarg \<noteq> None then None else Some ((''--'' @ name, []), args)))"

lemma do_longs_shorter: "do_longs arg args = Some (o', args') \<Longrightarrow> length args' \<le> length args"
  by (auto simp: do_longs_def Let_def split: option.splits bool.splits list.splits if_splits)

text \<open>There are no short options, so an argument with one dash is an error: \<open>None\<close>.\<close>

function py_getopt :: "string list \<Rightarrow> ((string \<times> string) list \<times> string list) option" where
  "py_getopt [] = Some ([], [])"
| "py_getopt (a # args) =
     (if \<not> starts_with a ''-'' \<or> a = ''-'' then Some ([], a # args)
      else if a = ''--'' then Some ([], args)
      else if starts_with a ''--'' then
        (case do_longs (drop 2 a) args of
           None \<Rightarrow> None
         | Some (o', args') \<Rightarrow> map_option (\<lambda>(os, files). (o' # os, files)) (py_getopt args'))
      else None)"
  by pat_completeness auto
termination
  by (relation "measure length") (auto dest: do_longs_shorter)

text \<open>How an option with an argument is written.\<close>

definition long_argument :: "string \<times> string \<Rightarrow> string" where
  "long_argument = (\<lambda>(key, v). ''--'' @ key @ ''='' @ v)"

lemma contains_equals: "contains ''='' (s @ CHR ''='' # t)"
  by (auto simp: contains_iff)

lemma do_longs_argument:
  assumes "key @ ''='' \<in> set LONG_OPTIONS"
  shows "do_longs (key @ ''='' @ v) args = Some ((''--'' @ key, v), args)"
proof -
  have "key \<in> set (map but_last (filter (\<lambda>k. last k = CHR ''='') LONG_OPTIONS))"
    using assms by (auto simp: LONG_OPTIONS_def but_last_def)
  moreover have "list_all (\<lambda>key. CHR ''='' \<notin> set key \<and> long_has_args key = Some (True, key))
      (map but_last (filter (\<lambda>k. last k = CHR ''='') LONG_OPTIONS))" by code_simp
  ultimately have "CHR ''='' \<notin> set key" "long_has_args key = Some (True, key)"
    by (auto simp: list_all_iff)
  then show ?thesis by (simp add: do_longs_def partition_at_app contains_equals)
qed

lemma py_getopt_arguments:
  assumes "list_all (\<lambda>(key, v). key @ ''='' \<in> set LONG_OPTIONS) opts"
  shows "py_getopt (map long_argument opts @ ''--'' # files)
    = Some (map (\<lambda>(key, v). (''--'' @ key, v)) opts, files)"
  using assms
proof (induction opts)
  case Nil
  then show ?case by simp
next
  case (Cons o' opts)
  obtain key v where o': "o' = (key, v)" by fastforce
  with Cons do_longs_argument [of key v] show ?case by (simp add: long_argument_def)
qed
section \<open>Arguments\<close>

text \<open>The local variables of \<^verbatim>\<open>ParseArguments\<close>, and the globals it sets on the way.\<close>

record arguments =
  a_verbosity :: int
  a_output_format :: string
  a_filters :: string
  a_counting_style :: string
  a_session :: session

definition parse_argument :: "string \<times> string \<Rightarrow> arguments \<Rightarrow> arguments run" where
  "parse_argument ov a =
     (let (key, val) = ov; S = a_session a
      in if key = ''--help'' then PrintUsage None S
         else if key = ''--output'' then
           (if val \<notin> {''emacs'', ''vs7'', ''eclipse''}
            then PrintUsage (Some ''The only allowed output formats are emacs, vs7 and eclipse.'') S
            else Done (a\<lparr>a_output_format := val\<rparr>))
         else if key = ''--verbose'' then
           (case py_int val of None \<Rightarrow> Raised | Some n \<Rightarrow> Done (a\<lparr>a_verbosity := n\<rparr>))
         else if key = ''--filter'' then
           (if val = [] then PrintCategories S else Done (a\<lparr>a_filters := val\<rparr>))
         else if key = ''--counting'' then
           (if val \<notin> {''total'', ''toplevel'', ''detailed''}
            then PrintUsage (Some ''Valid counting options are total, toplevel, and detailed'') S
            else Done (a\<lparr>a_counting_style := val\<rparr>))
         else if key = ''--root'' then Done (a\<lparr>a_session := S\<lparr>root := Some val\<rparr>\<rparr>)
         else if key = ''--linelength'' then
           (case py_int val of
              None \<Rightarrow> PrintUsage (Some ''Line length must be digits.'') S
            | Some n \<Rightarrow> Done (a\<lparr>a_session := S\<lparr>line_length := n\<rparr>\<rparr>))
         else if key = ''--extensions''
         then Done (a\<lparr>a_session := S\<lparr>valid_extensions := remdups (split_on (CHR '','') val)\<rparr>\<rparr>)
         else Done a)"

fun parse_arguments :: "(string \<times> string) list \<Rightarrow> arguments \<Rightarrow> arguments run" where
  "parse_arguments [] a = Done a"
| "parse_arguments (ov # ovs) a =
     (case parse_argument ov a of
        Done a \<Rightarrow> parse_arguments ovs a | Quit n S \<Rightarrow> Quit n S | Raised \<Rightarrow> Raised)"

definition ParseArguments :: "string list \<Rightarrow> session \<Rightarrow> (string list \<times> session) run" where
  "ParseArguments args S =
     (case py_getopt args of
        None \<Rightarrow> PrintUsage (Some ''Invalid arguments.'') S
      | Some (opts, filenames) \<Rightarrow>
          (case parse_arguments opts
                  \<lparr>a_verbosity = verbose_level (cpplint (s_lint S)),
                   a_output_format = output_format (cpplint (s_lint S)), a_filters = [],
                   a_counting_style = [], a_session = S\<rparr> of
             Quit n S \<Rightarrow> Quit n S
           | Raised \<Rightarrow> Raised
           | Done a \<Rightarrow>
               if filenames = [] then PrintUsage (Some ''No files were specified.'') (a_session a)
               else
                 let S = on_state (SetOutputFormat (a_output_format a)) (a_session a);
                     S = on_state (\<lambda>s. snd (SetVerboseLevel (a_verbosity a) s)) S
                 in case set_filters (a_filters a) S of
                      None \<Rightarrow> Raised
                    | Some S \<Rightarrow> Done (filenames, on_state (SetCountingStyle (a_counting_style a)) S)))"

text \<open>What the options with a well-formed value do.\<close>

lemma parse_argument_ok [simp]:
  "parse_argument (''--verbose'', show_int v) a = Done (a\<lparr>a_verbosity := v\<rparr>)"
  "out \<in> {''emacs'', ''vs7'', ''eclipse''} \<Longrightarrow>
     parse_argument (''--output'', out) a = Done (a\<lparr>a_output_format := out\<rparr>)"
  "style \<in> {''total'', ''toplevel'', ''detailed''} \<Longrightarrow>
     parse_argument (''--counting'', style) a = Done (a\<lparr>a_counting_style := style\<rparr>)"
  "parse_argument (''--linelength'', show_int n) a
     = Done (a\<lparr>a_session := (a_session a)\<lparr>line_length := n\<rparr>\<rparr>)"
  "parse_argument (''--root'', dir) a = Done (a\<lparr>a_session := (a_session a)\<lparr>root := Some dir\<rparr>\<rparr>)"
  "fs \<noteq> [] \<Longrightarrow> parse_argument (''--filter'', fs) a = Done (a\<lparr>a_filters := fs\<rparr>)"
  by (auto simp: parse_argument_def)

lemma set_filters_same:
  "set_filters fs S = Some S1 \<Longrightarrow>
   set_filters fs (S\<lparr>line_length := n, root := r, s_lint := (s_lint S)\<lparr>cpplint := (cpplint (s_lint S))\<lparr>output_format := out, verbose_level := v\<rparr>\<rparr>\<rparr>)
    = Some (S\<lparr>line_length := n, root := r, s_lint := (s_lint S1)\<lparr>cpplint := (cpplint (s_lint S1))\<lparr>output_format := out, verbose_level := v\<rparr>\<rparr>\<rparr>)"
  by (auto simp: set_filters_def SetFilters_def AddFilters_def on_state_def Let_def split: option.splits prod.splits)

end
