(* ===== verification/Lint_Process.thy ===== *)
theory Lint_Process
  imports Lint_IWYU Lint_Args Lint_Blocks
begin

text \<open>
  The program of \<^verbatim>\<open>tools/cpplint.py\<close>: what it does with a line, with a file, and with the
  files of a command line. \<open>None\<close> stands for an exception nobody catches, or for a loop that
  does not end.
\<close>

section \<open>A line\<close>

record file_state =
  f_includes :: include_state
  f_functions :: function_state
  f_nesting :: nesting_state

definition file_state_init :: file_state where
  "file_state_init =
     \<lparr>f_includes = IncludeState_init, f_functions = FunctionState_init, f_nesting = NestingState_init\<rparr>"

text \<open>What all the checks of a line are given.\<close>

record source =
  s_os :: os
  s_root :: "regex option"
  s_line_length :: int
  s_filename :: string
  s_extension :: string
  s_lines :: cleansed

text \<open>The checks that do not change the state, in the order of \<^verbatim>\<open>ProcessLine\<close>.\<close>

definition other_checks :: "cleansed \<Rightarrow> nat \<Rightarrow> diag list" where
  "other_checks cl n =
     CheckVlogArguments cl n @ CheckPosixThreading cl n @ CheckInvalidIncrement cl n @
     CheckMakePairUsesDeduction cl n @ CheckDefaultLambdaCaptures cl n @
     CheckRedundantVirtual cl n @ CheckRedundantOverrideOrFinal cl n"

text \<open>
  The calls of the error handler for a line, behind its suppressions. Function lengths depend
  on the verbosity, which reporting an error leaves alone.
\<close>

definition line_diags :: "source \<Rightarrow> int \<Rightarrow> nat \<Rightarrow> file_state \<Rightarrow> (diag list \<times> file_state) option" where
  "line_diags src verbosity n fs =
     (let cl = s_lines src; (ds1, ns) = Update cl n (f_nesting fs); fs = fs\<lparr>f_nesting := ns\<rparr>;
          ds2 = CheckForNamespaceIndentation ns cl n
      in if InAsmBlock ns then Some (ds1 @ ds2, fs)
         else
           Option.bind (CheckForFunctionLengths verbosity cl n (f_functions fs)) (\<lambda>(ds3, f).
           Option.bind (CheckStyle (s_os src) (s_root src) (s_line_length src) (s_filename src) cl n
             (s_extension src) ns) (\<lambda>ds5.
           Option.bind (CheckLanguage (s_os src) (s_filename src) cl n (s_extension src) (f_includes fs))
             (\<lambda>(ds6, inc).
           Option.bind (CheckForNonStandardConstructs cl n ns) (\<lambda>ds8.
           Some (ds1 @ ds2 @ ds3 @ CheckForMultilineCommentsAndStrings cl n @ ds5 @ ds6 @
               CheckForNonConstReference cl n ns @ ds8 @ other_checks cl n,
             fs\<lparr>f_functions := f, f_includes := inc\<rparr>))))))"

definition ProcessLine :: "source \<Rightarrow> nat \<Rightarrow> file_state \<times> lint \<Rightarrow> (file_state \<times> lint) option" where
  "ProcessLine src n = (\<lambda>(fs, L).
     Option.bind (parse_nolint (s_filename src) (raw_lines (s_lines src) ! n) n L) (\<lambda>L.
     Option.bind (line_diags src (verbose_level (cpplint L)) n fs) (\<lambda>(ds, fs).
     map_option (Pair fs) (Errors (s_filename src) ds L))))"

section \<open>The lines of a file\<close>

fun process_lines :: "source \<Rightarrow> nat list \<Rightarrow> file_state \<times> lint \<Rightarrow> (file_state \<times> lint) option" where
  "process_lines src [] s = Some s"
| "process_lines src (n # ns) s =
     Option.bind (ProcessLine src n s) (\<lambda>(fs, L).
     Option.bind (Errors (s_filename src) (FlagCxx11Features (s_lines src) n) L) (\<lambda>L.
     process_lines src ns (fs, L)))"

definition with_markers :: "string list \<Rightarrow> string list" where
  "with_markers ls =
     [''// marker so line numbers and indices both start at 1''] @ ls @
     [''// marker so line numbers end in a known way'']"

text \<open>
  \<^verbatim>\<open>_root\<close> is compiled where the name of a header guard is asked for, which is in headers
  only.
\<close>

definition root_pattern :: "env \<Rightarrow> string option \<Rightarrow> string \<Rightarrow> regex option option" where
  "root_pattern env root_dir file_extension =
     (case root_dir of
        None \<Rightarrow> Some None
      | Some r \<Rightarrow>
          if r = [] \<or> file_extension \<noteq> ''h'' then Some None else map_option Some (e_compile env r))"

definition ProcessFileData :: "env \<Rightarrow> session \<Rightarrow> string \<Rightarrow> string \<Rightarrow> string list \<Rightarrow> lint option" where
  "ProcessFileData env S filename file_extension ls =
     (let ls = with_markers ls;
          L = ResetNolintSuppressions (s_lint S)
      in Option.bind (root_pattern env (root S) file_extension) (\<lambda>root_re.
         Option.bind (Errors filename (CheckForCopyright ls) L) (\<lambda>L.
         Option.bind (if file_extension = ''h''
                      then CheckForHeaderGuard (e_os env) root_re filename ls L else Some L) (\<lambda>L.
         let (comment_diags, ls) = RemoveMultiLineComments ls;
             src = \<lparr>s_os = e_os env, s_root = root_re, s_line_length = line_length S,
                    s_filename = filename, s_extension = file_extension, s_lines = CleansedLines ls\<rparr>
         in Option.bind (Errors filename comment_diags L) (\<lambda>L.
            Option.bind (process_lines src [0..<NumLines (s_lines src)] (file_state_init, L)) (\<lambda>(fs, L).
            Errors filename
              (CheckCompletedBlocks (f_nesting fs) @
               CheckForIncludeWhatYouUse (e_os env) (e_header env) (e_order env) filename
                 (s_lines src) (f_includes fs) @
               CheckForBadCharacters ls @
               CheckForNewlineAtEOF ls) L))))))"

section \<open>A file\<close>

definition on_lint :: "(lint \<Rightarrow> lint option) \<Rightarrow> session \<Rightarrow> session option" where
  "on_lint f S = map_option (\<lambda>L. S\<lparr>s_lint := L\<rparr>) (f (s_lint S))"

text \<open>
  Carriage returns at the end of all lines but the last are removed; the numbers of the lines
  without and with one are kept.
\<close>

fun strip_cr :: "nat \<Rightarrow> string list \<Rightarrow> string list \<times> nat list \<times> nat list" where
  "strip_cr n [] = ([], [], [])"
| "strip_cr n [line] = ([line], [], [])"
| "strip_cr n (line # ls) =
     (case strip_cr (n + 1) ls of (ls, lf, crlf) \<Rightarrow>
        if ends_with line [CHR 0x0D]
        then (rev (dropWhile (\<lambda>c. c = CHR 0x0D) (rev line)) # ls, lf, n # crlf)
        else (line # ls, n # lf, crlf))"

definition crlf_diags :: "nat list \<Rightarrow> nat list \<Rightarrow> diag list" where
  "crlf_diags lf_lines crlf_lines =
     (if lf_lines \<noteq> [] \<and> crlf_lines \<noteq> []
      then map (\<lambda>linenum. diag linenum ''whitespace/newline'' 1
             (''Unexpected '' @ [CHR 0x5C] @ ''r (^M) found; better to use only '' @ [CHR 0x5C] @ ''n'')) crlf_lines
      else [])"

text \<open>Behind the last dot; the whole name when there is none.\<close>

definition extension_of :: "string \<Rightarrow> string" where
  "extension_of filename =
     (case rfind_str ''.'' filename of None \<Rightarrow> filename | Some dot \<Rightarrow> drop (dot + 1) filename)"

definition process_contents :: "env \<Rightarrow> string \<Rightarrow> string \<Rightarrow> session \<Rightarrow> session option" where
  "process_contents env filename contents S =
     (let (ls, lf_lines, crlf_lines) = strip_cr 1 (split_on (CHR ''\<newline>'') contents);
          file_extension = extension_of filename
      in map_option (write_err (''Done processing '' @ filename @ ''\<newline>''))
           (if filename \<noteq> ''-'' \<and> file_extension \<notin> set (valid_extensions S) then
              Some (write_err (''Ignoring '' @ filename @ ''; not a valid file name (''
                @ join '', '' (e_order env (valid_extensions S)) @ '')'' @ ''\<newline>'') S)
            else
              on_lint (\<lambda>_. Option.bind (ProcessFileData env S filename file_extension ls)
                (Errors filename (crlf_diags lf_lines crlf_lines))) S))"

definition ProcessFile :: "env \<Rightarrow> string \<Rightarrow> int \<Rightarrow> session \<Rightarrow> session option" where
  "ProcessFile env filename vlevel S =
     (let S = on_state (\<lambda>s. snd (SetVerboseLevel vlevel s)) S;
          S = on_state BackupFilters S
      in Option.bind (ProcessConfigOverrides env filename S) (\<lambda>(wanted, S).
           map_option (on_state RestoreFilters)
             (if \<not> wanted then Some S
              else case e_input env filename of
                None \<Rightarrow>
                  Some (write_err ((''Skipping input '' @ [CHR 0x27]) @ filename
                    @ ([CHR 0x27] @ '': Can'' @ [CHR 0x27] @ ''t open for reading'' @ ''\<newline>'')) S)
              | Some contents \<Rightarrow> process_contents env filename contents S)))"

section \<open>The program\<close>

fun process_files :: "env \<Rightarrow> string list \<Rightarrow> session \<Rightarrow> session option" where
  "process_files env [] S = Some S"
| "process_files env (filename # filenames) S =
     Option.bind (ProcessFile env filename (verbose_level (cpplint (s_lint S))) S)
       (process_files env filenames)"

text \<open>
  The keys of the dictionary of counts: categories, or what stands before their slash.
\<close>

definition counted_keys :: "cpplint_state \<Rightarrow> string list" where
  "counted_keys s =
     filter (\<lambda>c. errors_by_category s c \<noteq> None)
       (remdups (ERROR_CATEGORIES @ map (\<lambda>c. hd (split_on (CHR ''/'') c)) ERROR_CATEGORIES))"

definition main :: "env \<Rightarrow> string list \<Rightarrow> session \<Rightarrow> unit run" where
  "main env args S =
     (case ParseArguments args S of
        Quit n S \<Rightarrow> Quit n S
      | Raised \<Rightarrow> Raised
      | Done (filenames, S) \<Rightarrow>
          (case process_files env filenames (on_state ResetErrorCounts S) of
             None \<Rightarrow> Raised
           | Some S \<Rightarrow>
               let s = cpplint (s_lint S);
                   S = S\<lparr>s_lint := PrintErrorCounts (e_order env (counted_keys s)) (s_lint S)\<rparr>
               in Quit (if 0 < error_count s then 1 else 0) S))"

end
