(* ===== verification/Lint_Contract.thy ===== *)
theory Lint_Contract
  imports Lint_Process
begin

text \<open>
  Every check of a line keeps the contract with the error handler: the interpretations of the
  locales \<open>reporter\<close> and \<open>line_check\<close> for the checks of spacing, style, casts and language, and
  what follows for \<^verbatim>\<open>ProcessLine\<close> and \<^verbatim>\<open>ProcessFileData\<close>.
\<close>

section \<open>Rules for lists of messages\<close>

text \<open>All messages are well-formed, and their lines satisfy \<open>P\<close>.\<close>

named_theorems keeps \<open>rules for the shape of a check\<close>

definition keeps :: "(nat \<Rightarrow> bool) \<Rightarrow> diag list \<Rightarrow> bool" where
  "keeps P ds \<longleftrightarrow> (\<forall>d \<in> set ds. well_formed_diag d \<and> P (d_line d))"

lemma keeps_Nil [keeps]: "keeps P []"
  by (simp add: keeps_def)

lemma keeps_append [keeps]: "keeps P xs \<Longrightarrow> keeps P ys \<Longrightarrow> keeps P (xs @ ys)"
  by (auto simp: keeps_def)

lemma keeps_diag [keeps]:
  "P n \<Longrightarrow> c \<in> set ERROR_CATEGORIES \<Longrightarrow> 0 \<le> k \<Longrightarrow> k \<le> 5 \<Longrightarrow> keeps P [diag n c k m]"
  by (simp add: keeps_def well_formed_diag_diag)

lemma keeps_report_if [keeps]:
  "P n \<Longrightarrow> c \<in> set ERROR_CATEGORIES \<Longrightarrow> 0 \<le> k \<Longrightarrow> k \<le> 5 \<Longrightarrow> keeps P (report_if b n c k m)"
  by (simp add: report_if_def keeps_def well_formed_diag_diag)

lemma keeps_if [keeps]: "keeps P xs \<Longrightarrow> keeps P ys \<Longrightarrow> keeps P (if b then xs else ys)"
  by simp

lemma keeps_Let [keeps]: "(\<And>v. keeps P (f v)) \<Longrightarrow> keeps P (Let x f)"
  by (simp add: Let_def)

lemma keeps_option [keeps]:
  "keeps P xs \<Longrightarrow> (\<And>v. keeps P (f v)) \<Longrightarrow> keeps P (case x of None \<Rightarrow> xs | Some v \<Rightarrow> f v)"
  by (cases x) simp_all

lemma keeps_prod [keeps]: "(\<And>u v. keeps P (f u v)) \<Longrightarrow> keeps P (case x of (u, v) \<Rightarrow> f u v)"
  by (cases x) simp

lemma keeps_prod_app [keeps]:
  "(\<And>u v. keeps P (f u v n)) \<Longrightarrow> keeps P ((case x of (u, v) \<Rightarrow> f u v) n)"
  by (cases x) simp

lemma keeps_map [keeps]: "(\<And>x. keeps P [f x]) \<Longrightarrow> keeps P (map f xs)"
  by (simp add: keeps_def)

lemma keeps_concat_map [keeps]: "(\<And>x. keeps P (f x)) \<Longrightarrow> keeps P (concat (map f xs))"
  by (auto simp: keeps_def)

lemma keeps_confidence [keeps]: "0 \<le> (a :: int) \<Longrightarrow> 0 \<le> b \<Longrightarrow> 0 \<le> (if q then a else b)"
  "a \<le> 5 \<Longrightarrow> b \<le> 5 \<Longrightarrow> (if q then a else b) \<le> (5 :: int)"
  by simp_all

lemma keeps_True: "keeps P ds \<Longrightarrow> keeps (\<lambda>_. True) ds"
  by (simp add: keeps_def)

lemma known_category [keeps]:
  "''build/class'' \<in> set ERROR_CATEGORIES" "''build/c++11'' \<in> set ERROR_CATEGORIES"
  "''build/deprecated'' \<in> set ERROR_CATEGORIES" "''build/endif_comment'' \<in> set ERROR_CATEGORIES"
  "''build/forward_decl'' \<in> set ERROR_CATEGORIES" "''build/header_guard'' \<in> set ERROR_CATEGORIES"
  "''build/include'' \<in> set ERROR_CATEGORIES" "''build/include_alpha'' \<in> set ERROR_CATEGORIES"
  "''build/include_order'' \<in> set ERROR_CATEGORIES"
  "''build/include_what_you_use'' \<in> set ERROR_CATEGORIES" "''build/namespaces'' \<in> set ERROR_CATEGORIES"
  "''build/printf_format'' \<in> set ERROR_CATEGORIES" "''build/storage_class'' \<in> set ERROR_CATEGORIES"
  "''legal/copyright'' \<in> set ERROR_CATEGORIES" "''readability/alt_tokens'' \<in> set ERROR_CATEGORIES"
  "''readability/braces'' \<in> set ERROR_CATEGORIES" "''readability/casting'' \<in> set ERROR_CATEGORIES"
  "''readability/check'' \<in> set ERROR_CATEGORIES" "''readability/constructors'' \<in> set ERROR_CATEGORIES"
  "''readability/fn_size'' \<in> set ERROR_CATEGORIES" "''readability/function'' \<in> set ERROR_CATEGORIES"
  "''readability/inheritance'' \<in> set ERROR_CATEGORIES"
  "''readability/multiline_comment'' \<in> set ERROR_CATEGORIES"
  "''readability/multiline_string'' \<in> set ERROR_CATEGORIES"
  "''readability/namespace'' \<in> set ERROR_CATEGORIES" "''readability/nolint'' \<in> set ERROR_CATEGORIES"
  "''readability/nul'' \<in> set ERROR_CATEGORIES" "''readability/streams'' \<in> set ERROR_CATEGORIES"
  "''readability/todo'' \<in> set ERROR_CATEGORIES" "''readability/utf8'' \<in> set ERROR_CATEGORIES"
  "''runtime/arrays'' \<in> set ERROR_CATEGORIES" "''runtime/casting'' \<in> set ERROR_CATEGORIES"
  "''runtime/explicit'' \<in> set ERROR_CATEGORIES" "''runtime/int'' \<in> set ERROR_CATEGORIES"
  "''runtime/init'' \<in> set ERROR_CATEGORIES" "''runtime/invalid_increment'' \<in> set ERROR_CATEGORIES"
  "''runtime/member_string_references'' \<in> set ERROR_CATEGORIES"
  "''runtime/memset'' \<in> set ERROR_CATEGORIES" "''runtime/indentation_namespace'' \<in> set ERROR_CATEGORIES"
  "''runtime/operator'' \<in> set ERROR_CATEGORIES" "''runtime/printf'' \<in> set ERROR_CATEGORIES"
  "''runtime/printf_format'' \<in> set ERROR_CATEGORIES" "''runtime/references'' \<in> set ERROR_CATEGORIES"
  "''runtime/string'' \<in> set ERROR_CATEGORIES" "''runtime/threadsafe_fn'' \<in> set ERROR_CATEGORIES"
  "''runtime/vlog'' \<in> set ERROR_CATEGORIES" "''whitespace/blank_line'' \<in> set ERROR_CATEGORIES"
  "''whitespace/braces'' \<in> set ERROR_CATEGORIES" "''whitespace/comma'' \<in> set ERROR_CATEGORIES"
  "''whitespace/comments'' \<in> set ERROR_CATEGORIES"
  "''whitespace/empty_conditional_body'' \<in> set ERROR_CATEGORIES"
  "''whitespace/empty_loop_body'' \<in> set ERROR_CATEGORIES"
  "''whitespace/end_of_line'' \<in> set ERROR_CATEGORIES"
  "''whitespace/ending_newline'' \<in> set ERROR_CATEGORIES" "''whitespace/forcolon'' \<in> set ERROR_CATEGORIES"
  "''whitespace/indent'' \<in> set ERROR_CATEGORIES" "''whitespace/line_length'' \<in> set ERROR_CATEGORIES"
  "''whitespace/newline'' \<in> set ERROR_CATEGORIES" "''whitespace/operators'' \<in> set ERROR_CATEGORIES"
  "''whitespace/parens'' \<in> set ERROR_CATEGORIES" "''whitespace/semicolon'' \<in> set ERROR_CATEGORIES"
  "''whitespace/tab'' \<in> set ERROR_CATEGORIES" "''whitespace/todo'' \<in> set ERROR_CATEGORIES"
  by (simp_all add: ERROR_CATEGORIES_def)

lemma line_checkI: "(\<And>x n. keeps (\<lambda>l. l = n) (check x n)) \<Longrightarrow> line_check check"
  by unfold_locales (auto simp: keeps_def)

lemma reporterI: "(\<And>x n. keeps (\<lambda>_. True) (check x n)) \<Longrightarrow> reporter check"
  by unfold_locales (auto simp: keeps_def)

context reporter
begin

lemma keeps_any: "keeps (\<lambda>_. True) (check x n)"
  using reports by (simp add: keeps_def)

end

context line_check
begin

lemma keeps_own: "keeps (\<lambda>l. l = n) (check x n)"
  using reports own_line by (simp add: keeps_def)

end

section \<open>The checks of a line\<close>

named_theorems check_defs \<open>the checks, to be opened\<close>

declare nonstandard_text_def [check_defs] constructor_diags_def [check_defs]
  CheckSpacingForFunctionCall_def [check_defs] blank_line_diags_def [check_defs]
  CheckOperatorSpacing_def [check_defs] CheckParenthesisSpacing_def [check_defs]
  CheckCommaSpacing_def [check_defs] CheckBracesSpacing_def [check_defs]
  brace_placement_def [check_defs] else_braces_def [check_defs] one_line_clauses_def [check_defs]
  statement_diags_def [check_defs] single_statement_def [check_defs] CheckBraces_def [check_defs]
  check_suggestion_def [check_defs] CheckCheck_def [check_defs] indentation_diags_def [check_defs]
  line_length_diags_def [check_defs] many_commands_def [check_defs] unnamed_parameter_def [check_defs]
  CheckCStyleCast_def [check_defs] CheckForNonConstReference_def [check_defs]
  CheckGlobalStatic_def [check_defs] CheckPrintf_def [check_defs] variable_length_array_def [check_defs]
  integer_types_def [check_defs] suspicious_text_def [check_defs] memset_arguments_def [check_defs]
  disallow_last_def [check_defs] unnamed_namespace_def [check_defs]

interpretation nonstandard_text: line_check nonstandard_text
  by (rule line_checkI) (unfold check_defs, (intro keeps; simp))

interpretation function_call: line_check CheckSpacingForFunctionCall
  by (rule line_checkI) (unfold check_defs, (intro keeps; simp))

lemma keeps_comment: "keeps (\<lambda>l. l = n) (CheckComment line n next_line_start)"
  using comment.keeps_own [of n "(line, next_line_start)"] by simp

interpretation spacing: line_check "\<lambda>(cl, ns) linenum. CheckSpacing cl linenum ns"
  by (rule line_checkI)
    (unfold check_defs CheckSpacing_def, (intro keeps keeps_comment; simp))

interpretation operators: line_check CheckOperatorSpacing
  by (rule line_checkI) (unfold check_defs, (intro keeps; simp))

interpretation parentheses: line_check CheckParenthesisSpacing
  by (rule line_checkI) (unfold check_defs, (intro keeps; simp))

interpretation commas: line_check CheckCommaSpacing
  by (rule line_checkI) (unfold check_defs, (intro keeps; simp))

interpretation braces_spacing: line_check CheckBracesSpacing
  by (rule line_checkI) (unfold check_defs, (intro keeps; simp))

interpretation braces: line_check CheckBraces
  by (rule line_checkI) (unfold check_defs, (intro keeps; simp))

interpretation trailing_semicolon: reporter CheckTrailingSemicolon
  by (rule reporterI) (unfold CheckTrailingSemicolon_def, (intro keeps; simp))

interpretation check_macros: line_check CheckCheck
  by (rule line_checkI) (unfold check_defs, (intro keeps; simp))

interpretation indentation: line_check indentation_diags
  by (rule line_checkI) (unfold check_defs, (intro keeps; simp))

interpretation line_length: line_check "\<lambda>(len, line, guard) linenum. line_length_diags len linenum line guard"
  by (rule line_checkI) (unfold check_defs, (intro keeps; simp))

interpretation many_commands: line_check many_commands
  by (rule line_checkI) (unfold check_defs, (intro keeps; simp))

interpretation c_style_cast: line_check "\<lambda>(cl, cast_type, pattern) linenum. CheckCStyleCast cl linenum cast_type pattern"
  by (rule line_checkI) (unfold check_defs, (intro keeps; simp))

interpretation references: line_check "\<lambda>(cl, ns) linenum. CheckForNonConstReference cl linenum ns"
  by (rule line_checkI) (unfold check_defs, (intro keeps; simp))

interpretation global_static: line_check CheckGlobalStatic
  by (rule line_checkI) (unfold check_defs, (intro keeps; simp))

interpretation printf: line_check CheckPrintf
  by (rule line_checkI) (unfold check_defs, (intro keeps; simp))

text \<open>Checks that may raise an exception keep the contract when they do not.\<close>

definition keeps_opt :: "(nat \<Rightarrow> bool) \<Rightarrow> diag list option \<Rightarrow> bool" where
  "keeps_opt P r \<longleftrightarrow> (\<forall>ds. r = Some ds \<longrightarrow> keeps P ds)"

lemma keeps_opt_simps [simp]: "keeps_opt P None" "keeps_opt P (Some ds) \<longleftrightarrow> keeps P ds"
  by (simp_all add: keeps_opt_def)

lemma keeps_opt_map: "(\<And>v. keeps P (f v)) \<Longrightarrow> keeps_opt P (map_option f x)"
  by (cases x) simp_all

lemma keeps_optI [keeps]:
  "keeps P ds \<Longrightarrow> keeps_opt P (Some ds)" "keeps_opt P None"
  "keeps_opt P x \<Longrightarrow> keeps_opt P y \<Longrightarrow> keeps_opt P (if b then x else y)"
  "(\<And>v. keeps_opt P (g v)) \<Longrightarrow> keeps_opt P (Let w g)"
  "(\<And>v. keeps P (f v)) \<Longrightarrow> keeps_opt P (map_option f z)"
  by (simp_all add: Let_def keeps_opt_map)

lemma keeps_opt_option [keeps]:
  "keeps_opt P x \<Longrightarrow> (\<And>v. keeps_opt P (f v)) \<Longrightarrow> keeps_opt P (case y of None \<Rightarrow> x | Some v \<Rightarrow> f v)"
  by (cases y) simp_all

lemma keeps_opt_prod [keeps]: "(\<And>u v. keeps_opt P (f u v)) \<Longrightarrow> keeps_opt P (case x of (u, v) \<Rightarrow> f u v)"
  by (cases x) simp

lemma rvalue_keeps: "keeps_opt (\<lambda>l. l = n) (CheckRValueReference cl n ns)"
  unfolding CheckRValueReference_def by (intro keeps; simp)

lemma constructs_keeps: "keeps_opt (\<lambda>l. l = n) (CheckForNonStandardConstructs cl n ns)"
proof -
  have "keeps (\<lambda>l. l = n) (constructor_diags n c m args)" for c m args
    unfolding constructor_diags_def by (intro keeps; simp)
  then show ?thesis
    unfolding CheckForNonStandardConstructs_def
    by (auto simp: Let_def nonstandard_text.keeps_own split: option.splits
        intro!: keeps_append keeps_opt_map)
qed

lemma casts_keeps: "keeps_opt (\<lambda>l. l = n) (CheckCasts cl n)"
proof -
  have "keeps_opt (\<lambda>l. l = n) (function_cast cl n)" "keeps_opt (\<lambda>l. l = n) (address_of_cast cl n)"
    unfolding function_cast_def address_of_cast_def by (intro keeps; simp)+
  moreover have "keeps (\<lambda>l. l = n) (CheckCStyleCast cl n t p)" for t p
    using c_style_cast.keeps_own [of n "(cl, t, p)"] by simp
  ultimately show ?thesis
    by (cases "function_cast cl n"; cases "address_of_cast cl n")
      (auto simp: CheckCasts_def keeps_Nil Let_def intro!: keeps_append)
qed

lemma printf_format_keeps: "keeps_opt (\<lambda>l. l = n) (printf_format n line)"
  unfolding printf_format_def by (intro keeps; simp)

lemma language_rules_keeps: "keeps_opt (\<lambda>l. l = n) (language_rules cl n file_extension)"
proof -
  have rest: "keeps (\<lambda>l. l = n) (integer_types n line)" "keeps (\<lambda>l. l = n) (suspicious_text n line)"
    "keeps (\<lambda>l. l = n) (memset_arguments n line)" "keeps (\<lambda>l. l = n) (variable_length_array n line)"
    "keeps (\<lambda>l. l = n) (disallow_last cl n)" "keeps (\<lambda>l. l = n) (unnamed_namespace n line e)" for line e
    unfolding check_defs by (intro keeps; simp)+
  show ?thesis
    using casts_keeps [of n cl] printf_format_keeps [of n "elided cl ! n"]
    unfolding language_rules_def Let_def
    by (auto split: option.splits intro!: keeps_append rest keeps_report_if known_category
        global_static.keeps_own printf.keeps_own)
qed

section \<open>State\<close>

lemma CheckEnd_keeps: "keeps (\<lambda>l. l = n) (CheckEnd cl n b)"
proof -
  have "keeps (\<lambda>l. l = n) (class_CheckEnd cl n c)" "keeps (\<lambda>l. l = n) (namespace_CheckEnd cl n m)" for c m
    unfolding class_CheckEnd_def namespace_CheckEnd_def by (intro keeps; simp)+
  then show ?thesis by (simp add: CheckEnd_def keeps_Nil split: block_kind.split)
qed

lemma block_token_keeps: "keeps (\<lambda>l. l = n) (fst (block_token cl n line token ns))"
  by (simp add: block_token_def CheckEnd_keeps keeps_Nil)

lemma consume_tokens_keeps: "keeps (\<lambda>l. l = n) (fst (consume_tokens cl n line ns))"
proof (induction cl n line ns rule: consume_tokens.induct)
  case (1 cl n line ns)
  show ?case
  proof (cases "re_match re_block_token line")
    case None
    then show ?thesis by (simp add: consume_tokens.simps [of cl n line ns] keeps_Nil)
  next
    case (Some m)
    obtain ds1 ns1 where 1: "block_token cl n line (grp 1 m) ns = (ds1, ns1)" by fastforce
    obtain ds2 ns2 where 2: "consume_tokens cl n (grp 2 m) ns1 = (ds2, ns2)" by fastforce
    have "keeps (\<lambda>l. l = n) ds1" using block_token_keeps 1 by (metis fst_conv)
    moreover have "keeps (\<lambda>l. l = n) ds2" using "1.IH" [OF Some 1 [symmetric] refl] 2 by simp
    ultimately show ?thesis
      using Some 1 2 by (simp add: consume_tokens.simps [of cl n line ns] keeps_append)
  qed
qed

lemma check_access_keeps: "keeps (\<lambda>l. l = n) (fst (check_access n line ns))"
  by (auto simp: check_access_def Let_def keeps_Nil intro!: keeps_diag known_category
      split: list.splits block_kind.splits option.splits)

lemma Update_keeps: "keeps (\<lambda>l. l = n) (fst (Update cl n ns))"
proof -
  obtain line3 ns3 where 3: "consume_namespaces n (elided cl ! n)
      (UpdatePreprocessor (elided cl ! n) (ns\<lparr>previous_stack_top := (case stack ns of [] \<Rightarrow> None | b # _ \<Rightarrow> Some b)\<rparr>)
        \<lparr>stack := on_top (asm_update (elided cl ! n)) (stack (UpdatePreprocessor (elided cl ! n)
          (ns\<lparr>previous_stack_top := (case stack ns of [] \<Rightarrow> None | b # _ \<Rightarrow> Some b)\<rparr>)))\<rparr>) = (line3, ns3)"
    by fastforce
  obtain line4 ns4 where 4: "consume_class cl n line3 ns3 = (line4, ns4)" by fastforce
  obtain ds5 ns5 where 5: "check_access n line4 (if \<not> SeenOpenBrace ns4
      then ns4\<lparr>stack := on_top (CheckBegin cl n) (stack ns4)\<rparr> else ns4) = (ds5, ns5)" by fastforce
  obtain ds6 ns6 where 6: "consume_tokens cl n line4 ns5 = (ds6, ns6)" by fastforce
  have "keeps (\<lambda>l. l = n) ds5" using check_access_keeps 5 by (metis fst_conv)
  moreover have "keeps (\<lambda>l. l = n) ds6" using consume_tokens_keeps 6 by (metis fst_conv)
  ultimately show ?thesis
    by (simp add: Update_def Let_def 3 4 5 6 keeps_append)
qed

lemma function_lengths_keeps:
  assumes "CheckForFunctionLengths verbosity cl n f = Some (ds, f')"
  shows "keeps (\<lambda>l. l = n) ds"
proof -
  have check: "keeps_opt (\<lambda>l. l = n) (FunctionState_Check verbosity n f)"
    unfolding FunctionState_Check_def
    by (auto simp: Let_def keeps_Nil intro!: keeps_diag known_category)
  have "keeps (\<lambda>l. l = n) [diag n ''readability/fn_size'' 5 m]" for m by (intro keeps; simp)
  with assms check show ?thesis
    by (auto simp: CheckForFunctionLengths_def Let_def keeps_Nil keeps_opt_def
        split: if_splits prod.splits option.splits bool.splits)
qed

lemma include_keeps:
  assumes "CheckIncludeLine os filename cl n s = Some (ds, s')"
  shows "keeps (\<lambda>l. l = n) ds"
proof -
  have once: "keeps (\<lambda>l. l = n) ds" if "include_once os filename cl n i sys s = Some (ds, s')"
    for i sys s s' ds
  proof (cases "FindHeader i s")
    case (Some k)
    then have "keeps (\<lambda>l. l = n) ds \<longleftrightarrow> keeps (\<lambda>l. l = n) [diag n ''build/include'' 4
        ([CHR 0x22] @ i @ [CHR 0x22] @ '' already included at '' @ filename @ '':'' @ show_nat k)]"
      using that by (simp add: include_once_def)
    also have "\<dots>" by (intro keeps; simp)
    finally show ?thesis .
  next
    case None
    show ?thesis
    proof (cases "matches re_third_party i")
      case True
      then show ?thesis using that None by (simp add: include_once_def keeps_Nil)
    next
      case False
      with that None obtain t s1 e s2 b ds1 where
          "ds = ds1 @ (if \<not> b then [diag n ''build/include_alpha'' 4
             (''Include '' @ [CHR 0x22] @ i @ [CHR 0x22] @ '' not in alphabetical order'')] else [])"
        and "(if e \<noteq> [] then map_option (\<lambda>basename. [diag n ''build/include_order'' 4
               (e @ ''. Should be: '' @ basename @ ''.h, c system, c++ system, other.'')]) (BaseName os filename)
             else Some []) = Some ds1"
        unfolding include_once_def Let_def
        by (auto simp: bind_eq_Some_conv split_beta simp del: not_None_eq)
      then show ?thesis
        by (auto simp: keeps_Nil intro!: keeps_append keeps_diag known_category split: if_splits)
    qed
  qed
  from assms obtain bare ds' streams where ds: "ds = bare @ ds' @ streams"
      and "bare = (case re_match re_include_bare (lines cl ! n) of
            Some m \<Rightarrow>
              if \<not> matches re_third_party (grp 1 m)
              then [diag n ''build/include'' 4 ''Include the directory when naming .h files''] else []
          | None \<Rightarrow> [])"
      and "streams = (case re_match re_include (lines cl ! n) of
            Some m \<Rightarrow>
              if matches re_stream_header (grp 2 m) \<and> \<not> IsTestFilename filename then
                if grp 2 m = ''ostream''
                then [diag n ''readability/streams'' 3
                        (''For logging, include '' @ [CHR 0x22] @ ''base/logging.h'' @ [CHR 0x22] @ '' instead of <ostream>.'')]
                else [diag n ''readability/streams'' 3 ''Streams are highly discouraged.'']
              else []
          | None \<Rightarrow> [])"
      and "(case re_search re_include (lines cl ! n) of
              Some m \<Rightarrow> include_once os filename cl n (grp 2 m) (grp 1 m = ''<'') s
            | None \<Rightarrow> Some ([], s)) = Some (ds', s')"
    unfolding CheckIncludeLine_def Let_def by (auto simp: map_option_case split: option.splits prod.splits)
  moreover have "keeps (\<lambda>l. l = n) bare" "keeps (\<lambda>l. l = n) streams"
    unfolding calculation(2,3)
    by (auto intro!: keeps_diag known_category simp: keeps_Nil split: option.split)
  moreover have "keeps (\<lambda>l. l = n) ds'"
    using calculation(4) once by (auto simp: keeps_Nil split: option.splits)
  ultimately show ?thesis by (simp add: keeps_append)
qed

lemma language_keeps:
  assumes "CheckLanguage os filename cl n file_extension s = Some (ds, s')"
  shows "keeps (\<lambda>l. l = n) ds"
  using assms include_keeps [of os filename cl n s ds s'] language_rules_keeps [of n cl file_extension]
  by (auto simp: CheckLanguage_def Let_def keeps_Nil keeps_opt_def split: if_splits)

text \<open>
  Only two checks of style report on a line other than their own: a semicolon behind a block,
  and an empty body, are reported where the block and the condition end.
\<close>

lemma style_keeps:
  assumes "CheckStyle os root_re len filename cl n file_extension ns = Some ds"
  shows "keeps (\<lambda>_. True) ds"
proof -
  have own: "keeps (\<lambda>_. True) (line_length_diags len n line guard)"
    "keeps (\<lambda>_. True) (CheckSpacing cl n ns)" "keeps (\<lambda>_. True) (CheckAccess cl n ns)"
    "keeps (\<lambda>_. True) (CheckSectionSpacing cl c n)" for line guard c
    using line_length.keeps_any [of "(len, line, guard)" n] spacing.keeps_any [of "(cl, ns)" n]
      access.keeps_any [of "(cl, ns)" n] sections.keeps_any [of "(cl, c)" n] by simp_all
  have "keeps (\<lambda>_. True) ds" if "CheckRValueReference cl n ns = Some ds" for ds
    using rvalue_keeps [of n cl ns] that by (simp add: keeps_True)
  with assms show ?thesis
    by (auto simp: CheckStyle_def Let_def keeps_Nil
        intro!: keeps_append own indentation.keeps_any many_commands.keeps_any braces.keeps_any
          trailing_semicolon.keeps_any empty_body.keeps_any operators.keeps_any parentheses.keeps_any
          commas.keeps_any braces_spacing.keeps_any function_call.keeps_any check_macros.keeps_any
          alt_tokens.keeps_any
        split: option.splits)
qed

lemma other_checks_keeps: "keeps (\<lambda>l. l = n) (other_checks cl n)"
  unfolding other_checks_def
  by (intro keeps_append vlog.keeps_own posix.keeps_own increment.keeps_own make_pair.keeps_own
      captures.keeps_own redundant_virtual.keeps_own redundant_override.keeps_own)

lemma line_diags_keeps:
  assumes "line_diags src verbosity n fs = Some (ds, fs')"
  shows "keeps (\<lambda>_. True) ds"
proof -
  let ?cl = "s_lines src"
  obtain ds1 ns where u: "Update ?cl n (f_nesting fs) = (ds1, ns)" by fastforce
  have 1: "keeps (\<lambda>_. True) ds1" using Update_keeps [of n ?cl "f_nesting fs"] u by (auto intro: keeps_True)
  have 2: "keeps (\<lambda>_. True) (CheckForNamespaceIndentation ns ?cl n)"
    "keeps (\<lambda>_. True) (CheckForNonConstReference ?cl n ns)"
    using namespace_indentation.keeps_any [of "(ns, ?cl)" n] references.keeps_any [of "(?cl, ns)" n]
    by simp_all
  show ?thesis
  proof (cases "InAsmBlock ns")
    case True
    with assms u 1 2 show ?thesis by (auto simp: line_diags_def Let_def intro: keeps_append)
  next
    case False
    with assms u obtain ds3 f ds5 ds6 inc ds8 where
        d: "CheckForFunctionLengths verbosity ?cl n (f_functions fs) = Some (ds3, f)"
          "CheckStyle (s_os src) (s_root src) (s_line_length src) (s_filename src) ?cl n
             (s_extension src) ns = Some ds5"
          "CheckLanguage (s_os src) (s_filename src) ?cl n (s_extension src) (f_includes fs) = Some (ds6, inc)"
          "CheckForNonStandardConstructs ?cl n ns = Some ds8"
      and ds: "ds = ds1 @ CheckForNamespaceIndentation ns ?cl n @ ds3
             @ CheckForMultilineCommentsAndStrings ?cl n @ ds5 @ ds6
             @ CheckForNonConstReference ?cl n ns @ ds8 @ other_checks ?cl n"
      by (auto simp: line_diags_def Let_def bind_eq_Some_conv)
    have "keeps (\<lambda>_. True) ds8" using constructs_keeps [of n ?cl ns] d(4) by (simp add: keeps_True)
    then show ?thesis unfolding ds
      by (intro keeps_append 1 2 multiline.keeps_any style_keeps [OF d(2)]
          keeps_True [OF function_lengths_keeps [OF d(1)]] keeps_True [OF language_keeps [OF d(3)]]
          keeps_True [OF other_checks_keeps])
  qed
qed

section \<open>What a file prints\<close>

text \<open>
  From one state of the linter to another: lines were printed, each of them counted, the options
  are as they were, and nothing was printed with a verbosity above 5.
\<close>

definition keys_known :: "cpplint_state \<Rightarrow> bool" where
  "keys_known s \<longleftrightarrow> set (counted_keys s) = dom (errors_by_category s)"

lemma keys_known_iff:
  "keys_known s \<longleftrightarrow> dom (errors_by_category s)
     \<subseteq> set ERROR_CATEGORIES \<union> (\<lambda>c. hd (split_on (CHR ''/'') c)) ` set ERROR_CATEGORIES"
  by (auto simp: keys_known_def counted_keys_def)

lemma keys_known_increment:
  "keys_known s \<Longrightarrow> c \<in> set ERROR_CATEGORIES \<Longrightarrow> keys_known (IncrementErrorCount c s)"
  by (auto simp: keys_known_iff IncrementErrorCount_def Let_def)

lemma Errors_keys:
  "Errors filename ds L = Some L' \<Longrightarrow> keeps P ds \<Longrightarrow> keys_known (cpplint L) \<Longrightarrow> keys_known (cpplint L')"
proof (induction ds arbitrary: L)
  case Nil
  then show ?case by simp
next
  case (Cons d ds)
  then obtain L1 where L1: "Error filename d L = Some L1" "Errors filename ds L1 = Some L'"
    by (auto split: option.splits)
  from Cons.prems(2) have d: "d_category d \<in> set ERROR_CATEGORIES" "keeps P ds"
    by (auto simp: keeps_def well_formed_diag_def)
  from L1(1) Cons.prems(3) d(1) have "keys_known (cpplint L1)"
    by (auto simp: Error_def keys_known_increment split: option.splits bool.splits)
  with Cons.IH L1(2) d(2) show ?case by blast
qed

definition printed :: "lint \<Rightarrow> lint \<Rightarrow> string list \<Rightarrow> bool" where
  "printed L L' out \<longleftrightarrow>
     stderr L' = stderr L @ out \<and>
     error_count (cpplint L') = error_count (cpplint L) + length out \<and>
     filters (cpplint L') = filters (cpplint L) \<and> counting (cpplint L') = counting (cpplint L) \<and>
     filters_backup (cpplint L') = filters_backup (cpplint L) \<and>
     verbose_level (cpplint L') = verbose_level (cpplint L) \<and>
     output_format (cpplint L') = output_format (cpplint L) \<and>
     (counts_ok (cpplint L) \<longrightarrow> counts_ok (cpplint L')) \<and>
     (keys_known (cpplint L) \<longrightarrow> keys_known (cpplint L')) \<and>
     (5 < verbose_level (cpplint L) \<longrightarrow> out = [])"

lemma printed_refl: "printed L L []"
  by (simp add: printed_def)

lemma printed_trans: "printed L L1 xs \<Longrightarrow> printed L1 L2 ys \<Longrightarrow> printed L L2 (xs @ ys)"
  by (simp add: printed_def)

lemma printed_suppress:
  "printed L L1 out \<Longrightarrow> printed (suppress k n L) L1 out" "printed L (suppress k n L) []"
  "printed L (ResetNolintSuppressions L) []"
  by (simp_all add: printed_def suppress_def ResetNolintSuppressions_def)

lemma Errors_printed:
  assumes "Errors filename ds L = Some L'" and "keeps P ds"
  shows "\<exists>out. printed L L' out"
proof -
  let ?out = "map (error_text (output_format (cpplint L)) filename)
    (filter (\<lambda>d. ShouldPrintError (d_category d) (d_confidence d) (d_line d) L = Some True) ds)"
  have "?out = []" if "5 < verbose_level (cpplint L)"
  proof -
    have "ShouldPrintError (d_category d) (d_confidence d) (d_line d) L \<noteq> Some True" if "d \<in> set ds" for d
      using assms(2) that \<open>5 < verbose_level (cpplint L)\<close>
      by (auto simp: keeps_def well_formed_diag_def ShouldPrintError_def)
    then show ?thesis by (simp add: filter_empty_conv)
  qed
  moreover have "reported L L' ?out" by (rule Errors_reported [OF assms(1)])
  ultimately have "printed L L' ?out"
    using Errors_counts [OF assms(1)] Errors_keys [OF assms] by (simp add: printed_def reported_def)
  then show ?thesis ..
qed

lemma parse_nolint_printed:
  assumes "parse_nolint filename raw n L = Some L'"
  shows "\<exists>out. printed L L' out"
proof -
  obtain ds L1 where 1: "ParseNolintSuppressions raw n L = (ds, L1)" by fastforce
  have "keeps (\<lambda>l. l = n) ds" "printed L L1 []"
    using 1 by (auto simp: ParseNolintSuppressions_def Let_def keeps_Nil printed_suppress(2) printed_refl
        intro!: keeps_diag known_category split: option.splits if_splits)
  moreover have "Errors filename ds L1 = Some L'" using assms 1 by (simp add: parse_nolint_def)
  ultimately show ?thesis using Errors_printed printed_trans by blast
qed

lemma ProcessLine_printed:
  assumes "ProcessLine src n (fs, L) = Some (fs', L')"
  shows "\<exists>out. printed L L' out"
proof -
  obtain L1 ds where 1: "parse_nolint (s_filename src) (raw_lines (s_lines src) ! n) n L = Some L1"
      "line_diags src (verbose_level (cpplint L1)) n fs = Some (ds, fs')"
      "Errors (s_filename src) ds L1 = Some L'"
    using assms by (auto simp: ProcessLine_def bind_eq_Some_conv)
  show ?thesis
    using parse_nolint_printed [OF 1(1)] Errors_printed [OF 1(3) line_diags_keeps [OF 1(2)]]
      printed_trans by blast
qed

lemma process_lines_printed:
  "process_lines src ns (fs, L) = Some (fs', L') \<Longrightarrow> \<exists>out. printed L L' out"
proof (induction ns arbitrary: fs L)
  case Nil
  then show ?case using printed_refl by auto
next
  case (Cons n ns)
  then obtain fs1 L1 L2 where 1: "ProcessLine src n (fs, L) = Some (fs1, L1)"
      "Errors (s_filename src) (FlagCxx11Features (s_lines src) n) L1 = Some L2"
      "process_lines src ns (fs1, L2) = Some (fs', L')"
    by (auto simp: bind_eq_Some_conv)
  show ?case
    using ProcessLine_printed [OF 1(1)] Errors_printed [OF 1(2) cxx11.keeps_own] Cons.IH [OF 1(3)]
      printed_trans by blast
qed

lemma header_guard_printed:
  assumes "CheckForHeaderGuard os root_re filename ls L = Some L'"
  shows "\<exists>out. printed L L' out"
proof -
  have report: "\<exists>out. printed L L' out"
    if "Errors filename [diag n ''build/header_guard'' k m] L = Some L'" "0 \<le> k" "k \<le> 5" for n k m L L'
    using Errors_printed [OF that(1), of "\<lambda>_. True"] that(2,3)
    by (simp add: keeps_def well_formed_diag_diag known_category)
  have marked: "\<exists>out. printed L L' out"
    if "Option.bind (parse_nolint filename raw n L)
          (Errors filename [diag n' ''build/header_guard'' (if b then 5 else 0) m]) = Some L'"
    for n n' b m L L' raw
  proof -
    from that obtain L1 where "parse_nolint filename raw n L = Some L1"
        "Errors filename [diag n' ''build/header_guard'' (if b then 5 else 0) m] L1 = Some L'"
      by (auto simp: bind_eq_Some_conv)
    moreover have "0 \<le> (if b then 5 else 0 :: int)" "(if b then 5 else 0 :: int) \<le> 5" by simp_all
    ultimately show ?thesis using parse_nolint_printed report printed_trans by blast
  qed
  show ?thesis
  proof (cases "list_ex (searches re_nolint_guard) ls")
    case True
    with assms printed_refl show ?thesis by (auto simp: CheckForHeaderGuard_def)
  next
    case False
    define g where "g = guard_scan 0 ls guard_init"
    from assms False obtain cppvar where "GetHeaderGuardCPPVariable os root_re filename = Some cppvar"
      by (auto simp: CheckForHeaderGuard_def bind_eq_Some_conv)
    note body = assms [unfolded CheckForHeaderGuard_def, simplified False this Let_def g_def [symmetric]
        bind.bind_lunit if_False]
    show ?thesis
    proof (cases "g_ifndef g")
      case None
      with body show ?thesis by (simp add: report)
    next
      case (Some ifndef)
      note ifndef = this
      show ?thesis
      proof (cases "g_define g")
        case None
        with body ifndef show ?thesis by (simp add: report)
      next
        case (Some dfn)
        from body ifndef Some obtain L1 where
            1: "(if ifndef \<noteq> cppvar then
                  Option.bind (parse_nolint filename (ls ! g_ifndef_linenum g) (g_ifndef_linenum g) L)
                    (Errors filename [diag (g_ifndef_linenum g) ''build/header_guard''
                      (if ifndef \<noteq> cppvar @ ''_'' then 5 else 0)
                      (''#ifndef header guard has wrong style, please use: '' @ cppvar)])
                else Some L) = Some L1"
          and 2: "(if dfn \<noteq> ifndef then
               Errors filename [diag 0 ''build/header_guard'' 5
                 ((''#ifndef and #define don'' @ [CHR 0x27] @ ''t match, suggested CPP variable is: '') @ cppvar)] L1
             else if g_endif g \<noteq> Some (''#endif  // '' @ cppvar) then
               Option.bind (parse_nolint filename (ls ! g_endif_linenum g) (g_endif_linenum g) L1)
                 (Errors filename [diag (g_endif_linenum g) ''build/header_guard''
                    (if g_endif g \<noteq> Some (''#endif  // '' @ cppvar @ ''_'') then 5 else 0)
                    ((''#endif line should be '' @ [CHR 0x22] @ ''#endif  // '') @ cppvar @ [CHR 0x22])])
             else Some L1) = Some L'"
          by (auto simp: bind_eq_Some_conv simp del: append.simps)
        have "\<exists>out. printed L L1 out"
          using 1 marked printed_refl [of L] by (cases "ifndef \<noteq> cppvar") auto
        moreover have "\<exists>out. printed L1 L' out"
        proof (cases "dfn \<noteq> ifndef")
          case True
          with 2 show ?thesis by (simp add: report)
        next
          case False
          note same = this
          show ?thesis
          proof (cases "g_endif g \<noteq> Some (''#endif  // '' @ cppvar)")
            case True
            with 2 same show ?thesis by (simp only: if_False if_True not_not not_False_eq_True) (rule marked)
          next
            case False
            with 2 same printed_refl [of L1] show ?thesis by auto
          qed
        qed
        ultimately show ?thesis using printed_trans by blast
      qed
    qed
  qed
qed

lemma ends_keeps:
  "keeps (\<lambda>_. True) (CheckForCopyright ls)"
  "keeps (\<lambda>_. True) (CheckForBadCharacters ls)"
  "keeps (\<lambda>_. True) (CheckForNewlineAtEOF ls)"
  "keeps (\<lambda>_. True) (CheckForIncludeWhatYouUse os io_open order filename cl s)"
  "keeps (\<lambda>_. True) (crlf_diags lf crlf)"
  unfolding CheckForCopyright_def CheckForBadCharacters_def CheckForNewlineAtEOF_def
    CheckForIncludeWhatYouUse_def crlf_diags_def by (intro keeps; simp)+

lemma remove_comments_keeps: "keeps (\<lambda>_. True) (fst (remove_comments ls n))"
proof (induction ls n rule: remove_comments.induct)
  case (1 ls n)
  show ?case
  proof (cases "n < length ls \<and> FindNextMultiLineCommentStart ls n < length ls
      \<and> FindNextMultiLineCommentEnd ls (FindNextMultiLineCommentStart ls n) < length ls")
    case True
    with "1.IH" show ?thesis by (simp add: remove_comments.simps [of ls n] Let_def)
  next
    case False
    then show ?thesis
      by (auto simp: remove_comments.simps [of ls n] Let_def keeps_Nil intro!: keeps_diag known_category)
  qed
qed

theorem ProcessFileData_printed:
  assumes "ProcessFileData env S filename file_extension ls = Some L'"
  shows "\<exists>out. printed (s_lint S) L' out"
proof -
  define L where "L = ResetNolintSuppressions (s_lint S)"
  define ls1 where "ls1 = with_markers ls"
  obtain cds ls2 where rm: "RemoveMultiLineComments ls1 = (cds, ls2)" by fastforce
  from assms obtain root_re L1 L2 L3 L4 fs src where
      "Errors filename (CheckForCopyright ls1) L = Some L1"
    and "(if file_extension = ''h'' then CheckForHeaderGuard (e_os env) root_re filename ls1 L1
          else Some L1) = Some L2"
    and "Errors filename cds L2 = Some L3"
    and "process_lines src [0..<NumLines (s_lines src)] (file_state_init, L3) = Some (fs, L4)"
    and "Errors filename
            (CheckCompletedBlocks (f_nesting fs) @
             CheckForIncludeWhatYouUse (e_os env) (e_header env) (e_order env) filename
               (s_lines src) (f_includes fs) @
             CheckForBadCharacters ls2 @ CheckForNewlineAtEOF ls2) L4 = Some L'"
    unfolding ProcessFileData_def Let_def L_def [symmetric] ls1_def [symmetric] rm prod.case
      bind_eq_Some_conv split_paired_Ex by blast
  moreover have "keeps (\<lambda>_. True) cds"
    using remove_comments_keeps [of ls1 0] rm by (simp add: RemoveMultiLineComments_def)
  moreover have "\<exists>out. printed L1 L2 out"
    using calculation(2) header_guard_printed printed_refl [of L1]
    by (cases "file_extension = ''h''") auto
  moreover have "keeps (\<lambda>_. True)
      (CheckCompletedBlocks (f_nesting fs) @
             CheckForIncludeWhatYouUse (e_os env) (e_header env) (e_order env) filename
               (s_lines src) (f_includes fs) @
             CheckForBadCharacters ls2 @ CheckForNewlineAtEOF ls2)"
    using completed_blocks.keeps_any by (intro keeps_append ends_keeps)
  moreover have "printed (s_lint S) L []" by (simp add: L_def printed_suppress)
  ultimately show ?thesis
    using Errors_printed process_lines_printed ends_keeps(1) printed_trans by meson
qed

section \<open>What a run keeps\<close>

text \<open>
  Everything of the linter but the filters, the suppressions and what was counted and printed;
  the settings other than the length of a line; the verbosity.
\<close>

definition same_options :: "session \<Rightarrow> session \<Rightarrow> bool" where
  "same_options S S' \<longleftrightarrow>
     root S' = root S \<and> valid_extensions S' = valid_extensions S \<and>
     counting (cpplint (s_lint S')) = counting (cpplint (s_lint S)) \<and>
     output_format (cpplint (s_lint S')) = output_format (cpplint (s_lint S)) \<and>
     verbose_level (cpplint (s_lint S')) = verbose_level (cpplint (s_lint S)) \<and>
     filters_backup (cpplint (s_lint S')) = filters_backup (cpplint (s_lint S)) \<and>
     (\<exists>more. stderr (s_lint S') = stderr (s_lint S) @ more) \<and>
     (counts_ok (cpplint (s_lint S)) \<longrightarrow> counts_ok (cpplint (s_lint S'))) \<and>
     (keys_known (cpplint (s_lint S)) \<longrightarrow> keys_known (cpplint (s_lint S')))"

lemma same_options_refl: "same_options S S"
  by (simp add: same_options_def)

lemma same_options_trans: "same_options S S1 \<Longrightarrow> same_options S1 S2 \<Longrightarrow> same_options S S2"
  by (auto simp: same_options_def)

lemma same_options_write_err: "same_options S (write_err s S)"
  by (simp add: same_options_def write_err_def)

lemma write_err_cpplint [simp]: "cpplint (s_lint (write_err s S)) = cpplint (s_lint S)"
  by (simp add: write_err_def)

lemma same_options_line_length: "same_options S (S\<lparr>line_length := n\<rparr>)"
  by (simp add: same_options_def)

lemma config_line_same:
  assumes "config_line env filename cfg_file base_name line c = Some (v, c')"
  shows "same_options (cfg_session c) (cfg_session c')
    \<and> cpplint (s_lint (cfg_session c')) = cpplint (s_lint (cfg_session c))"
  using assms
  by (auto simp: config_line_def Let_def same_options_write_err same_options_refl
      same_options_line_length split: if_splits option.splits)

lemma config_lines_same:
  "config_lines env filename cfg_file base_name ls c = Some (v, c') \<Longrightarrow>
     same_options (cfg_session c) (cfg_session c')
     \<and> cpplint (s_lint (cfg_session c')) = cpplint (s_lint (cfg_session c))"
proof (induction ls arbitrary: c)
  case Nil
  then show ?case by (simp add: same_options_refl)
next
  case (Cons line ls)
  then obtain w c1 where 1: "config_line env filename cfg_file base_name line c = Some (w, c1)"
    by (auto split: option.splits)
  note same = config_line_same [OF 1]
  show ?case
  proof (cases w)
    case Process
    with Cons 1 have "config_lines env filename cfg_file base_name ls c1 = Some (v, c')" by simp
    from Cons.IH [OF this] same show ?thesis using same_options_trans by metis
  next
    case Exclude
    with Cons 1 same show ?thesis by simp
  qed
qed

lemma config_dirs_same:
  "config_dirs env filename p c = Some (v, c') \<Longrightarrow>
     same_options (cfg_session c) (cfg_session c')
     \<and> cpplint (s_lint (cfg_session c')) = cpplint (s_lint (cfg_session c))"
proof (induction env filename p c rule: config_dirs.induct)
  case (1 env filename p c)
  obtain d b where db: "path_split p = (d, b)" by fastforce
  define f where "f = path_join d ''CPPLINT.cfg''"
  note step = "1.prems" [unfolded config_dirs.simps [of env filename p c] db Let_def prod.case
      f_def [symmetric]]
  note IH = "1.IH" [OF db [symmetric] refl, unfolded f_def [symmetric]]
  show ?case
  proof (cases "b = [] \<or> \<not> e_isfile env f")
    case True
    with step IH(1) show ?thesis by (auto simp: same_options_refl split: if_splits)
  next
    case False
    show ?thesis
    proof (cases "e_config env f")
      case None
      with False step show ?thesis
        by (auto simp: same_options_write_err)
    next
      case (Some ls)
      with False step obtain w c1 where
          1: "config_lines env filename f b ls c = Some (w, c1)" by (auto split: option.splits)
      note same = config_lines_same [OF 1]
      show ?thesis
      proof (cases "w = Process \<and> keep_looking c1")
        case True
        with False Some step 1 have "config_dirs env filename d c1 = Some (v, c')" by simp
        moreover from True False Some 1 have "config_dirs env filename d c1 = Some (v, c') \<Longrightarrow>
            same_options (cfg_session c1) (cfg_session c')
            \<and> cpplint (s_lint (cfg_session c')) = cpplint (s_lint (cfg_session c1))"
          using IH(2) by simp
        ultimately show ?thesis using same same_options_trans by metis
      next
        case False
        with \<open>\<not> (b = [] \<or> \<not> e_isfile env f)\<close> Some step 1 same show ?thesis
          by (cases w) auto
      qed
    qed
  qed
qed

lemma add_filters_same:
  assumes "add_filters fs S = Some S'"
  shows "same_options S S'"
proof -
  from assms obtain fss where "S' = on_state (\<lambda>s. s\<lparr>filters := fss\<rparr>) S"
    by (auto simp: add_filters_def on_state_def AddFilters_def Let_def split: option.splits)
  then show ?thesis
    by (simp add: same_options_def on_state_def counts_ok_def keys_known_iff)
qed

lemma add_all_filters_same: "add_all_filters fss S = Some S' \<Longrightarrow> same_options S S'"
proof (induction fss arbitrary: S)
  case Nil
  then show ?case by (simp add: same_options_refl)
next
  case (Cons fs fss)
  then obtain S1 where "add_filters fs S = Some S1" "add_all_filters fss S1 = Some S'"
    by (auto simp: bind_eq_Some_conv)
  with Cons.IH add_filters_same show ?case using same_options_trans by blast
qed

lemma overrides_same:
  assumes "ProcessConfigOverrides env filename S = Some (b, S')"
  shows "same_options S S'"
proof -
  from assms obtain v c where c: "config_dirs env filename (abspath (e_os env) filename)
      \<lparr>cfg_filters = [], keep_looking = True, cfg_session = S\<rparr> = Some (v, c)"
    by (auto simp: ProcessConfigOverrides_def split: option.splits)
  from config_dirs_same [OF c] have "same_options S (cfg_session c)" by simp
  with assms c show ?thesis
    by (cases v) (auto simp: ProcessConfigOverrides_def dest: add_all_filters_same same_options_trans)
qed

lemma printed_same_options: "printed (s_lint S) L out \<Longrightarrow> same_options S (S\<lparr>s_lint := L\<rparr>)"
  by (simp add: printed_def same_options_def)

lemma contents_same:
  assumes "process_contents env filename contents S = Some S'"
  shows "same_options S S'"
proof -
  obtain ls lf crlf where cr: "strip_cr 1 (split_on (CHR ''\<newline>'') contents) = (ls, lf, crlf)"
    by (metis prod_cases3)
  show ?thesis
  proof (cases "filename \<noteq> ''-'' \<and> extension_of filename \<notin> set (valid_extensions S)")
    case True
    with assms cr show ?thesis
      by (auto simp: process_contents_def Let_def
          intro: same_options_trans [OF same_options_write_err same_options_write_err])
  next
    case False
    with assms cr obtain L1 L2 where
        1: "ProcessFileData env S filename (extension_of filename) ls = Some L1"
          "Errors filename (crlf_diags lf crlf) L1 = Some L2"
        and S': "S' = write_err (''Done processing '' @ filename @ ''\<newline>'') (S\<lparr>s_lint := L2\<rparr>)"
      by (auto simp: process_contents_def Let_def on_lint_def bind_eq_Some_conv)
    obtain out1 out2 where "printed (s_lint S) L1 out1" "printed L1 L2 out2"
      using ProcessFileData_printed [OF 1(1)] Errors_printed [OF 1(2) ends_keeps(5)] by blast
    from printed_same_options [OF printed_trans [OF this]] S' show ?thesis
      using same_options_trans same_options_write_err by blast
  qed
qed

text \<open>The filters in force before a file are in force again behind it, however it was processed.\<close>

theorem ProcessFile_keeps:
  assumes "ProcessFile env filename vlevel S = Some S'"
  shows "filters (cpplint (s_lint S')) = filters (cpplint (s_lint S))
    \<and> verbose_level (cpplint (s_lint S')) = vlevel
    \<and> root S' = root S \<and> valid_extensions S' = valid_extensions S
    \<and> counting (cpplint (s_lint S')) = counting (cpplint (s_lint S))
    \<and> output_format (cpplint (s_lint S')) = output_format (cpplint (s_lint S))
    \<and> (counts_ok (cpplint (s_lint S)) \<longrightarrow> counts_ok (cpplint (s_lint S')))
    \<and> (keys_known (cpplint (s_lint S)) \<longrightarrow> keys_known (cpplint (s_lint S')))
    \<and> (\<exists>more. stderr (s_lint S') = stderr (s_lint S) @ more)"
proof -
  define S0 where "S0 = on_state BackupFilters (on_state (\<lambda>s. snd (SetVerboseLevel vlevel s)) S)"
  have S0: "filters_backup (cpplint (s_lint S0)) = filters (cpplint (s_lint S))"
    "verbose_level (cpplint (s_lint S0)) = vlevel" "root S0 = root S"
    "valid_extensions S0 = valid_extensions S"
    "counting (cpplint (s_lint S0)) = counting (cpplint (s_lint S))"
    "output_format (cpplint (s_lint S0)) = output_format (cpplint (s_lint S))"
    "stderr (s_lint S0) = stderr (s_lint S)"
    "counts_ok (cpplint (s_lint S)) \<Longrightarrow> counts_ok (cpplint (s_lint S0))"
    "keys_known (cpplint (s_lint S)) \<Longrightarrow> keys_known (cpplint (s_lint S0))"
    by (simp_all add: S0_def on_state_def BackupFilters_def SetVerboseLevel_def counts_ok_def keys_known_def
        counted_keys_def)
  from assms obtain wanted S1 S2 where
      1: "ProcessConfigOverrides env filename S0 = Some (wanted, S1)"
    and 2: "(if \<not> wanted then Some S1
              else case e_input env filename of
                None \<Rightarrow>
                  Some (write_err ((''Skipping input '' @ [CHR 0x27]) @ filename
                    @ ([CHR 0x27] @ '': Can'' @ [CHR 0x27] @ ''t open for reading'' @ ''\<newline>'')) S1)
              | Some contents \<Rightarrow> process_contents env filename contents S1) = Some S2"
    and S': "S' = on_state RestoreFilters S2"
    unfolding ProcessFile_def Let_def S0_def [symmetric] by (auto simp: bind_eq_Some_conv)
  have "same_options S1 S2"
  proof (cases "wanted \<and> e_input env filename \<noteq> None")
    case True
    with 2 contents_same show ?thesis by auto
  next
    case False
    with 2 show ?thesis
      by (cases wanted) (auto simp: same_options_refl same_options_write_err)
  qed
  with overrides_same [OF 1] have "same_options S0 S2" using same_options_trans by blast
  with S0 show ?thesis
    unfolding S' by (auto simp: same_options_def on_state_def RestoreFilters_def counts_ok_def keys_known_def counted_keys_def)
qed

lemma process_files_keeps:
  "process_files env filenames S = Some S' \<Longrightarrow>
     filters (cpplint (s_lint S')) = filters (cpplint (s_lint S))
     \<and> counting (cpplint (s_lint S')) = counting (cpplint (s_lint S))
     \<and> verbose_level (cpplint (s_lint S')) = verbose_level (cpplint (s_lint S))
     \<and> (counts_ok (cpplint (s_lint S)) \<longrightarrow> counts_ok (cpplint (s_lint S')))
     \<and> (keys_known (cpplint (s_lint S)) \<longrightarrow> keys_known (cpplint (s_lint S')))"
proof (induction filenames arbitrary: S)
  case Nil
  then show ?case by simp
next
  case (Cons filename filenames)
  then obtain S1 where 1: "ProcessFile env filename (verbose_level (cpplint (s_lint S))) S = Some S1"
      "process_files env filenames S1 = Some S'"
    by (auto simp: bind_eq_Some_conv)
  from ProcessFile_keeps [OF 1(1)] Cons.IH [OF 1(2)] show ?case by auto
qed

end
