(* ===== verification/Lint_Tool_Theorems.thy ===== *)
theory Lint_Tool_Theorems
  imports Lint_Contract Lint_Theorems
begin

text \<open>
  The properties of \<^verbatim>\<open>tools/cpplint.py\<close> as a program: its command line and configuration files,
  what a file leaves behind, the totals, the messages of a line, and the checks that can fail.
\<close>

text \<open>Surroundings without any file, for the examples.\<close>

definition bare_env :: env where
  "bare_env =
     \<lparr>e_os = \<lparr>getcwd = ''/'', path_exists = (\<lambda>_. False)\<rparr>, e_isfile = (\<lambda>_. False),
      e_config = (\<lambda>_. None), e_input = (\<lambda>_. None), e_header = (\<lambda>_. None),
      e_compile = (\<lambda>_. None), e_order = id\<rparr>"

section \<open>Options and configuration\<close>

text \<open>C30: Settings written as long options are the settings the program starts with: whatever
  numbers, format, counting style, root and filters were written, they are read back, and the
  operands behind \<^verbatim>\<open>--\<close> are the files, even those that begin with a dash.\<close>

theorem options_roundtrip:
  assumes out: "out \<in> {''emacs'', ''vs7'', ''eclipse''}"
    and style: "style \<in> {''total'', ''toplevel'', ''detailed''}"
    and ne: "filenames \<noteq> []"
    and fs: "set_filters fs S = Some S1" and fsne: "fs \<noteq> []"
  shows "ParseArguments
      (map long_argument [(''verbose'', show_int v), (''output'', out), (''counting'', style),
         (''linelength'', show_int n), (''root'', dir), (''filter'', fs)] @ ''--'' # filenames) S
    = Done (filenames, S\<lparr>line_length := n, root := Some dir,
        s_lint := (s_lint S1)\<lparr>cpplint := (cpplint (s_lint S1))\<lparr>verbose_level := v, output_format := out,
          counting := style\<rparr>\<rparr>\<rparr>)"
proof -
  have "list_all (\<lambda>(key, v). key @ ''='' \<in> set LONG_OPTIONS)
      [(''verbose'', show_int v), (''output'', out), (''counting'', style),
       (''linelength'', show_int n), (''root'', dir), (''filter'', fs)]"
    by (simp add: LONG_OPTIONS_def)
  note getopt = py_getopt_arguments [OF this, of filenames]
  show ?thesis
    unfolding ParseArguments_def getopt
    using ne set_filters_same [OF fs, where n = n and r = "Some dir" and v = v and out = out]
    by (simp add: parse_argument_ok(2) [OF out] parse_argument_ok(3) [OF style] fsne on_state_def
       SetOutputFormat_def SetVerboseLevel_def SetCountingStyle_def del: parse_argument_ok(2,3))
qed

theorem options_roundtrip_witness:
  "ParseArguments [''--verbose=3'', ''--output=vs7'', ''--counting=total'', ''--linelength=100'',
     ''--root=src'', ''--filter=-build'', ''--'', ''-a.cc''] session_init
   = Done ([''-a.cc''], session_init\<lparr>line_length := 100, root := Some ''src'',
       s_lint := lint_init\<lparr>cpplint := CppLintState_init\<lparr>verbose_level := 3, output_format := ''vs7'',
         counting := ''total'', filters := [''-build/include_alpha'', ''-build'']\<rparr>\<rparr>\<rparr>)"
proof -
  have f: "set_filters ''-build'' session_init = Some (session_init\<lparr>s_lint := lint_init\<lparr>cpplint :=
      CppLintState_init\<lparr>filters := [''-build/include_alpha'', ''-build'']\<rparr>\<rparr>\<rparr>)"
  proof -
    have "filter (\<lambda>f. f \<noteq> []) (map bstrip (split_on (CHR '','') ''-build'')) = [''-build'']" by code_simp
    then show ?thesis
      by (simp add: set_filters_def SetFilters_def AddFilters_def DEFAULT_FILTERS_def signed_def on_state_def
          session_init_def lint_init_def)
  qed
  have "show_int 3 = ''3''" "show_int 100 = ''100''" by code_simp+
  with options_roundtrip [OF _ _ _ f, where out = "''vs7''" and style = "''total''"
      and filenames = "[''-a.cc'']" and v = 3 and n = 100 and dir = "''src''"]
  show ?thesis by (simp add: long_argument_def session_init_def)
qed

text \<open>The configuration of the directory above is read behind that of the directory of a file.\<close>

lemma config_dirs_line_length:
  assumes f: "path_split (abspath (e_os env) filename) = (inner, base)" "base \<noteq> []"
    and d: "path_split inner = (outer, dir)" "dir \<noteq> []"
    and r: "path_split outer = (ceiling, leaf)" "\<not> e_isfile env (path_join ceiling ''CPPLINT.cfg'')"
    and t: "snd (path_split ceiling) = []"
    and fi: "e_isfile env (path_join inner ''CPPLINT.cfg'')"
      "e_config env (path_join inner ''CPPLINT.cfg'') = Some [linelength_line m]"
    and fo: "e_isfile env (path_join outer ''CPPLINT.cfg'')"
      "e_config env (path_join outer ''CPPLINT.cfg'') = Some [linelength_line n]"
  shows "ProcessConfigOverrides env filename S = Some (True, S\<lparr>line_length := n\<rparr>)"
proof -
  have "config_dirs env filename ceiling c = Some (Process, c)" for c
    using t by (simp add: config_dirs.simps [of env filename ceiling] split_beta Let_def)
  then have "config_dirs env filename outer c = Some (Process, c)" if "keep_looking c" for c
    using r by (simp add: config_dirs.simps [of env filename outer] Let_def)
  with f d fi fo show ?thesis
    by (simp add: ProcessConfigOverrides_def
      config_dirs.simps [of env filename "abspath (e_os env) filename"]
      config_dirs.simps [of env filename inner] config_line_linelength Let_def)
qed

lemma contents_line_length:
  "process_contents env filename contents S = Some S' \<Longrightarrow> line_length S' = line_length S"
  by (auto simp: process_contents_def Let_def on_lint_def write_err_def split: prod.splits if_splits)

lemma ProcessFile_line_length:
  assumes "ProcessFile env filename v S = Some S'"
    and "ProcessConfigOverrides env filename
      (on_state BackupFilters (on_state (\<lambda>s. snd (SetVerboseLevel v s)) S)) = Some (wanted, S1)"
  shows "line_length S' = line_length S1"
  using assms
  by (auto simp: ProcessFile_def on_state_def write_err_def dest: contents_line_length
      split: if_splits option.splits)

text \<open>C31: With a \<^verbatim>\<open>linelength\<close> in the \<^verbatim>\<open>CPPLINT.cfg\<close> of a file's directory and one in the directory
  above, the outer one is in force for the file, and it stays in force behind the file.\<close>

theorem outer_line_length:
  assumes "path_split (abspath (e_os env) filename) = (inner, base)" "base \<noteq> []"
    and "path_split inner = (outer, dir)" "dir \<noteq> []"
    and "path_split outer = (ceiling, leaf)" "\<not> e_isfile env (path_join ceiling ''CPPLINT.cfg'')"
    and "snd (path_split ceiling) = []"
    and "e_isfile env (path_join inner ''CPPLINT.cfg'')"
      "e_config env (path_join inner ''CPPLINT.cfg'') = Some [linelength_line m]"
    and "e_isfile env (path_join outer ''CPPLINT.cfg'')"
      "e_config env (path_join outer ''CPPLINT.cfg'') = Some [linelength_line n]"
    and "ProcessFile env filename v S = Some S'"
  shows "ProcessConfigOverrides env filename S = Some (True, S\<lparr>line_length := n\<rparr>)
    \<and> line_length S' = n"
  using config_dirs_line_length [OF assms(1-11)] ProcessFile_line_length [OF assms(12)] by simp

theorem outer_line_length_witness:
  "map_option line_length (ProcessFile
     (bare_env\<lparr>e_os := \<lparr>getcwd = ''/a/b'', path_exists = (\<lambda>_. False)\<rparr>,
        e_isfile := (\<lambda>f. f \<in> {''/a/b/CPPLINT.cfg'', ''/a/CPPLINT.cfg''}),
        e_config := (\<lambda>f. if f = ''/a/b/CPPLINT.cfg'' then Some [''linelength=100'']
          else if f = ''/a/CPPLINT.cfg'' then Some [''linelength=80''] else None)\<rparr>)
     ''x.cc'' 1 session_init) = Some 80"
proof -
  define env where "env =
     bare_env\<lparr>e_os := \<lparr>getcwd = ''/a/b'', path_exists = (\<lambda>_. False)\<rparr>,
        e_isfile := (\<lambda>f. f \<in> {''/a/b/CPPLINT.cfg'', ''/a/CPPLINT.cfg''}),
        e_config := (\<lambda>f. if f = ''/a/b/CPPLINT.cfg'' then Some [''linelength=100'']
          else if f = ''/a/CPPLINT.cfg'' then Some [''linelength=80''] else None)\<rparr>"
  have p: "path_split (abspath (e_os env) ''x.cc'') = (''/a/b'', ''x.cc'')"
    "path_split ''/a/b'' = (''/a'', ''b'')" "path_split ''/a'' = (''/'', ''a'')"
    "snd (path_split ''/'') = []"
    "path_join ''/a/b'' ''CPPLINT.cfg'' = ''/a/b/CPPLINT.cfg''"
    "path_join ''/a'' ''CPPLINT.cfg'' = ''/a/CPPLINT.cfg''"
    "path_join ''/'' ''CPPLINT.cfg'' = ''/CPPLINT.cfg''"
    "linelength_line 100 = ''linelength=100''" "linelength_line 80 = ''linelength=80''"
    unfolding env_def by code_simp+
  have env: "e_isfile env ''/a/b/CPPLINT.cfg''" "e_isfile env ''/a/CPPLINT.cfg''"
    "\<not> e_isfile env ''/CPPLINT.cfg''"
    "e_config env ''/a/b/CPPLINT.cfg'' = Some [''linelength=100'']"
    "e_config env ''/a/CPPLINT.cfg'' = Some [''linelength=80'']"
    "e_input env = (\<lambda>_. None)"
    by (simp_all add: env_def bare_env_def)
  have "ProcessFile env ''x.cc'' 1 session_init \<noteq> None"
    using config_dirs_line_length [of env "''x.cc''" "''/a/b''" "''x.cc''" "''/a''" "''b''" "''/''"
      "''a''" 100 80 "on_state BackupFilters (on_state (\<lambda>s. snd (SetVerboseLevel 1 s)) session_init)"]
    by (simp add: p env ProcessFile_def)
  then obtain S' where S': "ProcessFile env ''x.cc'' 1 session_init = Some S'" by blast
  from outer_line_length [OF p(1) _ p(2) _ p(3) _ p(4) _ _ _ _ S', of 100 80] S'
  show ?thesis unfolding env_def [symmetric] by (simp add: p env)
qed

section \<open>What a file and a run leave behind\<close>

text \<open>C26: Whatever a file, its configuration files and its messages are, behind the file the
  filters are those from before it, the verbosity is the one the file was given, and the output
  format, the counting style, \<^verbatim>\<open>--root\<close> and \<^verbatim>\<open>--extensions\<close> are unchanged; what was printed before
  stays. The one option that need not be restored is the line length: it is what the
  configuration files made of it.\<close>

theorem ProcessFile_restores:
  assumes "ProcessFile env filename vlevel S = Some S'"
  shows "filters (cpplint (s_lint S')) = filters (cpplint (s_lint S))
    \<and> verbose_level (cpplint (s_lint S')) = vlevel
    \<and> output_format (cpplint (s_lint S')) = output_format (cpplint (s_lint S))
    \<and> counting (cpplint (s_lint S')) = counting (cpplint (s_lint S))
    \<and> root S' = root S \<and> valid_extensions S' = valid_extensions S
    \<and> (\<exists>more. stderr (s_lint S') = stderr (s_lint S) @ more)
    \<and> (\<exists>wanted S1. ProcessConfigOverrides env filename
          (on_state BackupFilters (on_state (\<lambda>s. snd (SetVerboseLevel vlevel s)) S)) = Some (wanted, S1)
        \<and> line_length S' = line_length S1)"
proof -
  obtain wanted S1 where "ProcessConfigOverrides env filename
      (on_state BackupFilters (on_state (\<lambda>s. snd (SetVerboseLevel vlevel s)) S)) = Some (wanted, S1)"
    using assms by (auto simp: ProcessFile_def bind_eq_Some_conv)
  with ProcessFile_line_length [OF assms this] ProcessFile_keeps [OF assms] show ?thesis by blast
qed

theorem ProcessFile_restores_witness:
  "map_option (\<lambda>S. (filters (cpplint (s_lint S)), stderr (s_lint S)))
     (ProcessFile (bare_env\<lparr>e_isfile := (\<lambda>f. f = ''/CPPLINT.cfg''),
        e_config := (\<lambda>_. Some [''filter=-build'']), e_input := (\<lambda>_. Some ''int x;'')\<rparr>)
        ''a.txt'' 1 session_init)
   = Some (DEFAULT_FILTERS, [''Ignoring a.txt; not a valid file name (cc, h, cpp, cu, cuh)\<newline>'',
       ''Done processing a.txt\<newline>''])"
proof -
  define env where "env = bare_env\<lparr>e_isfile := (\<lambda>f. f = ''/CPPLINT.cfg''),
        e_config := (\<lambda>_. Some [''filter=-build'']), e_input := (\<lambda>_. Some ''int x;'')\<rparr>"
  have "map_option (\<lambda>S. stderr (s_lint S)) (ProcessFile env ''a.txt'' 1 session_init)
      = Some [''Ignoring a.txt; not a valid file name (cc, h, cpp, cu, cuh)\<newline>'',
          ''Done processing a.txt\<newline>'']"
    unfolding env_def by code_simp
  then obtain S' where S': "ProcessFile env ''a.txt'' 1 session_init = Some S'"
      "stderr (s_lint S') = [''Ignoring a.txt; not a valid file name (cc, h, cpp, cu, cuh)\<newline>'',
        ''Done processing a.txt\<newline>'']"
    by blast
  from ProcessFile_restores [OF S'(1)] S' show ?thesis
    unfolding env_def [symmetric] by (simp add: session_init_def lint_init_def CppLintState_init_def)
qed

text \<open>C27: A run that counts by category ends with status 0 exactly when nothing was counted, and
  its last lines are one for each category counted, in some order, whose numbers add up to the
  total on the line behind them.\<close>

theorem main_totals:
  assumes "ParseArguments args S = Done (filenames, S0)" and "main env args S = Quit status S'"
    and "counting (cpplint (s_lint S0)) \<in> {''toplevel'', ''detailed''}"
    and "\<And>xs. distinct (e_order env xs) = distinct xs \<and> set (e_order env xs) = set xs"
  shows "status = (if error_count (cpplint (s_lint S')) = 0 then 0 else 1) \<and>
    (\<exists>counts printed_before. distinct (map fst counts)
      \<and> map_of counts = errors_by_category (cpplint (s_lint S'))
      \<and> sum_list (map snd counts) = error_count (cpplint (s_lint S'))
      \<and> stderr (s_lint S') = printed_before @ map (\<lambda>(c, n). category_line c n) counts
          @ [total_line (error_count (cpplint (s_lint S')))])"
proof -
  obtain S1 where S1: "process_files env filenames (on_state ResetErrorCounts S0) = Some S1"
    using assms(1,2) by (auto simp: main_def split: option.splits)
  define s where "s = cpplint (s_lint S1)"
  define ks where "ks = e_order env (counted_keys s)"
  have S': "status = (if 0 < error_count s then 1 else 0)"
      "S' = S1\<lparr>s_lint := PrintErrorCounts ks (s_lint S1)\<rparr>"
    using assms(1,2) S1 by (auto simp: main_def Let_def s_def ks_def)
  have "counts_ok (cpplint (s_lint (on_state ResetErrorCounts S0)))"
    "keys_known (cpplint (s_lint (on_state ResetErrorCounts S0)))"
    by (simp_all add: on_state_def counts_ok_reset keys_known_iff) (simp add: ResetErrorCounts_def)
  with process_files_keeps [OF S1] have kept: "counts_ok s" "keys_known s"
      "counting s = counting (cpplint (s_lint S0))"
    by (simp_all add: s_def on_state_def ResetErrorCounts_def)
  have ks: "distinct ks" "set ks = dom (errors_by_category s)"
    using assms(4) [of "counted_keys s"] kept(2)
    by (simp_all add: ks_def keys_known_def) (simp add: counted_keys_def)
  have "sum_list (map (\<lambda>c. the (errors_by_category s c)) ks) = error_count s"
    using kept(1,3) assms(3) ks by (auto simp: counts_ok_def sum_list_distinct_conv_sum_set)
  moreover have "map_of (map (\<lambda>c. (c, the (errors_by_category s c))) ks) = errors_by_category s"
    using ks(2) by (auto simp: map_of_map_restrict restrict_map_def domIff)
  ultimately show ?thesis using S' ks
    by (intro conjI exI [of _ "map (\<lambda>c. (c, the (errors_by_category s c))) ks"]
        exI [of _ "stderr (s_lint S1)"])
      (auto simp: PrintErrorCounts_def comp_def s_def [symmetric])
qed

theorem main_totals_witness:
  "\<exists>S'. main (bare_env\<lparr>e_input := (\<lambda>_. Some ''int x;'')\<rparr>)
       [''--counting=detailed'', ''a.txt''] session_init = Quit 0 S' \<and>
     last (stderr (s_lint S')) = ''Total errors found: 0\<newline>''"
proof -
  define env where "env = bare_env\<lparr>e_input := (\<lambda>_. Some ''int x;'')\<rparr>"
  have "(case ParseArguments [''--counting=detailed'', ''a.txt''] session_init of
      Done (fs, S) \<Rightarrow> Some (counting (cpplint (s_lint S))) | _ \<Rightarrow> None) = Some ''detailed''" by code_simp
  then obtain fs S0 where
      S0: "ParseArguments [''--counting=detailed'', ''a.txt''] session_init = Done (fs, S0)"
      "counting (cpplint (s_lint S0)) = ''detailed''"
    by (auto split: run.splits)
  have "(case main env [''--counting=detailed'', ''a.txt''] session_init of
      Quit n S \<Rightarrow> Some n | _ \<Rightarrow> None) = Some 0"
    unfolding env_def by code_simp
  then obtain S' where S': "main env [''--counting=detailed'', ''a.txt''] session_init = Quit 0 S'"
    by (auto split: run.splits)
  have "show_nat 0 = ''0''" by code_simp
  have "distinct (e_order env xs) = distinct xs \<and> set (e_order env xs) = set xs" for xs
    by (simp add: env_def bare_env_def)
  from main_totals [OF S0(1) S' _ this] S0(2) have "last (stderr (s_lint S')) = total_line 0"
    by (auto split: if_splits)
  with S' \<open>show_nat 0 = ''0''\<close> show ?thesis unfolding env_def [symmetric] by (simp add: total_line_def)
qed

section \<open>Include what you use\<close>

text \<open>C32: A header is asked for exactly when some line calls for it and it is not included, in the
  file or in a header of its module; the message stands at the last line that calls for it and
  names what that line calls for last. For a \<^verbatim>\<open>.cc\<close> file a header of the module must be
  found.\<close>

theorem include_what_you_use:
  assumes "\<And>xs. set (order xs) = set xs"
  shows "d \<in> set (CheckForIncludeWhatYouUse os io_open order filename cl s) \<longleftrightarrow>
     (\<not> ends_with filename ''.cc'' \<or> fst (included_headers os io_open order filename s)) \<and>
     (\<exists>h n t. called_last cl h n t \<and> snd (included_headers os io_open order filename s) (strip_header h) = None
        \<and> d = diag n ''build/include_what_you_use'' 4 (''Add #include '' @ h @ '' for '' @ t))"
  by (rule IWYU_iff [OF assms])

theorem include_what_you_use_witness:
  "diag 1 ''build/include_what_you_use'' 4 ''Add #include <list> for list<>'' \<in> set
     (CheckForIncludeWhatYouUse (e_os bare_env) (\<lambda>_. None) id ''a.h''
       (views ['''', ''list<int> b;'']) IncludeState_init)"
proof -
  have "entities ''list<int> b;'' = [(''<list>'', ''list<>'')]" by code_simp
  then have "called_last (views ['''', ''list<int> b;'']) ''<list>'' 1 ''list<>''"
    by (auto simp: called_last_def views_def NumLines_def)
  moreover have "snd (included_headers (e_os bare_env) (\<lambda>_. None) id ''a.h''
      IncludeState_init) (strip_header ''<list>'') = None" by code_simp
  moreover have "\<not> ends_with ''a.h'' ''.cc''" by code_simp
  ultimately show ?thesis
    by (subst include_what_you_use)
       (simp, intro conjI exI [of _ "''<list>''"] exI [of _ 1] exI [of _ "''list<>''"], simp_all)
qed

section \<open>Checks that can fail\<close>

text \<open>C33: \<^verbatim>\<open>IsRValueType\<close> returns whenever the symbols it goes back to stand on the line itself:
  each recursive call looks at a smaller column.\<close>

theorem IsRValueType_terminates:
  assumes "\<And>c m start sym. re_match re_type_token (take c (elided cl ! linenum)) = Some m \<Longrightarrow>
      find_symbol cl linenum (grp 1 m) = Some (start, sym) \<Longrightarrow> start = linenum"
  shows "\<exists>b. IsRValueType cl ns linenum column = Some b"
  by (rule IsRValueType_returns) (rule assms)

theorem IsRValueType_terminates_witness:
  "\<exists>b. IsRValueType (views [''int f(foo&& x, bar* y);'', ''f(a && b);'']) NestingState_init 0 9 = Some b"
proof (rule IsRValueType_terminates)
  fix c m start sym
  assume "find_symbol (views [''int f(foo&& x, bar* y);'', ''f(a && b);'']) 0 (grp 1 m) = Some (start, sym)"
  then show "start = 0" by (auto split: option.splits)
qed

text \<open>When the symbol stands on an earlier line the column of that line is looked up on the
  same line again; if it is the column the search came from, the function does not return.\<close>

theorem IsRValueType_recursion:
  assumes "rvalue_step cl ns linenum column = Inr column"
  shows "IsRValueType cl ns linenum column = None"
  using IsRValueType_loops [OF assms] .

theorem IsRValueType_recursion_witness:
  "IsRValueType (views [''int f('', ''foo&& x'']) NestingState_init 1 3 = None"
proof (rule IsRValueType_recursion)
  show "rvalue_step (views [''int f('', ''foo&& x'']) NestingState_init 1 3 = Inr 3" by code_simp
qed

text \<open>When the template arguments of a cast whose address is taken end their line, \<^verbatim>\<open>CheckCasts\<close>
  indexes the line past its end.\<close>

lemma cast_at_line_end: "CheckCasts (views [''g(&static_cast<A>'', ''(b));'']) 0 = None"
  by code_simp

section \<open>Messages\<close>

text \<open>C29: Every call of the error handler for a line names a category of the documented list and
  a confidence between 0 and 5.\<close>

theorem line_messages:
  assumes "line_diags src verbosity n fs = Some (ds, fs')" and "d \<in> set ds"
  shows "d_category d \<in> set ERROR_CATEGORIES \<and> 0 \<le> d_confidence d \<and> d_confidence d \<le> 5"
  using line_diags_keeps [OF assms(1)] assms(2) by (auto simp: keeps_def well_formed_diag_def)

definition one_line :: "string \<Rightarrow> source" where
  "one_line line =
     \<lparr>s_os = e_os bare_env, s_root = None, s_line_length = 80,
      s_filename = ''a.cc'', s_extension = ''cc'', s_lines = views ['''', line, '''']\<rparr>"

theorem line_messages_witness:
  "\<exists>ds fs'. line_diags (one_line [CHR 0x09]) 1 1 file_state_init = Some (ds, fs') \<and> length ds = 2 \<and>
     list_all (\<lambda>d. d_category d \<in> set ERROR_CATEGORIES) ds"
proof -
  have "map_option (\<lambda>(ds, _). length ds) (line_diags (one_line [CHR 0x09]) 1 1 file_state_init) = Some 2"
    by code_simp
  then obtain ds fs' where ds: "line_diags (one_line [CHR 0x09]) 1 1 file_state_init = Some (ds, fs')"
      "length ds = 2" by auto
  with line_messages [OF ds(1)] show ?thesis by (auto simp: list_all_iff)
qed

text \<open>C28: For any lines of a file every message that is printed is counted once and every one
  counted is printed; filters and verbosity stay, and above verbosity 5 nothing is printed.\<close>

theorem lines_printed:
  assumes "process_lines src ns (fs, L) = Some (fs', L')"
  shows "\<exists>out. stderr L' = stderr L @ out
    \<and> error_count (cpplint L') = error_count (cpplint L) + length out
    \<and> filters (cpplint L') = filters (cpplint L) \<and> verbose_level (cpplint L') = verbose_level (cpplint L)
    \<and> (5 < verbose_level (cpplint L) \<longrightarrow> out = [])"
  using process_lines_printed [OF assms] unfolding printed_def by blast

theorem lines_printed_witness:
  "\<exists>fs' L'. process_lines (one_line [CHR 0x09]) [1] (file_state_init, lint_init) = Some (fs', L') \<and>
     error_count (cpplint L') = length (stderr L') \<and> error_count (cpplint L') = 2"
proof -
  have "map_option (\<lambda>(_, L). length (stderr L))
      (process_lines (one_line [CHR 0x09]) [1] (file_state_init, lint_init)) = Some 2" by code_simp
  then obtain fs' L' where L': "process_lines (one_line [CHR 0x09]) [1] (file_state_init, lint_init) = Some (fs', L')"
      "length (stderr L') = 2" by auto
  with lines_printed [OF L'(1)] show ?thesis by (auto simp: lint_init_def CppLintState_init_def)
qed

end
