(* ===== verification/Fix_Whitespace.thy ===== *)
theory Fix_Whitespace
  imports Regex
begin

text \<open>
  \<^verbatim>\<open>tools/fixwhitespace.py\<close>: line endings and trailing whitespace. The pattern runs on the model
  of \<^verbatim>\<open>re\<close>; the files are a map from paths to bytes. Arguments are parsed by \<^verbatim>\<open>argparse\<close>, which is
  not modelled: \<open>fix_all\<close> gets the list of paths.
\<close>

section \<open>The program\<close>

text \<open>\<^verbatim>\<open>readlines\<close> keeps the newline of a line; only the last line may have none.\<close>

fun readlines :: "string \<Rightarrow> string list" where
  "readlines [] = []"
| "readlines (c # cs) =
     (if c = CHR 0x0A then [c] # readlines cs
      else (case readlines cs of [] \<Rightarrow> [[c]] | l # ls \<Rightarrow> (c # l) # ls))"

text \<open>\<^verbatim>\<open>(\s*)$\<close>\<close>

definition re_trailing :: regex where
  "re_trailing = seq [Grp 1 (many (Set [Spc])), Eol]"

text \<open>\<^verbatim>\<open>%r\<close> of whitespace.\<close>

definition repr_space :: "char \<Rightarrow> string" where
  "repr_space c =
     (if c = CHR 0x09 then [CHR 0x5C, CHR ''t''] else if c = CHR 0x0A then [CHR 0x5C, CHR ''n'']
      else if c = CHR 0x0D then [CHR 0x5C, CHR ''r'']
      else if c = CHR 0x0B then CHR 0x5C # ''x0b'' else if c = CHR 0x0C then CHR 0x5C # ''x0c''
      else [c])"

definition py_repr :: "string \<Rightarrow> string" where
  "py_repr s = [CHR 0x27] @ concat (map repr_space s) @ [CHR 0x27]"

text \<open>One line: what is printed, and the line that is written back.\<close>

definition fix_line :: "string \<Rightarrow> nat \<Rightarrow> string \<Rightarrow> (string list \<times> string) option" where
  "fix_line path i line =
     (case re_search re_trailing line of
        None \<Rightarrow> None
      | Some m \<Rightarrow>
          let trailing_whitespace = grp 1 m
          in if trailing_whitespace = [CHR 0x0A] then Some ([], line)
             else Some ([path @ ''('' @ show_nat i @ ''): incorrect line ending: ''
                          @ py_repr trailing_whitespace],
                        re_sub re_trailing (\<lambda>_. [CHR 0x0A]) line))"

fun fix_lines :: "string \<Rightarrow> nat \<Rightarrow> string list \<Rightarrow> (string list \<times> string list) option" where
  "fix_lines path i [] = Some ([], [])"
| "fix_lines path i (line # ls) =
     Option.bind (fix_line path i line) (\<lambda>(out, line).
     map_option (\<lambda>(out', ls). (out @ out', line # ls)) (fix_lines path (i + 1) ls))"

text \<open>
  The files and what was printed; \<open>None\<close> is an \<^verbatim>\<open>IOError\<close>. \<^verbatim>\<open>should_rewrite\<close> is set and never
  read: the file is written in any case.
\<close>

type_synonym disk = "string \<Rightarrow> string option"

definition FixWhitespace :: "string \<Rightarrow> disk \<times> string list \<Rightarrow> (disk \<times> string list) option" where
  "FixWhitespace path = (\<lambda>(files, printed).
     Option.bind (files path) (\<lambda>contents.
     map_option (\<lambda>(out, ls). (files(path \<mapsto> concat ls), printed @ out))
       (fix_lines path 0 (readlines contents))))"

fun fix_all :: "string list \<Rightarrow> disk \<times> string list \<Rightarrow> (disk \<times> string list) option" where
  "fix_all [] s = Some s"
| "fix_all (path # paths) s = Option.bind (FixWhitespace path s) (fix_all paths)"

section \<open>What the pattern finds\<close>

text \<open>A text without trailing whitespace.\<close>

definition trimmed :: "string \<Rightarrow> bool" where
  "trimmed s \<longleftrightarrow> s = [] \<or> \<not> is_space (last s)"

lemma class_space: "class_of (Set [Spc]) = Some is_space"
  by (simp add: fun_eq_iff)

lemma search_trailing:
  "trimmed body \<Longrightarrow> \<forall>c \<in> set ws. is_space c \<Longrightarrow>
     search_from re_trailing i b (body @ ws)
       = Some (RMatch [(0, i + length body, ws), (1, i + length body, ws)])"
proof (induction body arbitrary: i b)
  case Nil
  let ?st = "Cursor i b ws []"
  have "first (many (Set [Spc])) ?st (after ?st ws)"
    using Nil.prems(2) by (intro first_many [OF class_space, of _ _ "[]"]) auto
  note g = first_Grp [OF this, of 1]
  have "first re_trailing ?st (Cursor (i + length ws) (before (after ?st ws)) [] [(1, i, ws)])"
    unfolding re_trailing_def seq.simps
    by (rule first_Cat [OF g]) (simp add: first_def)
  from match_at_first [OF this] show ?case
    by (simp add: search_from.simps [of re_trailing])
next
  case (Cons c body)
  let ?s = "(c # body) @ ws"
  have x: "last (c # body) \<in> set ?s" "\<not> is_space (last (c # body))"
    using Cons.prems(1) by (simp_all add: trimmed_def)
  have "\<not> (drop k ?s = [] \<or> drop k ?s = [CHR 0x0A])" if "k \<le> length (takeWhile is_space ?s)" for k
  proof -
    have "dropWhile is_space ?s \<noteq> []" using x by (metis dropWhile_eq_Nil_conv)
    moreover have "drop k ?s = drop k (takeWhile is_space ?s) @ dropWhile is_space ?s"
      using that by (metis drop_append takeWhile_dropWhile_id diff_is_0_eq drop_0)
    ultimately have "\<exists>d \<in> set (drop k ?s). \<not> is_space d"
      using hd_dropWhile [of is_space ?s] hd_in_set by (metis Un_iff set_append)
    then show ?thesis by (auto simp: is_space_def code_def)
  qed
  then have "run re_trailing (Cursor i b ?s []) = []"
    unfolding re_trailing_def seq.simps run.simps run_many_class [OF class_space]
    by (auto simp del: upt_Suc simp: less_Suc_eq_le)
  then have "search_from re_trailing i b ?s = search_from re_trailing (Suc i) (Some c) (body @ ws)"
    by (simp add: search_from.simps [of re_trailing i] match_at_def)
  moreover have "trimmed body" using Cons.prems(1) by (auto simp: trimmed_def)
  ultimately show ?case using Cons.IH Cons.prems(2) by simp
qed

lemma re_sub_trailing:
  assumes "trimmed body" and "\<forall>c \<in> set ws. is_space c"
  shows "re_sub re_trailing (\<lambda>_. w) (body @ ws) = body @ w"
proof -
  let ?m = "RMatch [(0, length body, ws), (1, length body, ws)]"
  have 1: "search_from re_trailing 0 None (body @ ws) = Some ?m"
    using search_trailing [OF assms] by simp
  have 2: "search_from re_trailing i b [] = Some (RMatch [(0, i, []), (1, i, [])])" for i b
    using search_trailing [of "[]" "[]" i b] by (simp add: trimmed_def)
  have "drop_adjacent None (all_matches re_trailing (body @ ws)) = [?m]"
  proof (cases "ws = []")
    case True
    then show ?thesis unfolding all_matches_def using 1
      by (simp add: m_end_def m_start_def grp_def group_def)
  next
    case False
    then obtain n where "length (body @ ws) = Suc n" by (cases "length (body @ ws)") auto
    then show ?thesis unfolding all_matches_def using 1 2 False
      by (simp add: m_end_def m_start_def grp_def group_def)
  qed
  then show ?thesis by (simp add: re_sub_def m_start_def m_end_def grp_def group_def)
qed

section \<open>Lines\<close>

lemma concat_readlines: "concat (readlines s) = s"
  by (induction s) (auto split: list.splits)

lemma readlines_line:
  "l \<in> set (readlines s) \<Longrightarrow> \<exists>u. CHR 0x0A \<notin> set u \<and> (l = u @ [CHR 0x0A] \<or> l = u)"
proof (induction s arbitrary: l)
  case Nil
  then show ?case by simp
next
  case (Cons c cs)
  show ?case
  proof (cases "c = CHR 0x0A \<or> readlines cs = []")
    case True
    with Cons show ?thesis
      by (cases "c = CHR 0x0A") (auto intro: exI [of _ "[]"] exI [of _ "[c]"])
  next
    case False
    then obtain l1 ls where ls: "readlines cs = l1 # ls" by (cases "readlines cs") auto
    with Cons.IH [of l1] obtain u where "CHR 0x0A \<notin> set u" "l1 = u @ [CHR 0x0A] \<or> l1 = u" by auto
    with False ls Cons show ?thesis by (auto intro: exI [of _ "c # u"])
  qed
qed

lemma readlines_newline:
  "CHR 0x0A \<notin> set u \<Longrightarrow> readlines (u @ CHR 0x0A # t) = (u @ [CHR 0x0A]) # readlines t"
  by (induction u) auto

lemma readlines_concat:
  "\<forall>l \<in> set ls. \<exists>u. CHR 0x0A \<notin> set u \<and> l = u @ [CHR 0x0A] \<Longrightarrow> readlines (concat ls) = ls"
  by (induction ls) (auto simp: readlines_newline)

section \<open>What the program does\<close>

text \<open>The line as it should be: without trailing whitespace, and with one newline.\<close>

definition cut :: "string \<Rightarrow> string" where
  "cut s = rev (dropWhile is_space (rev s))"

definition fixed :: "string \<Rightarrow> string" where
  "fixed line = cut line @ [CHR 0x0A]"

lemma cut_split: "\<exists>ws. s = cut s @ ws \<and> (\<forall>c \<in> set ws. is_space c)"
proof -
  have "s = cut s @ rev (takeWhile is_space (rev s))"
    unfolding cut_def by (metis rev_append rev_rev_ident takeWhile_dropWhile_id)
  then show ?thesis by (metis set_rev set_takeWhileD)
qed

lemma trimmed_cut: "trimmed (cut s)"
  using hd_dropWhile [of is_space "rev s"] by (auto simp: trimmed_def cut_def last_rev)

lemma cut_cut:
  assumes "\<forall>c \<in> set ws. is_space c"
  shows "cut (cut s @ ws) = cut s"
proof -
  have "dropWhile is_space (v @ u) = dropWhile is_space u" if "\<forall>c \<in> set v. is_space c" for u v
    using that by (induction v) auto
  from this [of "rev ws"] assms have "dropWhile is_space (rev ws @ u) = dropWhile is_space u" for u
    by simp
  moreover have "dropWhile is_space (dropWhile is_space u) = dropWhile is_space u" for u
    by (induction u) auto
  ultimately show ?thesis by (simp add: cut_def)
qed

lemma fixed_fixed: "fixed (fixed l) = fixed l"
  by (simp add: fixed_def cut_cut is_space_def code_def)

lemma fixed_line:
  assumes "l \<in> set (readlines s)"
  shows "\<exists>u. CHR 0x0A \<notin> set u \<and> fixed l = u @ [CHR 0x0A]"
proof -
  obtain u where u: "CHR 0x0A \<notin> set u" "l = u @ [CHR 0x0A] \<or> l = u"
    using readlines_line [OF assms] by blast
  have "is_space (CHR 0x0A)" by (simp add: is_space_def code_def)
  then have "cut l = cut u" using u(2) by (auto simp: cut_def)
  moreover have "set (cut u) \<subseteq> set u"
    using set_dropWhileD by (fastforce simp: cut_def)
  ultimately show ?thesis using u(1) by (auto simp: fixed_def)
qed

lemma fix_line_fixed:
  "\<exists>out. fix_line path i line = Some (out, fixed line) \<and> (out = [] \<longleftrightarrow> fixed line = line)"
proof -
  obtain ws where ws: "line = cut line @ ws" "\<forall>c \<in> set ws. is_space c"
    using cut_split by blast
  have "re_search re_trailing line
      = Some (RMatch [(0, length (cut line), ws), (1, length (cut line), ws)])"
    using search_trailing [OF trimmed_cut ws(2), of 0 None line] ws(1)
    by (simp add: re_search_def)
  moreover have "re_sub re_trailing (\<lambda>_. [CHR 0x0A]) line = fixed line"
    using re_sub_trailing [OF trimmed_cut ws(2), of "[CHR 0x0A]" line] ws(1)
    by (simp add: fixed_def)
  moreover have "fixed line = line \<longleftrightarrow> ws = [CHR 0x0A]"
    using ws(1) unfolding fixed_def by (metis same_append_eq)
  ultimately show ?thesis by (auto simp: fix_line_def grp_def group_def)
qed

lemma fix_lines_fixed:
  "\<exists>out. fix_lines path i ls = Some (out, map fixed ls) \<and> (out = [] \<longleftrightarrow> map fixed ls = ls)"
proof (induction ls arbitrary: i)
  case Nil
  then show ?case by simp
next
  case (Cons l ls)
  obtain out1 out2 where "fix_line path i l = Some (out1, fixed l)" "out1 = [] \<longleftrightarrow> fixed l = l"
      "fix_lines path (i + 1) ls = Some (out2, map fixed ls)" "out2 = [] \<longleftrightarrow> map fixed ls = ls"
    using fix_line_fixed [of path i l] Cons.IH [of "i + 1"] by blast
  then show ?case by auto
qed

lemma readlines_fixed: "readlines (concat (map fixed (readlines s))) = map fixed (readlines s)"
  by (rule readlines_concat) (use fixed_line in auto)

lemma FixWhitespace_fixed:
  assumes "files path = Some contents"
  shows "\<exists>out. FixWhitespace path (files, printed)
      = Some (files(path \<mapsto> concat (map fixed (readlines contents))), printed @ out)
    \<and> (out = [] \<longleftrightarrow> concat (map fixed (readlines contents)) = contents)"
proof -
  obtain out where out: "fix_lines path 0 (readlines contents) = Some (out, map fixed (readlines contents))"
      "out = [] \<longleftrightarrow> map fixed (readlines contents) = readlines contents"
    using fix_lines_fixed by blast
  have "map fixed (readlines contents) = readlines contents \<longleftrightarrow>
      concat (map fixed (readlines contents)) = contents"
    using readlines_fixed [of contents] concat_readlines by metis
  with out assms show ?thesis by (simp add: FixWhitespace_def)
qed

section \<open>The property\<close>

text \<open>C35: \<^verbatim>\<open>FixWhitespace\<close> writes every line of a file back without its trailing whitespace and
  with one newline, prints something exactly when that changes the file, and does nothing more
  when it is run again.\<close>

theorem fix_whitespace:
  assumes "files path = Some contents"
  shows "\<exists>out files'. FixWhitespace path (files, printed) = Some (files', printed @ out)
    \<and> files' = files(path \<mapsto> concat (map (\<lambda>l. cut l @ [CHR 0x0A]) (readlines contents)))
    \<and> (out = [] \<longleftrightarrow> files' = files)
    \<and> FixWhitespace path (files', again) = Some (files', again)"
proof -
  let ?new = "concat (map fixed (readlines contents))"
  obtain out where out: "FixWhitespace path (files, printed) = Some (files(path \<mapsto> ?new), printed @ out)"
      "out = [] \<longleftrightarrow> ?new = contents"
    using FixWhitespace_fixed [of files, OF assms] by blast
  have same: "concat (map fixed (readlines ?new)) = ?new"
    by (simp add: readlines_fixed fixed_fixed comp_def)
  have "FixWhitespace path (files(path \<mapsto> ?new), again) = Some (files(path \<mapsto> ?new), again)"
    using FixWhitespace_fixed [of "files(path \<mapsto> ?new)" path ?new again] same by auto
  moreover have "?new = contents \<longleftrightarrow> files(path \<mapsto> ?new) = files"
    using assms by (metis fun_upd_same fun_upd_triv option.inject)
  ultimately show ?thesis using out by (auto simp: fixed_def [abs_def])
qed

theorem fix_whitespace_witness:
  "\<exists>files'. FixWhitespace ''f'' ([''f'' \<mapsto> ''a '' @ [CHR 0x0D, CHR 0x0A] @ ''b''], []) = Some (files',
     [''f(0): incorrect line ending: '' @ [CHR 0x27] @ '' '' @ [CHR 0x5C] @ ''r'' @ [CHR 0x5C] @ ''n'' @ [CHR 0x27],
      ''f(1): incorrect line ending: '' @ [CHR 0x27, CHR 0x27]])
   \<and> files' ''f'' = Some (''a'' @ [CHR 0x0A] @ ''b'' @ [CHR 0x0A])"
proof -
  have out: "map_option snd (FixWhitespace ''f'' ([''f'' \<mapsto> ''a '' @ [CHR 0x0D, CHR 0x0A] @ ''b''], [])) =
     Some [''f(0): incorrect line ending: '' @ [CHR 0x27] @ '' '' @ [CHR 0x5C] @ ''r'' @ [CHR 0x5C] @ ''n'' @ [CHR 0x27],
      ''f(1): incorrect line ending: '' @ [CHR 0x27, CHR 0x27]]" by code_simp
  have new: "concat (map (\<lambda>l. cut l @ [CHR 0x0A]) (readlines (''a '' @ [CHR 0x0D, CHR 0x0A] @ ''b'')))
      = ''a'' @ [CHR 0x0A] @ ''b'' @ [CHR 0x0A]" by code_simp
  have f: "[''f'' \<mapsto> ''a '' @ [CHR 0x0D, CHR 0x0A] @ ''b''] ''f'' = Some (''a '' @ [CHR 0x0D, CHR 0x0A] @ ''b'')"
    by simp
  from fix_whitespace [of "[''f'' \<mapsto> ''a '' @ [CHR 0x0D, CHR 0x0A] @ ''b'']" "''f''", OF f, of "[]"] out new show ?thesis by auto
qed

end
