(* ===== verification/Spec2Isabelle.thy ===== *)
theory Spec2Isabelle
  imports Ring_Theorems Lint_Theorems Lint_Tool_Theorems Fix_Whitespace
begin

text \<open>
  A model of \<^verbatim>\<open>ringfile\<close>, a library and a tool for circular log files of a fixed size, and of the
  Python programs in \<^verbatim>\<open>tools/\<close> that keep its sources in order, with the properties that make
  them correct.

  \<^bold>\<open>The ring file.\<close> \<^verbatim>\<open>src/ringfile.cc\<close> keeps records in the data area behind a header of 24 bytes;
  each record is its length as a varint (\<^verbatim>\<open>src/varint.cc\<close>) and its bytes, and the oldest records
  go when there is no room. The class is used by the C interface (\<^verbatim>\<open>src/public_interface.cc\<close>), the
  Python module (\<^verbatim>\<open>python/module.cc\<close>) and the command line tool (\<^verbatim>\<open>src/command.cc\<close>).
    \<^item> \<open>Prelude\<close>: words, the outcomes of a C++ call (a value, a failed \<^verbatim>\<open>assert\<close>, undefined
      behaviour), overwriting a stretch of a list.
    \<^item> \<open>Varint\<close>: \<^verbatim>\<open>Varint\<close>. \<open>Storage\<close>: the bytes of a file, its header and its circular data area.
      \<open>Ringfile\<close>: the class and every member function on words of 64 bits, with the calls of the
      operating system (open, ftruncate, mmap, read, write) as functions of the bytes of the file.
    \<^item> \<open>Ring_Transfer\<close>: the two parts of a transfer that wraps. \<open>Ring_Log\<close>: the abstract bounded log,
      what a sequence of appends should leave of it (\<open>longest_suffix\<close> of the records \<open>since_full\<close>),
      and when a file holds its records; \<open>Ring_Records\<close>: the class implements that log.
      \<open>Ring_Streaming\<close>: records in pieces. \<open>Ring_Files\<close>: creating, opening, closing.
    \<^item> \<open>Ring_API\<close>: the C functions and the methods of the Python type, and the contracts of a writer
      and of a reader as the locales \<open>bounded_log\<close> and \<open>record_reader\<close>, interpreted on the class, on
      streaming, on the C interface and on the Python type. \<open>Command\<close>: the tool, over models of
      \<^verbatim>\<open>getopt_long\<close> and \<^verbatim>\<open>strtol\<close>.
    \<^item> \<open>Ring_Theorems\<close>: the properties of this part.

  \<^bold>\<open>cpplint.\<close> \<^verbatim>\<open>tools/cpplint.py\<close> reads C++ files line by line. A check is a function of the lines and
  of the state kept between lines; its result is the list of its calls of \<^verbatim>\<open>error\<close> (records
  \<open>diag\<close>), or \<open>None\<close> where it raises an exception or does not return. \<open>Error\<close> and \<open>Errors\<close>
  report such a list.
    \<^item> \<open>Py_Str\<close>: strings as in Python 2; \<open>Regex\<close>: the \<^verbatim>\<open>re\<close> module as a backtracking matcher that lists
      its successes in the engine's order, with its language; \<open>Lint_Patterns\<close>: the patterns.
    \<^item> \<open>Lint_State\<close>: \<^verbatim>\<open>_CppLintState\<close>, suppressions, filters, reporting. \<open>Lint_Cleanse\<close>: raw strings,
      comments and strings, \<^verbatim>\<open>CleansedLines\<close>. \<open>Lint_Expr\<close>: matching brackets, forward and backward.
      \<open>Lint_File\<close>: paths, header guards, checks of a whole file.
    \<^item> \<open>Lint_Nesting\<close>, \<open>Lint_Blocks\<close>: \<^verbatim>\<open>NestingState\<close> and its blocks, which are objects with an
      identity because the preprocessor stack copies them: they can be values here since no two
      references share one (\<open>no_sharing\<close>). \<open>Lint_Include\<close>: \<^verbatim>\<open>_IncludeState\<close>.
    \<^item> The checks of a line: \<open>Lint_Lines\<close>, \<open>Lint_Constructs\<close>, \<open>Lint_Spacing\<close>, \<open>Lint_RValue\<close>,
      \<open>Lint_Braces\<close>, \<open>Lint_Style\<close> (\<^verbatim>\<open>CheckStyle\<close>), \<open>Lint_Casts\<close>, \<open>Lint_Language\<close>
      (\<^verbatim>\<open>CheckLanguage\<close>), \<open>Lint_IWYU\<close>.
    \<^item> The program: \<open>Lint_Config\<close> (the globals, \<^verbatim>\<open>CPPLINT.cfg\<close>), \<open>Lint_Args\<close> (the \<^verbatim>\<open>getopt\<close> module and
      \<^verbatim>\<open>ParseArguments\<close>), \<open>Lint_Process\<close> (\<^verbatim>\<open>ProcessLine\<close>, \<^verbatim>\<open>ProcessFileData\<close>, \<^verbatim>\<open>ProcessFile\<close>, \<^verbatim>\<open>main\<close>).
    \<^item> \<open>Lint_Contract\<close>: the locales \<open>reporter\<close> and \<open>line_check\<close> state what a check owes its caller
      (documented categories, a confidence from 0 to 5, its own line); they are interpreted on every
      check, and what a line, a file and a run print and keep is proved from them.
    \<^item> \<open>Lint_Theorems\<close>, \<open>Lint_Tool_Theorems\<close>: the properties of the checks and of the program.

  \<^bold>\<open>fixwhitespace.\<close> \<open>Fix_Whitespace\<close>: \<^verbatim>\<open>tools/fixwhitespace.py\<close> and its property.

  \<^bold>\<open>Parameters.\<close> What a program asks of its surroundings is an argument: the record \<open>env\<close> has the
  working directory, the existing paths, the contents of files, patterns given by the user (compiled
  by \<^verbatim>\<open>re\<close>, \<open>None\<close> where that fails) and the order in which a dictionary or a set goes through its
  elements, of which properties assume at most that it keeps the elements. \<^verbatim>\<open>strerror\<close> is an argument
  of the command line tool.

  \<^bold>\<open>Recursion and bounds.\<close> Loops are structural, or have a measure: what remains of the text, of the
  lines, of a path or of the arguments. The matcher repeats a pattern at most as often as there are
  characters ahead, because a round that consumes nothing ends a loop; the list of all matches is
  bounded by the length of the text and one. \<^verbatim>\<open>IsRValueType\<close> need not return; it is a partial
  function whose \<open>None\<close> says so. Words of 64 bits wrap around as in C++; lengths of files in Python
  are numbers.

  \<^bold>\<open>What the lemmas show.\<close> For the ring file: the varint round trip and its bounds, refinement of a
  bounded log by every operation, equality of streaming and whole operations, that any
  sequence of writes, through whichever interface, leaves the longest run of the newest records that
  fits, round trips of files and options, and inputs on which the code fails. For cpplint:
  brackets are matched as a plain stack matcher does, comments are removed, braces that match leave the blocks alone,
  reporting prints exactly what passes suppressions, verbosity and filters and counts it, options
  survive a file, totals add up, and which checks raise or do not return. A theorem about code that
  may raise says when it does, or assumes the result and has an instance.

  \<^bold>\<open>Not modelled.\<close> \<^verbatim>\<open>src/main.cc\<close>, which connects streams; unit tests; \<^verbatim>\<open>setup.py\<close> and the build files;
  the vendored test framework; argument parsing inside the Python runtime and \<^verbatim>\<open>argparse\<close>; failures of
  \<^verbatim>\<open>fstat\<close>, \<^verbatim>\<open>read\<close> and \<^verbatim>\<open>write\<close> on a file that could be opened, and short writes; what \<^verbatim>\<open>getopt_long\<close> itself
  prints on the error stream of the process; the
  codec of the standard streams, with \<^verbatim>\<open>extra_check_functions\<close>, which is always empty here. The
  one-line accessors of \<^verbatim>\<open>_cpplint_state\<close> and the cache of compiled patterns have no definition of
  their own: the state is passed on, and a pattern is a term.
\<close>

end
